(* ===== verification/Prelude.thy ===== *)
theory Prelude
  imports Main "HOL-Library.Finite_Map" "HOL-Library.Char_ord"
begin

text \<open>
  Shared vocabulary of the development: the result type of Go calls that may return an
  error or panic, the facts about lists and finite maps that several components use, and
  the collections of rewrite rules and invariants (\<open>go_simps\<close>, \<open>pool_simps\<close>).
\<close>

named_theorems go_simps \<open>characteristic equations of the Go library functions\<close>
named_theorems pool_simps \<open>frame equations of the pool operations\<close>

section \<open>Results of Go calls\<close>

text \<open>
  A Go call returns a value, returns an error, or panics.
\<close>

datatype ('e, 'a) res = Ok 'a | Err 'e | Panic

fun is_Ok :: "('e, 'a) res \<Rightarrow> bool" where
  "is_Ok (Ok _) = True"
| "is_Ok _ = False"

lemma is_Ok_iff: "is_Ok r \<longleftrightarrow> (\<exists>a. r = Ok a)"
  by (cases r) auto

fun bind_res :: "('e, 'a) res \<Rightarrow> ('a \<Rightarrow> ('e, 'b) res) \<Rightarrow> ('e, 'b) res" where
  "bind_res (Ok a) f = f a"
| "bind_res (Err e) f = Err e"
| "bind_res Panic f = Panic"

lemma bind_res_Ok: "bind_res r f = Ok b \<longleftrightarrow> (\<exists>a. r = Ok a \<and> f a = Ok b)"
  by (cases r) auto

section \<open>Codecs\<close>

text \<open>
  A codec is an encoder and a partial decoder that inverts it on a domain of values. The
  encodings of the program (base64url, quoted strings, JSON strings, the principal's grant
  subject) are instances, and share the consequences.
\<close>

locale codec =
  fixes enc :: "'a \<Rightarrow> 'b" and dec :: "'b \<Rightarrow> 'a option" and valid :: "'a \<Rightarrow> bool"
  assumes dec_enc: "valid x \<Longrightarrow> dec (enc x) = Some x"
begin

lemma enc_inj: "valid x \<Longrightarrow> valid y \<Longrightarrow> enc x = enc y \<Longrightarrow> x = y"
  by (metis dec_enc option.inject)

lemma enc_inj_on: "inj_on enc {x. valid x}"
  by (auto intro: inj_onI enc_inj)

lemma dec_of_enc_iff: "valid x \<Longrightarrow> dec (enc x) = Some y \<longleftrightarrow> y = x"
  by (auto simp: dec_enc)

end

section \<open>Transition systems with an invariant\<close>

text \<open>
  A step relation whose steps keep a predicate: the predicate then holds in every state that
  is reached from a state where it holds.
\<close>

locale invariant_system =
  fixes step :: "'s \<Rightarrow> 's \<Rightarrow> bool" and inv :: "'s \<Rightarrow> bool"
  assumes step_inv: "inv s \<Longrightarrow> step s t \<Longrightarrow> inv t"
begin

lemma steps_inv: "step\<^sup>*\<^sup>* s t \<Longrightarrow> inv s \<Longrightarrow> inv t"
  by (induction rule: rtranclp_induct) (auto intro: step_inv)

end

section \<open>Lists\<close>

text \<open>A partial labelling of the elements of a list in which no label occurs twice.\<close>

definition apart :: "('a \<Rightarrow> 'l option) \<Rightarrow> 'a list \<Rightarrow> bool" where
  "apart f xs \<longleftrightarrow>
     (\<forall>i j l. i < length xs \<longrightarrow> j < length xs \<longrightarrow> f (xs ! i) = Some l \<longrightarrow> f (xs ! j) = Some l \<longrightarrow> i = j)"

lemma apartD:
  "apart f xs \<Longrightarrow> i < length xs \<Longrightarrow> j < length xs \<Longrightarrow> f (xs ! i) = Some l \<Longrightarrow> f (xs ! j) = Some l \<Longrightarrow> i = j"
  by (simp add: apart_def)

lemma apart_Nil [simp]: "apart f []"
  by (simp add: apart_def)

lemma apart_snoc: "apart f xs \<Longrightarrow> f x = None \<Longrightarrow> apart f (xs @ [x])"
  unfolding apart_def by (auto simp: nth_append less_Suc_eq)

lemma apart_update:
  assumes "apart f xs" "\<And>j l. j < length xs \<Longrightarrow> j \<noteq> i \<Longrightarrow> f x = Some l \<Longrightarrow> f (xs ! j) \<noteq> Some l"
  shows "apart f (xs[i := x])"
  unfolding apart_def length_list_update
proof (intro allI impI)
  fix j k l
  assume "j < length xs" "k < length xs" "f (xs[i := x] ! j) = Some l" "f (xs[i := x] ! k) = Some l"
  then show "j = k"
    using apartD [OF assms(1), of j k l] assms(2) [of j l] assms(2) [of k l]
    by (cases "j = i"; cases "k = i") simp_all
qed

section \<open>Finite maps\<close>

text \<open>
  Go maps are finite; deleting every key whose value satisfies a test is a filter on the keys.
\<close>

definition fmdrop_values :: "('v \<Rightarrow> bool) \<Rightarrow> ('k, 'v) fmap \<Rightarrow> ('k, 'v) fmap" where
  "fmdrop_values P m = fmfilter (\<lambda>k. case fmlookup m k of None \<Rightarrow> True | Some v \<Rightarrow> \<not> P v) m"

lemma fmlookup_drop_values [simp]:
  "fmlookup (fmdrop_values P m) k =
     (case fmlookup m k of None \<Rightarrow> None | Some v \<Rightarrow> if P v then None else Some v)"
  by (auto simp: fmdrop_values_def split: option.splits)

lemma fmlookup_drop_values_Some:
  "fmlookup (fmdrop_values P m) k = Some v \<longleftrightarrow> fmlookup m k = Some v \<and> \<not> P v"
  by (auto split: option.splits)

end
