(* ===== verification/GoStrings.thy ===== *)
theory GoStrings
  imports Prelude
begin

text \<open>
  The functions of Go's packages \<open>strings\<close>, \<open>unicode/utf8\<close> and \<open>strconv\<close> that the program
  calls, on byte strings: a \<open>char\<close> is a byte and a \<open>string\<close> is a Go string.
\<close>

section \<open>strings\<close>

definition HasPrefix :: "string \<Rightarrow> string \<Rightarrow> bool" where
  "HasPrefix s p = (take (length p) s = p)"

definition HasSuffix :: "string \<Rightarrow> string \<Rightarrow> bool" where
  "HasSuffix s x = (length x \<le> length s \<and> drop (length s - length x) s = x)"

definition CutPrefix :: "string \<Rightarrow> string \<Rightarrow> string \<times> bool" where
  "CutPrefix s p = (if HasPrefix s p then (drop (length p) s, True) else (s, False))"

text \<open>The slice expression \<open>s[i:j]\<close>, which panics (\<open>None\<close>) unless \<open>i \<le> j \<le> len(s)\<close>.\<close>

definition slice :: "string \<Rightarrow> nat \<Rightarrow> nat \<Rightarrow> string option" where
  "slice s i j = (if i \<le> j \<and> j \<le> length s then Some (take (j - i) (drop i s)) else None)"

text \<open>\<open>strings.Split(s, sep)\<close> for a separator of one byte: always at least one part.\<close>

fun Split :: "string \<Rightarrow> char \<Rightarrow> string list" where
  "Split [] c = [[]]"
| "Split (x # xs) c =
     (if x = c then [] # Split xs c
      else (case Split xs c of [] \<Rightarrow> [[x]] | p # ps \<Rightarrow> (x # p) # ps))"

fun Join :: "string list \<Rightarrow> char \<Rightarrow> string" where
  "Join [] c = []"
| "Join [p] c = p"
| "Join (p # q # ps) c = p @ c # Join (q # ps) c"

fun Contains :: "string \<Rightarrow> string \<Rightarrow> bool" where
  "Contains [] sub = (sub = [])"
| "Contains (x # xs) sub = (HasPrefix (x # xs) sub \<or> Contains xs sub)"

lemma HasPrefix_iff [go_simps]: "HasPrefix s p \<longleftrightarrow> (\<exists>r. s = p @ r)"
  by (auto simp: HasPrefix_def) (metis append_take_drop_id)

lemma HasSuffix_iff [go_simps]: "HasSuffix s x \<longleftrightarrow> (\<exists>r. s = r @ x)"
  by (auto simp: HasSuffix_def) (metis append_take_drop_id)

lemma HasPrefix_append [simp]: "HasPrefix (p @ r) p"
  by (auto simp: HasPrefix_iff)

lemma HasSuffix_append [simp]: "HasSuffix (r @ x) x"
  by (auto simp: HasSuffix_iff)

lemma CutPrefix_True: "CutPrefix s p = (r, True) \<longleftrightarrow> s = p @ r"
  by (auto simp: CutPrefix_def HasPrefix_iff)

lemma slice_Some:
  assumes "slice s i j = Some m"
  shows "\<exists>a b. s = a @ m @ b \<and> length a = i \<and> length b = length s - j"
proof -
  from assms have "i \<le> j" "j \<le> length s" "m = take (j - i) (drop i s)"
    by (auto simp: slice_def split: if_splits)
  then have "s = take i s @ m @ drop j s"
    by (simp add: take_drop [symmetric] flip: drop_drop)
      (metis append_take_drop_id drop_drop le_add_diff_inverse2)
  with \<open>i \<le> j\<close> \<open>j \<le> length s\<close> show ?thesis
    by (intro exI [of _ "take i s"] exI [of _ "drop j s"]) simp
qed

lemma slice_middle: "slice (p @ m @ x) (length p) (length p + length m) = Some m"
  by (simp add: slice_def)

lemma Split_not_Nil [simp]: "Split s c \<noteq> []"
  by (induction s) (auto split: list.splits)

lemma Split_no_sep: "c \<notin> set s \<Longrightarrow> Split s c = [s]"
  by (induction s) auto

lemma Split_append_sep: "c \<notin> set a \<Longrightarrow> Split (a @ c # b) c = a # Split b c"
  by (induction a) auto

lemma Split_parts_no_sep: "p \<in> set (Split s c) \<Longrightarrow> c \<notin> set p"
  by (induction s arbitrary: p) (auto split: list.splits if_splits)

lemma Join_Split: "Join (Split s c) c = s"
proof (induction s)
  case (Cons x xs)
  obtain p ps where sp: "Split xs c = p # ps" by (cases "Split xs c") auto
  show ?case
  proof (cases "x = c")
    case True
    with sp Cons.IH show ?thesis by simp
  next
    case False
    with sp Cons.IH show ?thesis by (cases ps) auto
  qed
qed simp

lemma Split_Join: "ps \<noteq> [] \<Longrightarrow> \<forall>p \<in> set ps. c \<notin> set p \<Longrightarrow> Split (Join ps c) c = ps"
  by (induction ps c rule: Join.induct) (auto simp: Split_no_sep Split_append_sep)

lemma length_Split: "length (Split s c) = Suc (count_list s c)"
  by (induction s) (auto split: list.splits)

lemma Contains_iff: "Contains s x \<longleftrightarrow> (\<exists>a b. s = a @ x @ b)"
proof (induction s)
  case (Cons y ys)
  have "(\<exists>a b. y # ys = a @ x @ b) \<longleftrightarrow> (\<exists>b. y # ys = x @ b) \<or> (\<exists>a b. ys = a @ x @ b)"
  proof
    assume "\<exists>a b. y # ys = a @ x @ b"
    then obtain a b where "y # ys = a @ x @ b" by blast
    then show "(\<exists>b. y # ys = x @ b) \<or> (\<exists>a b. ys = a @ x @ b)"
      by (cases a) auto
  next
    assume "(\<exists>b. y # ys = x @ b) \<or> (\<exists>a b. ys = a @ x @ b)"
    then show "\<exists>a b. y # ys = a @ x @ b"
      by (metis append_Cons append_Nil)
  qed
  then show ?case
    by (simp add: HasPrefix_iff Cons.IH)
qed auto

section \<open>unicode/utf8\<close>

text \<open>
  \<open>rune_at s\<close> is \<open>utf8.DecodeRune\<close> on a non-empty string: the code point and its width, or
  no code point and width 1 where the bytes are not valid UTF-8 (overlong forms, surrogates
  and values past 10FFFF included).
\<close>

definition byte :: "char \<Rightarrow> nat" where "byte c = of_char c"
definition chr :: "nat \<Rightarrow> char" where "chr n = char_of n"

definition between :: "nat \<Rightarrow> nat \<Rightarrow> nat \<Rightarrow> bool" where
  "between lo x hi = (lo \<le> x \<and> x \<le> hi)"

definition rune_at :: "string \<Rightarrow> nat option \<times> nat" where
  "rune_at s = (case map byte (take 4 s) of
     [] \<Rightarrow> (None, 0)
   | a # as \<Rightarrow>
      if a < 128 then (Some a, 1)
      else if between 194 a 223 then
        (case as of b # _ \<Rightarrow> if between 128 b 191 then (Some ((a - 192) * 64 + (b - 128)), 2) else (None, 1)
         | _ \<Rightarrow> (None, 1))
      else if between 224 a 239 then
        (case as of b # c # _ \<Rightarrow>
           if between (if a = 224 then 160 else 128) b (if a = 237 then 159 else 191) \<and> between 128 c 191
           then (Some ((a - 224) * 4096 + (b - 128) * 64 + (c - 128)), 3) else (None, 1)
         | _ \<Rightarrow> (None, 1))
      else if between 240 a 244 then
        (case as of b # c # d # _ \<Rightarrow>
           if between (if a = 240 then 144 else 128) b (if a = 244 then 143 else 191)
              \<and> between 128 c 191 \<and> between 128 d 191
           then (Some ((a - 240) * 262144 + (b - 128) * 4096 + (c - 128) * 64 + (d - 128)), 4)
           else (None, 1)
         | _ \<Rightarrow> (None, 1))
      else (None, 1))"

text \<open>\<open>utf8.AppendRune\<close> for a code point; one that is not valid becomes U+FFFD.\<close>

definition utf8_enc :: "nat \<Rightarrow> string" where
  "utf8_enc r =
     (if r < 128 then [chr r]
      else if r < 2048 then [chr (192 + r div 64), chr (128 + r mod 64)]
      else if between 55296 r 57343 \<or> 1114111 < r then [chr 239, chr 191, chr 189]
      else if r < 65536 then
        [chr (224 + r div 4096), chr (128 + r div 64 mod 64), chr (128 + r mod 64)]
      else [chr (240 + r div 262144), chr (128 + r div 4096 mod 64),
            chr (128 + r div 64 mod 64), chr (128 + r mod 64)])"

definition replacement :: string where "replacement = [chr 239, chr 191, chr 189]"

definition ascii :: "string \<Rightarrow> bool" where
  "ascii s = (\<forall>c \<in> set s. byte c < 128)"

lemma byte_lt [simp]: "byte c < 256"
  by (simp add: byte_def)

lemma chr_byte [simp]: "chr (byte c) = c"
  by (simp add: chr_def byte_def)

lemma byte_chr [simp]: "n < 256 \<Longrightarrow> byte (chr n) = n"
  by (simp add: chr_def byte_def)

lemma byte_inject [simp]: "byte a = byte b \<longleftrightarrow> a = b"
  by (metis chr_byte)

lemma rune_at_ascii: "byte c < 128 \<Longrightarrow> rune_at (c # cs) = (Some (byte c), 1)"
  by (simp add: rune_at_def)

lemma ascii_simps [simp]:
  "ascii []" "ascii (c # cs) \<longleftrightarrow> byte c < 128 \<and> ascii cs" "ascii (a @ b) \<longleftrightarrow> ascii a \<and> ascii b"
  by (auto simp: ascii_def)

end
