(* ===== verification/Config.thy ===== *)
theory Config
  imports GoStrings
begin

text \<open>
  \<open>config.go\<close>: the node's configuration, the subject root of the identity plane and the
  validation that \<open>New\<close> runs before anything listens. The segment of the identity plane
  (\<open>siclient.Segment\<close>) is a constant of another module and a parameter here.
\<close>

datatype logger = StderrText | CallerLogger nat

record config =
  Listen :: string
  PublicURL :: string
  AuthIssuer :: string
  Realm :: string
  NATSURL :: string
  SentinelPath :: string
  Prefix :: string
  Logger :: "logger option"

definition root :: "string \<Rightarrow> config \<Rightarrow> string" where
  "root segment c = (if Prefix c = [] then segment else Prefix c @ ''.'' @ segment)"

datatype config_error =
    ListenRequired
  | RealmRequired
  | NATSURLRequired
  | AuthIssuerRequired
  | PublicURLTrailingSlash string
  | AuthIssuerWithoutPublicURL

definition validate :: "config \<Rightarrow> config_error option" where
  "validate c =
     (if Listen c = [] then Some ListenRequired
      else if Realm c = [] then Some RealmRequired
      else if NATSURL c = [] then Some NATSURLRequired
      else if PublicURL c \<noteq> [] \<and> AuthIssuer c = [] then Some AuthIssuerRequired
      else if PublicURL c \<noteq> [] \<and> HasSuffix (PublicURL c) ''/'' then Some (PublicURLTrailingSlash (PublicURL c))
      else if AuthIssuer c \<noteq> [] \<and> PublicURL c = [] then Some AuthIssuerWithoutPublicURL
      else None)"

text \<open>Public mode is on exactly when a public URL is configured.\<close>

definition public_mode :: "config \<Rightarrow> bool" where
  "public_mode c = (PublicURL c \<noteq> [])"

lemma root_not_Nil: "segment \<noteq> [] \<Longrightarrow> root segment c \<noteq> []"
  by (simp add: root_def)

lemma root_suffix: "HasSuffix (root segment c) segment"
  by (auto simp: root_def HasSuffix_iff)

text \<open>
  A configuration passes validation iff the three required fields are set, and the OAuth edge
  is wholly configured (issuer and a public URL without a trailing slash) or wholly absent.
\<close>

lemma validate_None_iff:
  "validate c = None \<longleftrightarrow>
     Listen c \<noteq> [] \<and> Realm c \<noteq> [] \<and> NATSURL c \<noteq> [] \<and>
     (public_mode c \<longleftrightarrow> AuthIssuer c \<noteq> []) \<and>
     (public_mode c \<longrightarrow> last (PublicURL c) \<noteq> CHR ''/'')"
proof -
  have "HasSuffix u ''/'' \<longleftrightarrow> u \<noteq> [] \<and> last u = CHR ''/''" for u
    by (auto simp: HasSuffix_iff) (metis append_butlast_last_id)
  then show ?thesis
    by (auto simp: validate_def public_mode_def)
qed

lemma validate_ignores_logger [simp]: "validate (c\<lparr>Logger := l\<rparr>) = validate c"
  by (simp add: validate_def)

end
