(* ===== verification/GoJson.thy ===== *)
theory GoJson
  imports GoStrings
begin

text \<open>
  The part of Go's \<open>encoding/json\<close> the program uses: the syntax check and the parse of a
  document (nesting limit 10000), the unquoting of strings, the matching of object keys
  against struct fields (exact, or equal under Go's case folding), the decoding into string
  fields and slices of strings, and the string encoding with HTML escapes.
\<close>

section \<open>Values and syntax\<close>

datatype json =
    JNull
  | JBool bool
  | JNum string
  | JStr string
  | JArr "json list"
  | JObj "(string \<times> json) list"

abbreviation dquote :: char where "dquote \<equiv> CHR 0x22"
abbreviation bslash :: char where "bslash \<equiv> CHR 0x5C"

definition is_ws :: "char \<Rightarrow> bool" where
  "is_ws c = (c = CHR 0x20 \<or> c = CHR 0x09 \<or> c = CHR 0x0D \<or> c = CHR 0x0A)"

definition skip_ws :: "string \<Rightarrow> string" where
  "skip_ws s = dropWhile is_ws s"

definition is_digit :: "char \<Rightarrow> bool" where
  "is_digit c = between 48 (byte c) 57"

definition hex_val :: "char \<Rightarrow> nat option" where
  "hex_val c =
     (if between 48 (byte c) 57 then Some (byte c - 48)
      else if between 97 (byte c) 102 then Some (byte c - 87)
      else if between 65 (byte c) 70 then Some (byte c - 55)
      else None)"

definition hex4 :: "string \<Rightarrow> nat option" where
  "hex4 s = (case map hex_val (take 4 s) of
     [Some a, Some b, Some c, Some d] \<Rightarrow> Some (a * 4096 + b * 256 + c * 16 + d) | _ \<Rightarrow> None)"

text \<open>The body of a string literal up to its closing quote, escapes still in place.\<close>

fun scan_str :: "string \<Rightarrow> (string \<times> string) option" where
  "scan_str [] = None"
| "scan_str (c # cs) =
     (if c = dquote then Some ([], cs)
      else if c = bslash then
        (case cs of
           [] \<Rightarrow> None
         | d # ds \<Rightarrow>
             if d = CHR ''u'' then
               (if hex4 ds = None then None
                else map_option (\<lambda>(b, r). (c # d # take 4 ds @ b, r)) (scan_str (drop 4 ds)))
             else if d \<in> {CHR ''b'', CHR ''f'', CHR ''n'', CHR ''r'', CHR ''t'', bslash, CHR ''/'', dquote}
             then map_option (\<lambda>(b, r). (c # d # b, r)) (scan_str ds)
             else None)
      else if byte c < 32 then None
      else map_option (\<lambda>(b, r). (c # b, r)) (scan_str cs))"

definition unescape1 :: "char \<Rightarrow> char" where
  "unescape1 d =
     (if d = CHR ''b'' then CHR 0x08 else if d = CHR ''f'' then CHR 0x0C
      else if d = CHR ''n'' then CHR 0x0A else if d = CHR ''r'' then CHR 0x0D
      else if d = CHR ''t'' then CHR 0x09 else d)"

text \<open>\<open>getu4\<close>: the code unit of an escape \<open>\\uXXXX\<close> at the start of the string.\<close>

definition getu4 :: "string \<Rightarrow> nat option" where
  "getu4 s = (case s of a # b # r \<Rightarrow> if a = bslash \<and> b = CHR ''u'' then hex4 r else None | _ \<Rightarrow> None)"

text \<open>\<open>utf16.DecodeRune\<close>: the code point of a surrogate pair.\<close>

definition utf16_pair :: "nat \<Rightarrow> nat \<Rightarrow> nat option" where
  "utf16_pair r1 r2 =
     (if between 55296 r1 56319 \<and> between 56320 r2 57343
      then Some ((r1 - 55296) * 1024 + (r2 - 56320) + 65536) else None)"

text \<open>\<open>unquote\<close> on the body of a literal that the syntax check accepted.\<close>

fun unquote :: "string \<Rightarrow> string" where
  "unquote [] = []"
| "unquote (c # cs) =
     (if c = bslash then
        (case cs of
           [] \<Rightarrow> []
         | d # ds \<Rightarrow>
             if d = CHR ''u'' then
               (case hex4 ds of
                  None \<Rightarrow> []
                | Some r1 \<Rightarrow>
                    if between 55296 r1 57343 then
                      (case getu4 (drop 4 ds) of
                         None \<Rightarrow> replacement @ unquote (drop 4 ds)
                       | Some r2 \<Rightarrow>
                          (case utf16_pair r1 r2 of
                             Some r \<Rightarrow> utf8_enc r @ unquote (drop 10 ds)
                           | None \<Rightarrow> replacement @ unquote (drop 4 ds)))
                    else utf8_enc r1 @ unquote (drop 4 ds))
             else unescape1 d # unquote ds)
      else (case rune_at (c # cs) of
              (None, _) \<Rightarrow> replacement @ unquote cs
            | (Some r, w) \<Rightarrow> take w (c # cs) @ unquote (drop (w - 1) cs)))"

definition digits :: "string \<Rightarrow> (string \<times> string) option" where
  "digits s = (if takeWhile is_digit s = [] then None
               else Some (takeWhile is_digit s, dropWhile is_digit s))"

definition scan_int :: "string \<Rightarrow> (string \<times> string) option" where
  "scan_int s = (case s of
     [] \<Rightarrow> None
   | c # cs \<Rightarrow> if c = CHR ''0'' then Some ([c], cs) else digits s)"

definition scan_frac :: "string \<Rightarrow> (string \<times> string) option" where
  "scan_frac s = (case s of
     c # cs \<Rightarrow> if c = CHR ''.'' then map_option (\<lambda>(d, r). (c # d, r)) (digits cs) else Some ([], s)
   | [] \<Rightarrow> Some ([], s))"

definition scan_exp :: "string \<Rightarrow> (string \<times> string) option" where
  "scan_exp s = (case s of
     c # cs \<Rightarrow>
       if c = CHR ''e'' \<or> c = CHR ''E'' then
         (case cs of
            g # r \<Rightarrow> if g = CHR ''+'' \<or> g = CHR ''-''
                     then map_option (\<lambda>(d, r). (c # g # d, r)) (digits r)
                     else map_option (\<lambda>(d, r). (c # d, r)) (digits cs)
          | [] \<Rightarrow> None)
       else Some ([], s)
   | [] \<Rightarrow> Some ([], s))"

definition scan_num :: "string \<Rightarrow> (string \<times> string) option" where
  "scan_num s =
     (let (sg, s0) = (case s of c # cs \<Rightarrow> if c = CHR ''-'' then ([c], cs) else ([], s) | [] \<Rightarrow> ([], s)) in
      case scan_int s0 of
        None \<Rightarrow> None
      | Some (i, s1) \<Rightarrow>
         (case scan_frac s1 of
            None \<Rightarrow> None
          | Some (f, s2) \<Rightarrow>
             (case scan_exp s2 of
                None \<Rightarrow> None
              | Some (e, s3) \<Rightarrow> Some (sg @ i @ f @ e, s3))))"

text \<open>
  The parser. The first argument bounds the number of nested calls; \<open>parse_json\<close> gives enough
  of it for the whole document (\<open>jval_enough\<close> below). The second counts open brackets.
\<close>

fun jval :: "nat \<Rightarrow> nat \<Rightarrow> string \<Rightarrow> (json \<times> string) option"
  and jmembers :: "nat \<Rightarrow> nat \<Rightarrow> string \<Rightarrow> ((string \<times> json) list \<times> string) option"
  and jelems :: "nat \<Rightarrow> nat \<Rightarrow> string \<Rightarrow> (json list \<times> string) option"
where
  "jval 0 d s = None"
| "jval (Suc n) d s =
     (case skip_ws s of
        [] \<Rightarrow> None
      | c # cs \<Rightarrow>
         if c = CHR 0x7B then
           (if d < 10000 then
              (case skip_ws cs of
                 [] \<Rightarrow> None
               | c' # cs' \<Rightarrow> if c' = CHR 0x7D then Some (JObj [], cs')
                            else map_option (\<lambda>(ms, r). (JObj ms, r)) (jmembers n (Suc d) cs))
            else None)
         else if c = CHR 0x5B then
           (if d < 10000 then
              (case skip_ws cs of
                 [] \<Rightarrow> None
               | c' # cs' \<Rightarrow> if c' = CHR 0x5D then Some (JArr [], cs')
                            else map_option (\<lambda>(vs, r). (JArr vs, r)) (jelems n (Suc d) cs))
            else None)
         else if c = dquote then map_option (\<lambda>(b, r). (JStr (unquote b), r)) (scan_str cs)
         else if HasPrefix (c # cs) ''true'' then Some (JBool True, drop 4 (c # cs))
         else if HasPrefix (c # cs) ''false'' then Some (JBool False, drop 5 (c # cs))
         else if HasPrefix (c # cs) ''null'' then Some (JNull, drop 4 (c # cs))
         else map_option (\<lambda>(t, r). (JNum t, r)) (scan_num (c # cs)))"
| "jmembers 0 d s = None"
| "jmembers (Suc n) d s =
     (case skip_ws s of
        [] \<Rightarrow> None
      | q # s1 \<Rightarrow>
         if q \<noteq> dquote then None
         else (case scan_str s1 of
            None \<Rightarrow> None
          | Some (k, s2) \<Rightarrow>
             (case skip_ws s2 of
                [] \<Rightarrow> None
              | c # s3 \<Rightarrow>
                 if c \<noteq> CHR '':'' then None
                 else (case jval n d s3 of
                    None \<Rightarrow> None
                  | Some (v, s4) \<Rightarrow>
                     (case skip_ws s4 of
                        [] \<Rightarrow> None
                      | e # s5 \<Rightarrow>
                         if e = CHR '','' then
                           map_option (\<lambda>(ms, r). ((unquote k, v) # ms, r)) (jmembers n d s5)
                         else if e = CHR 0x7D then Some ([(unquote k, v)], s5)
                         else None)))))"
| "jelems 0 d s = None"
| "jelems (Suc n) d s =
     (case jval n d s of
        None \<Rightarrow> None
      | Some (v, s1) \<Rightarrow>
         (case skip_ws s1 of
            [] \<Rightarrow> None
          | e # s2 \<Rightarrow>
             if e = CHR '','' then map_option (\<lambda>(vs, r). (v # vs, r)) (jelems n d s2)
             else if e = CHR 0x5D then Some ([v], s2)
             else None))"

definition parse_json :: "string \<Rightarrow> json option" where
  "parse_json s =
     (case jval (2 * length s + 1) 0 s of
        None \<Rightarrow> None
      | Some (v, r) \<Rightarrow> if skip_ws r = [] then Some v else None)"

section \<open>Decoding into Go values\<close>

text \<open>
  \<open>foldName\<close>: the key in upper case; the long s (C5 BF) and the Kelvin sign (E2 84 AA) fold to
  the ASCII letters S and K, and no other rune outside ASCII folds to an ASCII letter.
\<close>

fun fold_name :: "string \<Rightarrow> string" where
  "fold_name [] = []"
| "fold_name (c # cs) =
     (if between 97 (byte c) 122 then chr (byte c - 32) # fold_name cs
      else if c = CHR 0xC5 \<and> take 1 cs = [CHR 0xBF] then CHR ''S'' # fold_name (drop 1 cs)
      else if c = CHR 0xE2 \<and> take 2 cs = [CHR 0x84, CHR 0xAA] then CHR ''K'' # fold_name (drop 2 cs)
      else c # fold_name cs)"

definition field_matches :: "string \<Rightarrow> string \<Rightarrow> bool" where
  "field_matches name k = (k = name \<or> fold_name k = fold_name name)"

text \<open>
  Decoding returns the new value of the target and whether every value had the target's type;
  \<open>json.Unmarshal\<close> reports an error in the other case.
\<close>

fun dec_string :: "json \<Rightarrow> string \<Rightarrow> string \<times> bool" where
  "dec_string JNull old = (old, True)"
| "dec_string (JStr t) old = (t, True)"
| "dec_string _ old = (old, False)"

fun dec_strings :: "json \<Rightarrow> string list \<Rightarrow> string list \<times> bool" where
  "dec_strings JNull old = ([], True)"
| "dec_strings (JArr vs) old =
     (map (\<lambda>v. fst (dec_string v [])) vs, list_all (\<lambda>v. snd (dec_string v [])) vs)"
| "dec_strings _ old = (old, False)"

text \<open>A struct: the members in order, each offered to the field it matches.\<close>

fun dec_struct :: "(string \<Rightarrow> json \<Rightarrow> 'a \<Rightarrow> 'a \<times> bool) \<Rightarrow> json \<Rightarrow> 'a \<Rightarrow> 'a \<times> bool" where
  "dec_struct f JNull old = (old, True)"
| "dec_struct f (JObj ms) old =
     foldl (\<lambda>(a, ok) (k, v). let (a', ok') = f k v a in (a', ok \<and> ok')) (old, True) ms"
| "dec_struct f _ old = (old, False)"

section \<open>Encoding strings\<close>

definition hex_digit :: "nat \<Rightarrow> char" where
  "hex_digit n = ''0123456789abcdef'' ! n"

definition json_esc1 :: "char \<Rightarrow> string" where
  "json_esc1 c =
     (if c = dquote \<or> c = bslash then [bslash, c]
      else if c = CHR 0x08 then [bslash, CHR ''b''] else if c = CHR 0x0C then [bslash, CHR ''f'']
      else if c = CHR 0x0A then [bslash, CHR ''n''] else if c = CHR 0x0D then [bslash, CHR ''r'']
      else if c = CHR 0x09 then [bslash, CHR ''t'']
      else if byte c < 32 \<or> c = CHR ''<'' \<or> c = CHR ''>'' \<or> c = CHR ''&''
      then [bslash, CHR ''u'', CHR ''0'', CHR ''0'', hex_digit (byte c div 16), hex_digit (byte c mod 16)]
      else [c])"

text \<open>
  \<open>appendString\<close> with HTML escapes: bytes that are not valid UTF-8 become \<open>\\ufffd\<close>, and the
  line separators U+2028 and U+2029 are escaped.
\<close>

fun json_esc :: "string \<Rightarrow> string" where
  "json_esc [] = []"
| "json_esc (c # cs) =
     (case rune_at (c # cs) of
        (None, _) \<Rightarrow> bslash # ''ufffd'' @ json_esc cs
      | (Some r, w) \<Rightarrow>
          (if w = 1 then json_esc1 c
           else if r = 8232 then bslash # ''u2028''
           else if r = 8233 then bslash # ''u2029''
           else take w (c # cs)) @ json_esc (drop (w - 1) cs))"

definition json_string :: "string \<Rightarrow> string" where
  "json_string s = dquote # json_esc s @ [dquote]"


section \<open>The fuel of the parser is enough\<close>

lemma skip_ws_length: "skip_ws s = c # cs \<Longrightarrow> length cs < length s"
  by (metis Suc_le_lessD length_Cons length_dropWhile_le skip_ws_def)

lemma scan_str_length: "scan_str s = Some (b, r) \<Longrightarrow> length r < length s"
proof (induction s arbitrary: b r rule: scan_str.induct)
  case (2 c cs)
  then show ?case
    by (fastforce split: if_splits list.splits)
qed simp

lemma digits_length: "digits s = Some (d, r) \<Longrightarrow> length r < length s"
  by (auto simp: digits_def split: if_splits)
     (metis append_Nil length_append length_greater_0_conv less_add_same_cancel2 takeWhile_dropWhile_id)

lemma scan_int_length: "scan_int s = Some (i, r) \<Longrightarrow> length r < length s"
  by (auto simp: scan_int_def split: list.splits if_splits dest: digits_length)

lemma scan_frac_length: "scan_frac s = Some (i, r) \<Longrightarrow> length r \<le> length s"
  by (auto simp: scan_frac_def split: list.splits if_splits dest: digits_length)

lemma scan_exp_length: "scan_exp s = Some (i, r) \<Longrightarrow> length r \<le> length s"
  by (auto simp: scan_exp_def split: list.splits if_splits dest: digits_length)

lemma scan_num_length: "scan_num s = Some (t, r) \<Longrightarrow> length r < length s"
  by (auto simp: scan_num_def split: option.splits list.splits if_splits
       dest!: scan_int_length scan_frac_length scan_exp_length)

lemmas json_lengths = skip_ws_length scan_str_length scan_num_length

lemma jval_length:
  "jval n d s = Some (v, r) \<Longrightarrow> length r < length s"
  "jmembers n d s = Some (ms, r) \<Longrightarrow> length r < length s"
  "jelems n d s = Some (vs, r) \<Longrightarrow> length r < length s"
proof (induction n d s and n d s and n d s arbitrary: v r and ms r and vs r
    rule: jval_jmembers_jelems.induct)
  case (2 n d s)
  then show ?case
    by (fastforce split: list.splits if_splits dest: json_lengths)
next
  case (4 n d s)
  then show ?case
    by (fastforce split: list.splits if_splits option.splits dest: json_lengths)
next
  case (6 n d s)
  then show ?case
    by (fastforce split: list.splits if_splits option.splits dest: json_lengths)
qed simp_all

definition fuel_irrelevant :: "nat \<Rightarrow> bool" where
  "fuel_irrelevant n \<longleftrightarrow>
     (\<forall>d s m x. jval n d s = Some x \<longrightarrow> 2 * length s \<le> m \<longrightarrow> jval m d s = Some x) \<and>
     (\<forall>d s m y. jmembers n d s = Some y \<longrightarrow> 2 * length s + 1 \<le> m \<longrightarrow> jmembers m d s = Some y) \<and>
     (\<forall>d s m z. jelems n d s = Some z \<longrightarrow> 2 * length s + 1 \<le> m \<longrightarrow> jelems m d s = Some z)"

lemma fuel_irrelevantD:
  assumes "fuel_irrelevant n"
  shows "jval n d s = Some x \<Longrightarrow> 2 * length s \<le> m \<Longrightarrow> jval m d s = Some x"
    and "jmembers n d s = Some y \<Longrightarrow> 2 * length s + 1 \<le> m \<Longrightarrow> jmembers m d s = Some y"
    and "jelems n d s = Some z \<Longrightarrow> 2 * length s + 1 \<le> m \<Longrightarrow> jelems m d s = Some z"
  using assms unfolding fuel_irrelevant_def by blast+

lemma jval_Suc_enough:
  assumes IH: "fuel_irrelevant n" and j: "jval (Suc n) d s = Some x" and m: "2 * length s \<le> m"
  shows "jval m d s = Some x"
proof -
  obtain c cs where ws: "skip_ws s = c # cs" using j by (auto split: list.splits)
  obtain k where k: "m = Suc k" "2 * length cs + 1 \<le> k"
    using m skip_ws_length [OF ws] by (cases m) auto
  have "jmembers n (Suc d) cs = Some y \<Longrightarrow> jmembers k (Suc d) cs = Some y" for y
    using fuel_irrelevantD(2) [OF IH] k by blast
  moreover have "jelems n (Suc d) cs = Some z \<Longrightarrow> jelems k (Suc d) cs = Some z" for z
    using fuel_irrelevantD(3) [OF IH] k by blast
  ultimately show ?thesis
    using j ws k(1) by (simp split: list.splits if_splits) auto
qed

lemma jmembers_Suc_enough:
  assumes IH: "fuel_irrelevant n" and j: "jmembers (Suc n) d s = Some y" and m: "2 * length s + 1 \<le> m"
  shows "jmembers m d s = Some y"
proof -
  obtain k where k: "m = Suc k" "2 * length s \<le> k" using m by (cases m) auto
  obtain s1 b s2 s3 v s4 e s5 where
    p: "skip_ws s = dquote # s1" "scan_str s1 = Some (b, s2)" "skip_ws s2 = CHR '':'' # s3"
      "jval n d s3 = Some (v, s4)" "skip_ws s4 = e # s5"
    using j by (auto split: list.splits if_splits option.splits)
  have l: "length s3 < length s" "length s5 < length s"
    using json_lengths(1) [OF p(1)] json_lengths(2) [OF p(2)] json_lengths(1) [OF p(3)]
      jval_length(1) [OF p(4)] json_lengths(1) [OF p(5)] by linarith+
  have v: "jval k d s3 = Some (v, s4)"
    by (rule fuel_irrelevantD(1) [OF IH p(4)]) (use k l in linarith)
  have ms: "jmembers n d s5 = Some u \<Longrightarrow> jmembers k d s5 = Some u" for u
    by (erule fuel_irrelevantD(2) [OF IH]) (use k l in linarith)
  show ?thesis
    using j p v ms k(1) by (auto split: if_splits)
qed

lemma jelems_Suc_enough:
  assumes IH: "fuel_irrelevant n" and j: "jelems (Suc n) d s = Some z" and m: "2 * length s + 1 \<le> m"
  shows "jelems m d s = Some z"
proof -
  obtain k where k: "m = Suc k" "2 * length s \<le> k" using m by (cases m) auto
  obtain v s1 e s2 where p: "jval n d s = Some (v, s1)" "skip_ws s1 = e # s2"
    using j by (auto split: list.splits if_splits option.splits)
  have l: "length s2 < length s"
    using jval_length(1) [OF p(1)] json_lengths(1) [OF p(2)] by linarith
  have v: "jval k d s = Some (v, s1)"
    by (rule fuel_irrelevantD(1) [OF IH p(1) k(2)])
  have es: "jelems n d s2 = Some u \<Longrightarrow> jelems k d s2 = Some u" for u
    by (erule fuel_irrelevantD(3) [OF IH]) (use k l in linarith)
  show ?thesis
    using j p v es k(1) by (auto split: if_splits)
qed

lemma fuel_irrelevant: "fuel_irrelevant n"
proof (induction n)
  case 0
  show ?case by (simp add: fuel_irrelevant_def)
next
  case (Suc n)
  then show ?case
    unfolding fuel_irrelevant_def [of "Suc n"]
    by (blast intro: jval_Suc_enough jmembers_Suc_enough jelems_Suc_enough)
qed

lemmas jval_enough = fuel_irrelevantD [OF fuel_irrelevant]

text \<open>
  So the bound of \<open>parse_json\<close> loses nothing: whatever any bound parses, it parses.
\<close>

lemma parse_json_complete:
  "jval n 0 s = Some (v, r) \<Longrightarrow> skip_ws r = [] \<Longrightarrow> parse_json s = Some v"
  using jval_enough(1) [of n 0 s "(v, r)" "2 * length s + 1"]
  by (simp add: parse_json_def del: jval.simps)

section \<open>Strings survive encoding\<close>

lemma json_esc_ascii: "byte c < 128 \<Longrightarrow> json_esc (c # cs) = json_esc1 c @ json_esc cs"
  by (simp add: rune_at_ascii)

lemma hex_val_digit: "n < 16 \<Longrightarrow> hex_val (hex_digit n) = Some n"
proof -
  have "\<forall>n \<in> set [0..<16]. hex_val (hex_digit n) = Some n" by code_simp
  then show "n < 16 \<Longrightarrow> ?thesis" by simp
qed

lemma hex4_byte:
  "byte c < 128 \<Longrightarrow>
   hex4 (CHR ''0'' # CHR ''0'' # hex_digit (byte c div 16) # hex_digit (byte c mod 16) # t) = Some (byte c)"
proof -
  assume "byte c < 128"
  then have "byte c div 16 < 16" by (simp add: less_mult_imp_div_less)
  moreover have "hex_val (CHR ''0'') = Some 0" by code_simp
  ultimately show ?thesis
    by (simp add: hex4_def hex_val_digit)
qed

lemma scan_str_esc1:
  "byte c < 128 \<Longrightarrow>
   scan_str (json_esc1 c @ t) = map_option (\<lambda>(b, r). (json_esc1 c @ b, r)) (scan_str t)"
  by (auto simp: json_esc1_def hex4_byte)

lemma unquote_esc1: "byte c < 128 \<Longrightarrow> unquote (json_esc1 c @ t) = c # unquote t"
  by (auto simp: json_esc1_def hex4_byte unescape1_def rune_at_ascii between_def utf8_enc_def)

lemma scan_str_esc: "ascii s \<Longrightarrow> scan_str (json_esc s @ dquote # r) = Some (json_esc s, r)"
  by (induction s) (auto simp: json_esc_ascii scan_str_esc1 simp del: json_esc.simps(2) scan_str.simps(2),
      simp)

lemma unquote_esc: "ascii s \<Longrightarrow> unquote (json_esc s) = s"
  by (induction s) (auto simp: json_esc_ascii unquote_esc1 simp del: json_esc.simps(2) unquote.simps(2))

end
