(* ===== verification/GoFmt.thy ===== *)
theory GoFmt
  imports GoJson
begin

text \<open>
  The formatting the program uses: decimal integers (\<open>%d\<close>), quoted strings (\<open>%q\<close>, that is
  \<open>strconv.Quote\<close>) and the encoding of maps, slices and strings by \<open>encoding/json\<close>.
\<close>

section \<open>Decimal integers\<close>

definition digit_char :: "nat \<Rightarrow> char" where
  "digit_char d = chr (48 + d)"

fun nat_str :: "nat \<Rightarrow> string" where
  "nat_str n = (if n < 10 then [digit_char n] else nat_str (n div 10) @ [digit_char (n mod 10)])"

declare nat_str.simps [simp del]

definition int_str :: "int \<Rightarrow> string" where
  "int_str i = (if i < 0 then CHR ''-'' # nat_str (nat (- i)) else nat_str (nat i))"

definition str_val :: "string \<Rightarrow> nat" where
  "str_val s = foldl (\<lambda>a c. a * 10 + (byte c - 48)) 0 s"

lemma byte_digit [simp]: "d < 10 \<Longrightarrow> byte (digit_char d) = 48 + d"
  by (simp add: digit_char_def)

lemma is_digit_char [simp]: "d < 10 \<Longrightarrow> is_digit (digit_char d)"
  by (simp add: is_digit_def between_def)

lemma nat_str_digits: "\<forall>c \<in> set (nat_str n). is_digit c"
proof (induction n rule: nat_str.induct)
  case (1 n)
  then show ?case by (subst nat_str.simps) auto
qed

lemma nat_str_not_Nil [simp]: "nat_str n \<noteq> []"
  by (subst nat_str.simps) simp

lemma digit_char_zero: "d < 10 \<Longrightarrow> digit_char d = CHR ''0'' \<longleftrightarrow> d = 0"
proof -
  assume d: "d < 10"
  have "byte (CHR ''0'') = 48" by (simp add: byte_def)
  then show ?thesis using byte_digit [OF d] byte_inject [of "digit_char d" "CHR ''0''"] by auto
qed

lemma nat_str_hd: "0 < n \<Longrightarrow> hd (nat_str n) \<noteq> CHR ''0''"
proof (induction n rule: nat_str.induct)
  case (1 n)
  show ?case
  proof (cases "n < 10")
    case True
    then show ?thesis using 1(2) by (subst nat_str.simps) (simp add: digit_char_zero)
  next
    case False
    then have "0 < n div 10" by (simp add: div_greater_zero_iff)
    then show ?thesis using 1(1) False by (subst nat_str.simps) simp
  qed
qed

text \<open>Reading the digits back gives the number, so the decimal text determines it.\<close>

lemma str_val_snoc: "str_val (s @ [c]) = str_val s * 10 + (byte c - 48)"
  by (simp add: str_val_def)

lemma str_val_nat_str [simp]: "str_val (nat_str n) = n"
proof (induction n rule: nat_str.induct)
  case (1 n)
  show ?case
  proof (cases "n < 10")
    case True
    then show ?thesis by (subst nat_str.simps) (simp add: str_val_def)
  next
    case False
    then have "nat_str n = nat_str (n div 10) @ [digit_char (n mod 10)]" by (subst nat_str.simps) simp
    then show ?thesis using 1 False by (simp add: str_val_snoc)
  qed
qed

interpretation decimal: codec nat_str "\<lambda>s. Some (str_val s)" "\<lambda>_. True"
  by unfold_locales simp

section \<open>Quoted strings\<close>

text \<open>
  \<open>strconv.Quote\<close>: which runes beyond ASCII are printable is a table of the standard library
  and a parameter.
\<close>

definition hex_n :: "nat \<Rightarrow> nat \<Rightarrow> string" where
  "hex_n k r = map (\<lambda>i. hex_digit (r div 16 ^ i mod 16)) (rev [0..<k])"

definition quote_ascii :: "char \<Rightarrow> string" where
  "quote_ascii c =
     (if c = dquote \<or> c = bslash then [bslash, c]
      else if between 32 (byte c) 126 then [c]
      else if byte c = 7 then [bslash, CHR ''a''] else if byte c = 8 then [bslash, CHR ''b'']
      else if byte c = 12 then [bslash, CHR ''f''] else if byte c = 10 then [bslash, CHR ''n'']
      else if byte c = 13 then [bslash, CHR ''r''] else if byte c = 9 then [bslash, CHR ''t'']
      else if byte c = 11 then [bslash, CHR ''v'']
      else bslash # CHR ''x'' # hex_n 2 (byte c))"

fun quote_body :: "(nat \<Rightarrow> bool) \<Rightarrow> string \<Rightarrow> string" where
  "quote_body IsPrint [] = []"
| "quote_body IsPrint (c # cs) =
     (case rune_at (c # cs) of
        (None, _) \<Rightarrow> bslash # CHR ''x'' # hex_n 2 (byte c) @ quote_body IsPrint cs
      | (Some r, w) \<Rightarrow>
          (if w = 1 then quote_ascii c
           else if IsPrint r then take w (c # cs)
           else if r < 65536 then bslash # CHR ''u'' # hex_n 4 r
           else bslash # CHR ''U'' # hex_n 8 r) @ quote_body IsPrint (drop (w - 1) cs))"

definition go_quote :: "(nat \<Rightarrow> bool) \<Rightarrow> string \<Rightarrow> string" where
  "go_quote IsPrint s = dquote # quote_body IsPrint s @ [dquote]"

text \<open>
  A reader of quoted strings as HTTP headers have them: a backslash escapes the next character.
\<close>

fun read_quoted :: "string \<Rightarrow> string option" where
  "read_quoted [] = None"
| "read_quoted (c # cs) =
     (if c = dquote then (if cs = [] then Some [] else None)
      else if c = bslash then
        (case cs of [] \<Rightarrow> None | d # ds \<Rightarrow> map_option ((#) d) (read_quoted ds))
      else map_option ((#) c) (read_quoted cs))"

definition unquote_header :: "string \<Rightarrow> string option" where
  "unquote_header s = (case s of [] \<Rightarrow> None | c # cs \<Rightarrow> if c = dquote then read_quoted cs else None)"

definition printable :: "string \<Rightarrow> bool" where
  "printable s = (\<forall>c \<in> set s. between 32 (byte c) 126)"

lemma printable_Cons [simp]: "printable (c # cs) \<longleftrightarrow> between 32 (byte c) 126 \<and> printable cs"
  by (simp add: printable_def)

lemma printable_append [simp]: "printable (a @ b) \<longleftrightarrow> printable a \<and> printable b"
  by (auto simp: printable_def)

lemma printable_Nil [simp]: "printable []"
  by (simp add: printable_def)

lemma quote_body_printable:
  "between 32 (byte c) 126 \<Longrightarrow> quote_body P (c # cs) = quote_ascii c @ quote_body P cs"
  by (simp add: rune_at_ascii between_def)

lemma read_quoted_body: "printable s \<Longrightarrow> read_quoted (quote_body P s @ [dquote]) = Some s"
proof (induction s)
  case (Cons c cs)
  then show ?case
    by (auto simp: quote_body_printable quote_ascii_def simp del: quote_body.simps(2))
qed simp

interpretation quoted: codec "go_quote P" unquote_header printable for P
  by unfold_locales (simp add: go_quote_def unquote_header_def read_quoted_body)

lemma go_quote_plain:
  "printable s \<Longrightarrow> dquote \<notin> set s \<Longrightarrow> bslash \<notin> set s \<Longrightarrow> go_quote P s = dquote # s @ [dquote]"
proof -
  have "quote_body P s = s" if "printable s" "dquote \<notin> set s" "bslash \<notin> set s"
    using that by (induction s) (auto simp: quote_body_printable quote_ascii_def simp del: quote_body.simps(2))
  then show "printable s \<Longrightarrow> dquote \<notin> set s \<Longrightarrow> bslash \<notin> set s \<Longrightarrow> ?thesis"
    by (simp add: go_quote_def)
qed

section \<open>Encoding JSON\<close>

fun jenc :: "json \<Rightarrow> string"
  and jenc_elems :: "json list \<Rightarrow> string"
  and jenc_members :: "(string \<times> json) list \<Rightarrow> string"
where
  "jenc JNull = ''null''"
| "jenc (JBool b) = (if b then ''true'' else ''false'')"
| "jenc (JNum t) = t"
| "jenc (JStr t) = json_string t"
| "jenc (JArr vs) = CHR 0x5B # jenc_elems vs @ [CHR 0x5D]"
| "jenc (JObj ms) = CHR 0x7B # jenc_members ms @ [CHR 0x7D]"
| "jenc_elems [] = []"
| "jenc_elems [v] = jenc v"
| "jenc_elems (v # w # vs) = jenc v @ CHR '','' # jenc_elems (w # vs)"
| "jenc_members [] = []"
| "jenc_members [(k, v)] = json_string k @ CHR '':'' # jenc v"
| "jenc_members ((k, v) # m # ms) = json_string k @ CHR '':'' # jenc v @ CHR '','' # jenc_members (m # ms)"

text \<open>\<open>json.Marshal\<close> of a map: its members in the order of their keys.\<close>

fun key_le :: "string \<Rightarrow> string \<Rightarrow> bool" where
  "key_le [] _ = True"
| "key_le (_ # _) [] = False"
| "key_le (a # as) (b # bs) = (byte a < byte b \<or> (a = b \<and> key_le as bs))"

fun insert_member :: "string \<times> json \<Rightarrow> (string \<times> json) list \<Rightarrow> (string \<times> json) list" where
  "insert_member m [] = [m]"
| "insert_member m (n # ns) = (if key_le (fst m) (fst n) then m # n # ns else n # insert_member m ns)"

definition json_map :: "(string \<times> json) list \<Rightarrow> json" where
  "json_map ms = JObj (foldr insert_member ms [])"

definition json_strs :: "string list \<Rightarrow> json" where
  "json_strs l = JArr (map JStr l)"

definition json_int :: "int \<Rightarrow> json" where
  "json_int i = JNum (int_str i)"

text \<open>\<open>json.NewEncoder(w).Encode\<close> ends the document with a newline.\<close>

definition encode_line :: "json \<Rightarrow> string" where
  "encode_line v = jenc v @ [CHR 0x0A]"

section \<open>Encoded values parse back\<close>

text \<open>Values whose strings are ASCII and whose numbers are natural decimals, with their depth.\<close>

fun plain :: "json \<Rightarrow> bool" and plain_members :: "(string \<times> json) list \<Rightarrow> bool" and plain_elems :: "json list \<Rightarrow> bool"
where
  "plain JNull = True"
| "plain (JBool b) = True"
| "plain (JNum t) = (\<exists>n. t = nat_str n)"
| "plain (JStr t) = ascii t"
| "plain (JArr vs) = plain_elems vs"
| "plain (JObj ms) = plain_members ms"
| "plain_members [] = True"
| "plain_members ((k, v) # ms) = (ascii k \<and> plain v \<and> plain_members ms)"
| "plain_elems [] = True"
| "plain_elems (v # vs) = (plain v \<and> plain_elems vs)"

fun nesting :: "json \<Rightarrow> nat" and nesting_members :: "(string \<times> json) list \<Rightarrow> nat" and nesting_elems :: "json list \<Rightarrow> nat"
where
  "nesting (JArr vs) = Suc (nesting_elems vs)"
| "nesting (JObj ms) = Suc (nesting_members ms)"
| "nesting v = 0"
| "nesting_members [] = 0"
| "nesting_members ((k, v) # ms) = max (nesting v) (nesting_members ms)"
| "nesting_elems [] = 0"
| "nesting_elems (v # vs) = max (nesting v) (nesting_elems vs)"

text \<open>What may follow a value: the end, a comma, a closing bracket or white space.\<close>

definition stops :: "string \<Rightarrow> bool" where
  "stops r = (r = [] \<or> hd r \<in> {CHR '','', CHR 0x5D, CHR 0x7D, CHR 0x0A})"

lemma stops_simps [simp]:
  "stops []" "stops (CHR '','' # r)" "stops (CHR 0x5D # r)" "stops (CHR 0x7D # r)" "stops (CHR 0x0A # r)"
  by (simp_all add: stops_def)

lemma skip_ws_solid: "\<not> is_ws c \<Longrightarrow> skip_ws (c # cs) = c # cs"
  by (simp add: skip_ws_def)

lemma digits_not_ws: "is_digit c \<Longrightarrow> \<not> is_ws c"
  by (auto simp: is_digit_def is_ws_def between_def byte_def)

lemma stops_not_digit: "stops r \<Longrightarrow> r = c # cs \<Longrightarrow> \<not> is_digit c"
  by (auto simp: stops_def is_digit_def between_def byte_def)

lemma digits_append: "s \<noteq> [] \<Longrightarrow> \<forall>c \<in> set s. is_digit c \<Longrightarrow> stops r \<Longrightarrow> digits (s @ r) = Some (s, r)"
proof -
  assume a: "s \<noteq> []" "\<forall>c \<in> set s. is_digit c" "stops r"
  have r: "takeWhile is_digit r = []" "dropWhile is_digit r = r"
    using a(3) stops_not_digit by (cases r; simp)+
  have "takeWhile is_digit (s @ r) = s" "dropWhile is_digit (s @ r) = r"
    using a(2) r by (simp_all add: takeWhile_append2 dropWhile_append2)
  then show ?thesis using a(1) by (simp add: digits_def)
qed

lemma scan_int_nat:
  assumes "stops r"
  shows "scan_int (nat_str n @ r) = Some (nat_str n, r)"
proof (cases "n = 0")
  case True
  then have "nat_str n = ''0''" using digit_char_zero [of 0] by (subst nat_str.simps) simp
  then show ?thesis by (simp add: scan_int_def)
next
  case False
  obtain c cs where c: "nat_str n = c # cs" by (cases "nat_str n") auto
  have "c \<noteq> CHR ''0''" using nat_str_hd [of n] False c by simp
  then show ?thesis
    using digits_append [OF nat_str_not_Nil nat_str_digits assms, of n] c by (simp add: scan_int_def)
qed

lemma scan_num_nat:
  assumes "stops r"
  shows "scan_num (nat_str n @ r) = Some (nat_str n, r)"
proof -
  obtain c cs where c: "nat_str n = c # cs" by (cases "nat_str n") auto
  have "is_digit c" using nat_str_digits [of n] c by simp
  then have "c \<noteq> CHR ''-''" by (auto simp: is_digit_def between_def byte_def)
  moreover have "scan_frac r = Some ([], r)" "scan_exp r = Some ([], r)"
    using assms by (auto simp: stops_def scan_frac_def scan_exp_def split: list.splits)
  ultimately show ?thesis
    using scan_int_nat [OF assms, of n] c by (simp add: scan_num_def)
qed

lemma json_string_parses:
  assumes "ascii k"
  shows "skip_ws (json_string k @ r) = dquote # json_esc k @ dquote # r"
    "scan_str (json_esc k @ dquote # r) = Some (json_esc k, r)" "unquote (json_esc k) = k"
  using assms by (simp_all add: json_string_def skip_ws_solid is_ws_def scan_str_esc unquote_esc)

lemma jval_string: "ascii t \<Longrightarrow> jval (Suc n) d (json_string t @ r) = Some (JStr t, r)"
  using json_string_parses(1,2) [of t r] json_string_parses(3) [of t] by simp

lemma jval_num:
  assumes "stops r"
  shows "jval (Suc n) d (nat_str k @ r) = Some (JNum (nat_str k), r)"
proof -
  obtain c cs where c: "nat_str k = c # cs" by (cases "nat_str k") auto
  have d: "is_digit c" using nat_str_digits [of k] c by simp
  then have "c \<notin> {CHR 0x7B, CHR 0x5B, dquote, CHR ''t'', CHR ''f'', CHR ''n''}"
    by (auto simp: is_digit_def between_def byte_def)
  then show ?thesis
    using scan_num_nat [OF assms, of k] c digits_not_ws [OF d]
    by (simp add: skip_ws_solid HasPrefix_def)
qed

text \<open>Parses with some fuel, and how parses of parts combine.\<close>

definition jv :: "nat \<Rightarrow> string \<Rightarrow> json \<Rightarrow> string \<Rightarrow> bool" where
  "jv d s v r = (\<exists>n. jval n d s = Some (v, r))"

definition jes :: "nat \<Rightarrow> string \<Rightarrow> json list \<Rightarrow> string \<Rightarrow> bool" where
  "jes d s vs r = (\<exists>n. jelems n d s = Some (vs, r))"

definition jms :: "nat \<Rightarrow> string \<Rightarrow> (string \<times> json) list \<Rightarrow> string \<Rightarrow> bool" where
  "jms d s ms r = (\<exists>n. jmembers n d s = Some (ms, r))"

lemma jes_one: "jv d s v (CHR 0x5D # r) \<Longrightarrow> jes d s [v] r"
proof -
  assume "jv d s v (CHR 0x5D # r)"
  then obtain n where "jval n d s = Some (v, CHR 0x5D # r)" by (auto simp: jv_def)
  then have "jelems (Suc n) d s = Some ([v], r)" by (simp add: skip_ws_solid is_ws_def)
  then show ?thesis unfolding jes_def by blast
qed

lemma jes_cons:
  assumes "jv d s v (CHR '','' # s2)" "jes d s2 vs r"
  shows "jes d s (v # vs) r"
proof -
  obtain n n' where n: "jval n d s = Some (v, CHR '','' # s2)" "jelems n' d s2 = Some (vs, r)"
    using assms by (auto simp: jv_def jes_def)
  let ?m = "2 * length s"
  have "length (CHR '','' # s2) < length s" by (rule jval_length(1) [OF n(1)])
  then have "jval ?m d s = Some (v, CHR '','' # s2)" "jelems ?m d s2 = Some (vs, r)"
    using jval_enough(1) [OF n(1), of ?m] jval_enough(3) [OF n(2), of ?m] by simp_all
  then have "jelems (Suc ?m) d s = Some (v # vs, r)" by (simp add: skip_ws_solid is_ws_def)
  then show ?thesis unfolding jes_def by blast
qed

lemma jms_one:
  assumes "ascii k" "jv d s v (CHR 0x7D # r)"
  shows "jms d (json_string k @ CHR '':'' # s) [(k, v)] r"
proof -
  obtain n where "jval n d s = Some (v, CHR 0x7D # r)" using assms(2) by (auto simp: jv_def)
  then have "jmembers (Suc n) d (json_string k @ CHR '':'' # s) = Some ([(k, v)], r)"
    using json_string_parses(1,2) [OF assms(1), of "CHR '':'' # s"] json_string_parses(3) [OF assms(1)]
    by (simp add: skip_ws_solid is_ws_def)
  then show ?thesis unfolding jms_def by blast
qed

lemma jms_cons:
  assumes "ascii k" "jv d s v (CHR '','' # s2)" "jms d s2 ms r"
  shows "jms d (json_string k @ CHR '':'' # s) ((k, v) # ms) r"
proof -
  obtain n n' where n: "jval n d s = Some (v, CHR '','' # s2)" "jmembers n' d s2 = Some (ms, r)"
    using assms(2,3) by (auto simp: jv_def jms_def)
  let ?m = "2 * length s"
  have "length (CHR '','' # s2) < length s" by (rule jval_length(1) [OF n(1)])
  then have "jval ?m d s = Some (v, CHR '','' # s2)" "jmembers ?m d s2 = Some (ms, r)"
    using jval_enough(1) [OF n(1), of ?m] jval_enough(2) [OF n(2), of ?m] by simp_all
  then have "jmembers (Suc ?m) d (json_string k @ CHR '':'' # s) = Some ((k, v) # ms, r)"
    using json_string_parses(1,2) [OF assms(1), of "CHR '':'' # s"] json_string_parses(3) [OF assms(1)]
    by (simp add: skip_ws_solid is_ws_def)
  then show ?thesis unfolding jms_def by blast
qed

lemma jv_arr:
  assumes "jes (Suc d) (c # cs) vs r" "d < 10000" "\<not> is_ws c" "c \<noteq> CHR 0x5D"
  shows "jv d (CHR 0x5B # c # cs) (JArr vs) r"
proof -
  obtain n where "jelems n (Suc d) (c # cs) = Some (vs, r)" using assms(1) by (auto simp: jes_def)
  then have "jval (Suc n) d (CHR 0x5B # c # cs) = Some (JArr vs, r)"
    using assms(2-4) by (simp add: skip_ws_solid is_ws_def)
  then show ?thesis unfolding jv_def by blast
qed

lemma jv_obj:
  assumes "jms (Suc d) (c # cs) ms r" "d < 10000" "\<not> is_ws c" "c \<noteq> CHR 0x7D"
  shows "jv d (CHR 0x7B # c # cs) (JObj ms) r"
proof -
  obtain n where "jmembers n (Suc d) (c # cs) = Some (ms, r)" using assms(1) by (auto simp: jms_def)
  then have "jval (Suc n) d (CHR 0x7B # c # cs) = Some (JObj ms, r)"
    using assms(2-4) by (simp add: skip_ws_solid is_ws_def)
  then show ?thesis unfolding jv_def by blast
qed

lemma jv_leaf: "jval (Suc 0) d s = Some (v, r) \<Longrightarrow> jv d s v r"
  unfolding jv_def by blast

text \<open>An encoded value starts with a character that neither is white space nor closes anything.\<close>

lemma jenc_start:
  "plain v \<Longrightarrow> \<exists>c cs. jenc v = c # cs \<and> \<not> is_ws c \<and> c \<noteq> CHR 0x5D"
proof (cases v)
  case (JNum t)
  assume "plain v"
  then obtain n where n: "t = nat_str n" using JNum by auto
  obtain c cs where c: "nat_str n = c # cs" by (cases "nat_str n") auto
  have "is_digit c" using nat_str_digits [of n] c by simp
  then have "\<not> is_ws c" "c \<noteq> CHR 0x5D" by (auto simp: digits_not_ws is_digit_def between_def byte_def)
  then show ?thesis using JNum n c by simp
qed (auto simp: is_ws_def json_string_def)

lemma jenc_parses:
  "plain v \<Longrightarrow> d + nesting v \<le> 10000 \<Longrightarrow> stops r \<Longrightarrow> jv d (jenc v @ r) v r"
  "plain_elems vs \<Longrightarrow> vs \<noteq> [] \<Longrightarrow> d + nesting_elems vs \<le> 10000 \<Longrightarrow>
     jes d (jenc_elems vs @ CHR 0x5D # r) vs r"
  "plain_members ms \<Longrightarrow> ms \<noteq> [] \<Longrightarrow> d + nesting_members ms \<le> 10000 \<Longrightarrow>
     jms d (jenc_members ms @ CHR 0x7D # r) ms r"
proof (induction v and vs and ms arbitrary: d r and d r and d r rule: jenc_jenc_elems_jenc_members.induct)
  case 1
  show ?case by (rule jv_leaf) (simp add: skip_ws_solid is_ws_def HasPrefix_def)
next
  case (2 b)
  show ?case by (rule jv_leaf) (cases b; simp add: skip_ws_solid is_ws_def HasPrefix_def)
next
  case (3 t)
  then show ?case using jval_num [of r 0 d] jv_leaf by fastforce
next
  case (4 t)
  then show ?case using jval_string [of t 0 d r] jv_leaf by simp
next
  case (5 vs)
  show ?case
  proof (cases vs)
    case Nil
    then show ?thesis using 5(3) by (intro jv_leaf) (simp add: skip_ws_solid is_ws_def)
  next
    case (Cons w ws)
    have p: "jes (Suc d) (jenc_elems vs @ CHR 0x5D # r) vs r" using 5 Cons by simp
    obtain c cs where c: "jenc w = c # cs" "\<not> is_ws c" "c \<noteq> CHR 0x5D"
      using jenc_start [of w] 5(2) Cons by auto
    obtain t where "jenc_elems vs @ CHR 0x5D # r = c # t" using Cons c(1) by (cases ws) simp_all
    then show ?thesis using jv_arr [of d c t vs r] p c 5(3) by simp
  qed
next
  case (6 ms)
  show ?case
  proof (cases ms)
    case Nil
    then show ?thesis using 6(3) by (intro jv_leaf) (simp add: skip_ws_solid is_ws_def)
  next
    case (Cons m ms')
    have p: "jms (Suc d) (jenc_members ms @ CHR 0x7D # r) ms r" using 6 Cons by simp
    obtain t where "jenc_members ms @ CHR 0x7D # r = dquote # t"
      using Cons by (cases m; cases ms') (simp_all add: json_string_def)
    then show ?thesis using jv_obj [of d dquote t ms r] p 6(3) by (simp add: is_ws_def)
  qed
next
  case (8 v)
  then show ?case by (intro jes_one) simp
next
  case (9 v w vs)
  have "jv d (jenc v @ CHR '','' # jenc_elems (w # vs) @ CHR 0x5D # r) v (CHR '','' # jenc_elems (w # vs) @ CHR 0x5D # r)"
    by (rule 9(1)) (use 9(3,5) in simp_all)
  moreover have "jes d (jenc_elems (w # vs) @ CHR 0x5D # r) (w # vs) r"
    by (rule 9(2)) (use 9(3,5) in simp_all)
  ultimately show ?case using jes_cons by simp
next
  case (11 k v)
  then show ?case using jms_one [of k d "jenc v @ CHR 0x7D # r" v r] by simp
next
  case (12 k v m ms)
  have "jv d (jenc v @ CHR '','' # jenc_members (m # ms) @ CHR 0x7D # r) v (CHR '','' # jenc_members (m # ms) @ CHR 0x7D # r)"
    by (rule 12(1)) (use 12(3,5) in \<open>cases m; simp\<close>)+
  moreover have "jms d (jenc_members (m # ms) @ CHR 0x7D # r) (m # ms) r"
    by (rule 12(2)) (use 12(3,5) in \<open>cases m; simp\<close>)+
  ultimately show ?case using jms_cons [of k] 12(3) by simp
qed simp_all

text \<open>So a document the program writes is read back as the value it encodes.\<close>

lemma parse_jenc:
  assumes "plain v" "nesting v \<le> 10000"
  shows "parse_json (jenc v) = Some v" "parse_json (encode_line v) = Some v"
proof -
  obtain n where "jval n 0 (jenc v) = Some (v, [])"
    using jenc_parses(1) [of v 0 "[]"] assms by (auto simp: jv_def)
  then show "parse_json (jenc v) = Some v" by (rule parse_json_complete) (simp add: skip_ws_def)
  obtain n where "jval n 0 (encode_line v) = Some (v, [CHR 0x0A])"
    using jenc_parses(1) [of v 0 "[CHR 0x0A]"] assms by (auto simp: jv_def encode_line_def)
  then show "parse_json (encode_line v) = Some v"
    by (rule parse_json_complete) (simp add: skip_ws_def is_ws_def)
qed

interpretation json_doc: codec jenc parse_json "\<lambda>v. plain v \<and> nesting v \<le> 10000"
  by unfold_locales (rule parse_jenc(1), simp_all)

end
