(* ===== verification/GoHttp.thy ===== *)
theory GoHttp
  imports GoFmt
begin

text \<open>
  What the program uses of \<open>net/http\<close>: requests by the parts it reads, headers under their
  canonical names, and a response writer that takes its headers when the status is written.
\<close>

section \<open>Headers\<close>

text \<open>\<open>textproto.CanonicalMIMEHeaderKey\<close>: names with a byte that is no token byte stay as they are.\<close>

definition is_lower :: "char \<Rightarrow> bool" where "is_lower c = between 97 (byte c) 122"
definition is_upper :: "char \<Rightarrow> bool" where "is_upper c = between 65 (byte c) 90"

definition token_byte :: "char \<Rightarrow> bool" where
  "token_byte c = (is_lower c \<or> is_upper c \<or> is_digit c \<or> c \<in> set ''!#$%&*+-.^_`|~'' \<or> byte c = 39)"

fun canonical :: "bool \<Rightarrow> string \<Rightarrow> string" where
  "canonical up [] = []"
| "canonical up (c # cs) =
     (if up \<and> is_lower c then chr (byte c - 32)
      else if \<not> up \<and> is_upper c then chr (byte c + 32) else c) # canonical (c = CHR ''-'') cs"

definition CanonicalHeaderKey :: "string \<Rightarrow> string" where
  "CanonicalHeaderKey k = (if list_all token_byte k then canonical True k else k)"

type_synonym header = "(string, string) fmap"

definition Get :: "header \<Rightarrow> string \<Rightarrow> string" where
  "Get h k = (case fmlookup h (CanonicalHeaderKey k) of Some v \<Rightarrow> v | None \<Rightarrow> [])"

definition Set :: "string \<Rightarrow> string \<Rightarrow> header \<Rightarrow> header" where
  "Set k v h = fmupd (CanonicalHeaderKey k) v h"

definition Del :: "string \<Rightarrow> header \<Rightarrow> header" where
  "Del k h = fmdrop (CanonicalHeaderKey k) h"

lemma Get_Set: "Get (Set k v h) j = (if CanonicalHeaderKey j = CanonicalHeaderKey k then v else Get h j)"
  by (simp add: Get_def Set_def)

section \<open>Requests and response writers\<close>

record http_request =
  Path :: string
  Authorization :: string
  Session :: string
  Rest :: string

text \<open>A writer: the header map, what was sent of it with the status, and the body so far.\<close>

record writer =
  w_header :: header
  w_sent :: "(nat \<times> header) option"
  w_body :: string

definition new_writer :: writer where
  "new_writer = \<lparr>w_header = fmempty, w_sent = None, w_body = []\<rparr>"

text \<open>What a handler does to its writer.\<close>

datatype wop =
    HeaderSet string string
  | WriteHeader nat
  | Write string
  | Flush

definition write_header :: "nat \<Rightarrow> writer \<Rightarrow> writer" where
  "write_header code w = (case w_sent w of None \<Rightarrow> w\<lparr>w_sent := Some (code, w_header w)\<rparr> | Some _ \<Rightarrow> w)"

fun wstep :: "wop \<Rightarrow> writer \<Rightarrow> writer" where
  "wstep (HeaderSet k v) w = w\<lparr>w_header := Set k v (w_header w)\<rparr>"
| "wstep (WriteHeader code) w = write_header code w"
| "wstep (Write b) w = (let w1 = write_header 200 w in w1\<lparr>w_body := w_body w1 @ b\<rparr>)"
| "wstep Flush w = write_header 200 w"

definition wrun :: "wop list \<Rightarrow> writer \<Rightarrow> writer" where
  "wrun ops w = fold wstep ops w"

lemma wrun_simps [simp]: "wrun [] w = w" "wrun (x # xs) w = wrun xs (wstep x w)"
  by (simp_all add: wrun_def)

lemma wrun_append: "wrun (xs @ ys) w = wrun ys (wrun xs w)"
  by (simp add: wrun_def)

text \<open>\<open>http.Error\<close>.\<close>

definition http_error :: "string \<Rightarrow> nat \<Rightarrow> writer \<Rightarrow> writer" where
  "http_error msg code w =
     (let h = Set ''X-Content-Type-Options'' ''nosniff''
                (Set ''Content-Type'' ''text/plain; charset=utf-8'' (Del ''Content-Length'' (w_header w)));
          w1 = write_header code (w\<lparr>w_header := h\<rparr>)
      in w1\<lparr>w_body := w_body w1 @ msg @ [CHR 0x0A]\<rparr>)"

text \<open>What the client sees once the handler returns.\<close>

definition status :: "writer \<Rightarrow> nat" where
  "status w = (case w_sent w of Some (c, _) \<Rightarrow> c | None \<Rightarrow> 200)"

definition sent_header :: "writer \<Rightarrow> string \<Rightarrow> string" where
  "sent_header w k = Get (case w_sent w of Some (_, h) \<Rightarrow> h | None \<Rightarrow> w_header w) k"

end
