(* ===== verification/OAuth.thy ===== *)
theory OAuth
  imports Config GoHttp
begin

text \<open>
  \<open>oauth.go\<close>: the resource metadata and the 401 challenge of public mode.
\<close>

definition wellKnownPath :: string where
  "wellKnownPath = ''/.well-known/oauth-protected-resource''"

definition metadata :: "config \<Rightarrow> json" where
  "metadata c = json_map
     [(''resource'', JStr (PublicURL c)),
      (''authorization_servers'', json_strs [AuthIssuer c]),
      (''bearer_methods_supported'', json_strs [''header''])]"

definition serveMetadata :: "config \<Rightarrow> writer \<Rightarrow> writer" where
  "serveMetadata c w = wrun [HeaderSet ''Content-Type'' ''application/json'', Write (encode_line (metadata c))] w"

definition challenge :: "(nat \<Rightarrow> bool) \<Rightarrow> config \<Rightarrow> string \<Rightarrow> string" where
  "challenge P c errCode =
     ''Bearer resource_metadata='' @ go_quote P (PublicURL c @ wellKnownPath) @
     (if errCode \<noteq> [] then '', error='' @ go_quote P errCode else [])"

definition unauthorized :: "(nat \<Rightarrow> bool) \<Rightarrow> config \<Rightarrow> string \<Rightarrow> writer \<Rightarrow> writer" where
  "unauthorized P c errCode w =
     http_error ''unauthorized'' 401 (wstep (HeaderSet ''WWW-Authenticate'' (challenge P c errCode)) w)"

section \<open>What the client reads\<close>

lemma metadata_members:
  "metadata c = JObj [(''authorization_servers'', JArr [JStr (AuthIssuer c)]),
     (''bearer_methods_supported'', JArr [JStr ''header'']), (''resource'', JStr (PublicURL c))]"
proof -
  have k: "key_le ''bearer_methods_supported'' ''resource''" "key_le ''authorization_servers'' ''bearer_methods_supported''"
    "\<not> key_le ''resource'' ''authorization_servers''" "\<not> key_le ''resource'' ''bearer_methods_supported''"
    by code_simp+
  show ?thesis by (simp only: metadata_def json_map_def json_strs_def foldr.simps o_def id_def insert_member.simps
        fst_conv k if_True if_False list.map)
qed

lemma metadata_parses:
  assumes "ascii (PublicURL c)" "ascii (AuthIssuer c)"
  shows "parse_json (encode_line (metadata c)) = Some (metadata c)"
proof -
  have k: "ascii ''authorization_servers''" "ascii ''bearer_methods_supported''" "ascii ''resource''" "ascii ''header''"
    by code_simp+
  show ?thesis
    unfolding metadata_members by (rule parse_jenc(2)) (simp_all add: assms k del: ascii_simps)
qed

lemma header_names:
  "CanonicalHeaderKey ''WWW-Authenticate'' = ''Www-Authenticate''"
  "CanonicalHeaderKey ''Content-Type'' = ''Content-Type''"
  "CanonicalHeaderKey ''Content-Length'' = ''Content-Length''"
  "CanonicalHeaderKey ''X-Content-Type-Options'' = ''X-Content-Type-Options''"
  "CanonicalHeaderKey ''Mcp-Session-Id'' = ''Mcp-Session-Id''"
  by code_simp+

lemma unauthorized_result:
  assumes "w_sent w = None"
  shows "status (unauthorized P c code w) = 401"
    "sent_header (unauthorized P c code w) ''WWW-Authenticate'' = challenge P c code"
    "w_body (unauthorized P c code w) = w_body w @ ''unauthorized'' @ [CHR 0x0A]"
  using assms
  by (simp_all add: unauthorized_def http_error_def write_header_def status_def sent_header_def Let_def
      Get_def Set_def Del_def header_names)

lemma printable_wellKnown: "printable wellKnownPath" "dquote \<notin> set wellKnownPath" "bslash \<notin> set wellKnownPath"
  by code_simp+

end
