(* ===== verification/Edge.thy ===== *)
theory Edge
  imports Config GoJson
begin

text \<open>
  The admission edge as the node sees it: what the NATS server, the identity plane and the
  realm answer to one admission attempt. They are other programs, so their answers are
  functions of a record that every definition of the pool takes as an argument. The first
  argument of each answer is the number of the attempt: the same bearer may be accepted
  once and refused later. Errors of the edge are their texts; the node wraps them.
\<close>

type_synonym bearer = string
type_synonym principal = "string \<times> string"   \<comment> \<open>persona and account\<close>

datatype node_error =
    SessionPrincipalMismatch
  | AdmissionRefused string
  | UserInfoFailed string
  | UserInfoDecode
  | NoPrincipalGrant string "string list"
  | PersonaSignerFailed string string
  | RealmClientFailed string
  | RealmNotProvisioned string string

record edge =
  Segment :: string                                          \<comment> \<open>\<open>siclient.Segment\<close>\<close>
  natsConnect :: "nat \<Rightarrow> bearer \<Rightarrow> string option"               \<comment> \<open>\<open>nats.Connect\<close>: its error, if any\<close>
  userInfo :: "nat \<Rightarrow> bearer \<Rightarrow> string + string"               \<comment> \<open>\<open>$SYS.REQ.USER.INFO\<close>: error or payload\<close>
  personaSigner :: "nat \<Rightarrow> string \<Rightarrow> string \<Rightarrow> string option"    \<comment> \<open>\<open>PersonaSigner\<close> for account, persona\<close>
  realmNewClient :: "nat \<Rightarrow> string \<Rightarrow> string \<Rightarrow> string option"   \<comment> \<open>\<open>realm.NewClient\<close> for realm, persona\<close>
  realmStream :: "nat \<Rightarrow> string \<Rightarrow> string option"               \<comment> \<open>the realm's stream lookup\<close>
  ensureSigningKey :: "nat \<Rightarrow> string \<Rightarrow> string option"          \<comment> \<open>\<open>registry.EnsureSigningKey\<close>\<close>

end
