(* ===== verification/Principal.thy ===== *)
theory Principal
  imports Edge
begin

text \<open>
  \<open>principal.go\<close>: the principal of a connection, read from the server's user-info reply. The
  reply lists the subjects the connection may publish to; the grant
  \<open><root>.<account>.<persona>.sign.record\<close> names the principal.
\<close>

definition signRecordSuffix :: string where
  "signRecordSuffix = ''.sign.record''"

text \<open>
  The loop of \<open>principalFromAllows\<close>. The slice between prefix and suffix panics where they
  overlap in the subject, which the two tests before it do not exclude.
\<close>

fun principalFromAllows :: "string list \<Rightarrow> string \<Rightarrow> (node_error, principal option) res" where
  "principalFromAllows [] rt = Ok None"
| "principalFromAllows (subj # rest) rt =
     (let prefix = rt @ ''.'' in
      if \<not> HasPrefix subj prefix \<or> \<not> HasSuffix subj signRecordSuffix
      then principalFromAllows rest rt
      else (case slice subj (length prefix) (length subj - length signRecordSuffix) of
              None \<Rightarrow> Panic
            | Some middle \<Rightarrow>
                (case Split middle (CHR ''.'') of
                   [a, p] \<Rightarrow> if a = [] \<or> p = [] then principalFromAllows rest rt
                             else Ok (Some (p, a))
                 | _ \<Rightarrow> principalFromAllows rest rt)))"

text \<open>The reply's JSON: \<open>data.permissions.publish.allow\<close>, a list of strings.\<close>

definition user_info_allows :: "string \<Rightarrow> string list option" where
  "user_info_allows payload =
     (case parse_json payload of
        None \<Rightarrow> None
      | Some v \<Rightarrow>
         (case dec_struct (\<lambda>k1 v1 d. if field_matches ''data'' k1 then
                 dec_struct (\<lambda>k2 v2 d. if field_matches ''permissions'' k2 then
                   dec_struct (\<lambda>k3 v3 d. if field_matches ''publish'' k3 then
                     dec_struct (\<lambda>k4 v4 d. if field_matches ''allow'' k4 then dec_strings v4 d else (d, True)) v3 d
                   else (d, True)) v2 d
                 else (d, True)) v1 d
               else (d, True)) v [] of
            (allows, True) \<Rightarrow> Some allows
          | (_, False) \<Rightarrow> None))"

definition principalOf :: "edge \<Rightarrow> nat \<Rightarrow> bearer \<Rightarrow> string \<Rightarrow> (node_error, principal) res" where
  "principalOf E t b rt =
     (case userInfo E t b of
        Inl e \<Rightarrow> Err (UserInfoFailed e)
      | Inr payload \<Rightarrow>
         (case user_info_allows payload of
            None \<Rightarrow> Err UserInfoDecode
          | Some allows \<Rightarrow>
             (case principalFromAllows allows rt of
                Ok (Some pr) \<Rightarrow> Ok pr
              | Ok None \<Rightarrow> Err (NoPrincipalGrant rt allows)
              | Err e \<Rightarrow> Err e
              | Panic \<Rightarrow> Panic)))"

section \<open>The grant subject\<close>

definition grant_subject :: "string \<Rightarrow> principal \<Rightarrow> string" where
  "grant_subject rt pr = rt @ ''.'' @ snd pr @ ''.'' @ fst pr @ signRecordSuffix"

definition subject_token :: "string \<Rightarrow> bool" where
  "subject_token t = (t \<noteq> [] \<and> CHR ''.'' \<notin> set t)"

definition valid_principal :: "principal \<Rightarrow> bool" where
  "valid_principal pr = (subject_token (fst pr) \<and> subject_token (snd pr))"

text \<open>The subjects on which the slice of \<open>principalFromAllows\<close> is out of range.\<close>

definition overlapping_subject :: "string \<Rightarrow> string \<Rightarrow> bool" where
  "overlapping_subject rt s =
     (HasPrefix s (rt @ ''.'') \<and> HasSuffix s signRecordSuffix \<and>
      length s < length rt + 1 + length signRecordSuffix)"

lemma subject_middle:
  assumes "HasPrefix s (rt @ ''.'')" "HasSuffix s signRecordSuffix" "\<not> overlapping_subject rt s"
  obtains m where "s = rt @ ''.'' @ m @ signRecordSuffix"
    and "slice s (length (rt @ ''.'')) (length s - length signRecordSuffix) = Some m"
proof -
  from assms(1) obtain r where r: "s = rt @ ''.'' @ r" by (auto simp: HasPrefix_iff)
  from assms(2) obtain q where q: "s = q @ signRecordSuffix" by (auto simp: HasSuffix_iff)
  have "length (rt @ ''.'') \<le> length q"
    using assms q by (simp add: overlapping_subject_def)
  then obtain m where "q = (rt @ ''.'') @ m"
    using r q by (metis append_assoc append_eq_append_conv_if append_eq_conv_conj)
  then have s: "s = rt @ ''.'' @ m @ signRecordSuffix" using q by simp
  then have "slice s (length (rt @ ''.'')) (length s - length signRecordSuffix) = Some m"
    using slice_middle [of "rt @ ''.''" m signRecordSuffix] by simp
  with s that show thesis by blast
qed

lemma Split_two: "Split m c = [a, p] \<longleftrightarrow> m = a @ c # p \<and> c \<notin> set a \<and> c \<notin> set p"
proof
  assume sp: "Split m c = [a, p]"
  then have "m = Join [a, p] c" by (metis Join_Split)
  moreover have "c \<notin> set a" "c \<notin> set p" using sp Split_parts_no_sep [of _ m c] by auto
  ultimately show "m = a @ c # p \<and> c \<notin> set a \<and> c \<notin> set p" by simp
qed (simp add: Split_append_sep Split_no_sep)

text \<open>One subject at a time: it panics, is skipped, or is the grant of a principal.\<close>

lemma principalFromAllows_Cons:
  "principalFromAllows (s # rest) rt =
     (if overlapping_subject rt s then Panic
      else if \<exists>pr. valid_principal pr \<and> s = grant_subject rt pr
      then Ok (Some (THE pr. valid_principal pr \<and> s = grant_subject rt pr))
      else principalFromAllows rest rt)"
  (is "?l = ?r")
proof (cases "HasPrefix s (rt @ ''.'') \<and> HasSuffix s signRecordSuffix")
  case False
  then have "\<not> overlapping_subject rt s" by (auto simp: overlapping_subject_def)
  moreover have "s \<noteq> grant_subject rt pr" for pr
    using False HasPrefix_append [of "rt @ ''.''"] HasSuffix_append [of _ signRecordSuffix]
    by (metis append.assoc grant_subject_def)
  ultimately show ?thesis using False by auto
next
  case True
  show ?thesis
  proof (cases "overlapping_subject rt s")
    case ov: True
    then have "slice s (length (rt @ ''.'')) (length s - length signRecordSuffix) = None"
      by (auto simp: overlapping_subject_def slice_def)
    with True ov show ?thesis by (simp add: Let_def)
  next
    case False
    with True obtain m where s: "s = rt @ ''.'' @ m @ signRecordSuffix"
      and sl: "slice s (length (rt @ ''.'')) (length s - length signRecordSuffix) = Some m"
      using subject_middle by blast
    have gr: "s = grant_subject rt pr \<longleftrightarrow> m = snd pr @ ''.'' @ fst pr" for pr
      using s by (simp add: grant_subject_def)
    show ?thesis
    proof (cases "\<exists>a p. Split m (CHR ''.'') = [a, p] \<and> a \<noteq> [] \<and> p \<noteq> []")
      case sp: True
      then obtain a p where ap: "Split m (CHR ''.'') = [a, p]" "a \<noteq> []" "p \<noteq> []" by blast
      have l: "?l = Ok (Some (p, a))"
        using True sl ap by (simp add: Let_def)
      have u: "valid_principal pr \<and> s = grant_subject rt pr \<longleftrightarrow> pr = (p, a)" for pr
        using ap gr [of pr] Split_two [of m "CHR ''.''" "snd pr" "fst pr"]
          Split_two [of m "CHR ''.''" a p]
        by (cases pr) (auto simp: valid_principal_def subject_token_def)
      show ?thesis using l u False by simp
    next
      case sp: False
      then have l: "?l = principalFromAllows rest rt"
        using True sl by (auto simp: Let_def split: list.splits)
      have "\<not> (valid_principal pr \<and> s = grant_subject rt pr)" for pr
        using sp gr [of pr] Split_two [of m "CHR ''.''" "snd pr" "fst pr"]
        by (auto simp: valid_principal_def subject_token_def)
      then show ?thesis using l False by auto
    qed
  qed
qed

text \<open>The grant subject is a codec for principals: distinct principals have distinct grants.\<close>

definition parse_grant :: "string \<Rightarrow> string \<Rightarrow> principal option" where
  "parse_grant rt s =
     (case principalFromAllows [s] rt of Ok (Some pr) \<Rightarrow> Some pr | _ \<Rightarrow> None)"

lemma grant_not_overlapping: "\<not> overlapping_subject rt (grant_subject rt pr)"
  by (simp add: overlapping_subject_def grant_subject_def)

lemma grant_subject_unique:
  assumes "valid_principal p" "valid_principal q" "grant_subject rt p = grant_subject rt q"
  shows "p = q"
proof -
  have "snd p @ CHR ''.'' # fst p = snd q @ CHR ''.'' # fst q"
    using assms(3) by (simp add: grant_subject_def)
  moreover have "Split (snd r @ CHR ''.'' # fst r) (CHR ''.'') = [snd r, fst r]"
    if "valid_principal r" for r
    using that by (simp add: Split_two valid_principal_def subject_token_def)
  ultimately have "[snd p, fst p] = [snd q, fst q]"
    using assms(1,2) by metis
  then show ?thesis by (simp add: prod_eq_iff)
qed

lemma the_grant:
  "valid_principal pr \<Longrightarrow> (THE q. valid_principal q \<and> grant_subject rt pr = grant_subject rt q) = pr"
  by (rule the_equality) (simp, metis grant_subject_unique)

lemma principalFromAllows_grant:
  "valid_principal pr \<Longrightarrow> principalFromAllows (grant_subject rt pr # rest) rt = Ok (Some pr)"
proof -
  assume v: "valid_principal pr"
  then have "\<exists>q. valid_principal q \<and> grant_subject rt pr = grant_subject rt q" by blast
  with v show ?thesis
    by (simp only: principalFromAllows_Cons grant_not_overlapping the_grant if_False if_True)
qed

lemma principalFromAllows_skip:
  "\<not> overlapping_subject rt s \<Longrightarrow> (\<And>pr. valid_principal pr \<Longrightarrow> s \<noteq> grant_subject rt pr) \<Longrightarrow>
   principalFromAllows (s # rest) rt = principalFromAllows rest rt"
  by (subst principalFromAllows_Cons) auto

lemma principalFromAllows_overlap:
  "overlapping_subject rt s \<Longrightarrow> principalFromAllows (s # rest) rt = Panic"
  by (subst principalFromAllows_Cons) simp

lemmas principalFromAllows_step =
  principalFromAllows_grant principalFromAllows_skip principalFromAllows_overlap

declare principalFromAllows.simps(2) [simp del]

interpretation grant: codec "grant_subject rt" "parse_grant rt" valid_principal for rt
  by unfold_locales (simp add: parse_grant_def principalFromAllows_grant)

lemma allows_cases:
  obtains (overlap) "overlapping_subject rt s"
  | (grant) pr where "valid_principal pr" "s = grant_subject rt pr"
  | (other) "\<not> overlapping_subject rt s" "\<And>pr. valid_principal pr \<Longrightarrow> s \<noteq> grant_subject rt pr"
  by blast

lemma principalFromAllows_sound:
  "principalFromAllows as rt = Ok (Some pr) \<Longrightarrow> valid_principal pr \<and> grant_subject rt pr \<in> set as"
proof (induction as)
  case (Cons s as)
  show ?case
    by (cases rule: allows_cases [of rt s]) (use Cons in \<open>auto simp: principalFromAllows_step\<close>)
qed simp

lemma principalFromAllows_not_Err: "principalFromAllows as rt \<noteq> Err e"
proof (induction as)
  case (Cons s as)
  show ?case
    by (cases rule: allows_cases [of rt s]) (use Cons in \<open>auto simp: principalFromAllows_step\<close>)
qed simp

lemma principalFromAllows_None_iff:
  "principalFromAllows as rt = Ok None \<longleftrightarrow>
     (\<forall>s \<in> set as. \<not> overlapping_subject rt s \<and> (\<forall>pr. valid_principal pr \<longrightarrow> s \<noteq> grant_subject rt pr))"
proof (induction as)
  case (Cons s as)
  show ?case
    by (cases rule: allows_cases [of rt s])
      (use Cons grant_not_overlapping in \<open>auto simp: principalFromAllows_step\<close>)
qed simp

lemma principalFromAllows_prefix:
  "principalFromAllows xs rt = Ok None \<Longrightarrow>
   principalFromAllows (xs @ ys) rt = principalFromAllows ys rt"
proof (induction xs)
  case (Cons s as)
  show ?case
    by (cases rule: allows_cases [of rt s]) (use Cons in \<open>auto simp: principalFromAllows_step\<close>)
qed simp

lemma principalFromAllows_Panic_iff:
  "principalFromAllows as rt = Panic \<longleftrightarrow>
     (\<exists>xs s ys. as = xs @ s # ys \<and> overlapping_subject rt s \<and> principalFromAllows xs rt = Ok None)"
proof (induction as)
  case (Cons s as)
  have split: "(\<exists>xs u ys. s # as = xs @ u # ys \<and> Q xs u) \<longleftrightarrow>
      Q [] s \<or> (\<exists>xs u ys. as = xs @ u # ys \<and> Q (s # xs) u)" for Q
    by (metis (no_types, opaque_lifting) append_Cons append_Nil list.inject neq_Nil_conv)
  show ?case
    unfolding split
    by (cases rule: allows_cases [of rt s])
      (use Cons grant_not_overlapping in \<open>auto simp: principalFromAllows_step\<close>)
qed simp

text \<open>
  Outside every template that follows the documented scope no subject overlaps; the one a
  scope could carry by mistake is the grant without account and persona.
\<close>

lemma bare_sign_record_overlaps: "overlapping_subject rt (rt @ signRecordSuffix)"
  by (auto simp: overlapping_subject_def signRecordSuffix_def HasPrefix_iff)

text \<open>A principal that \<open>principalOf\<close> returns is granted by the server's own reply.\<close>

lemma principalOf_Ok:
  "principalOf E t b rt = Ok pr \<longleftrightarrow>
     (\<exists>payload allows. userInfo E t b = Inr payload \<and> user_info_allows payload = Some allows \<and>
        principalFromAllows allows rt = Ok (Some pr))"
  by (auto simp: principalOf_def split: sum.splits option.splits res.splits)

lemma principalOf_valid: "principalOf E t b rt = Ok pr \<Longrightarrow> valid_principal pr"
  by (auto simp: principalOf_Ok dest: principalFromAllows_sound)

lemma valid_principal_parts:
  "valid_principal pr \<Longrightarrow> fst pr \<noteq> [] \<and> snd pr \<noteq> []"
  by (simp add: valid_principal_def subject_token_def)

end
