(* ===== verification/GoBase64.thy ===== *)
theory GoBase64
  imports GoStrings
begin

text \<open>
  \<open>base64.RawURLEncoding\<close> of Go's standard library: the URL alphabet without padding. The
  decoder drops line breaks anywhere in the input, refuses every other byte outside the
  alphabet and a last group of one character, and ignores the unused low bits of the last
  group.
\<close>

definition b64_alphabet :: string where
  "b64_alphabet = ''ABCDEFGHIJKLMNOPQRSTUVWXYZabcdefghijklmnopqrstuvwxyz0123456789-_''"

definition b64_char :: "nat \<Rightarrow> char" where
  "b64_char n = b64_alphabet ! n"

definition b64_val :: "char \<Rightarrow> nat option" where
  "b64_val c = map_of (zip b64_alphabet [0..<64]) c"

fun b64_enc_bytes :: "nat list \<Rightarrow> nat list" where
  "b64_enc_bytes [] = []"
| "b64_enc_bytes [a] = [a div 4, a mod 4 * 16]"
| "b64_enc_bytes [a, b] = [a div 4, a mod 4 * 16 + b div 16, b mod 16 * 4]"
| "b64_enc_bytes (a # b # c # r) =
     a div 4 # (a mod 4 * 16 + b div 16) # (b mod 16 * 4 + c div 64) # c mod 64 # b64_enc_bytes r"

fun b64_dec_vals :: "nat list \<Rightarrow> nat list option" where
  "b64_dec_vals [] = Some []"
| "b64_dec_vals [v] = None"
| "b64_dec_vals [v, w] = Some [v * 4 + w div 16]"
| "b64_dec_vals [v, w, x] = Some [v * 4 + w div 16, w mod 16 * 16 + x div 4]"
| "b64_dec_vals (v # w # x # y # r) =
     map_option (\<lambda>t. (v * 4 + w div 16) # (w mod 16 * 16 + x div 4) # (x mod 4 * 64 + y) # t)
       (b64_dec_vals r)"

definition EncodeToString :: "string \<Rightarrow> string" where
  "EncodeToString s = map b64_char (b64_enc_bytes (map byte s))"

fun vals_of :: "string \<Rightarrow> nat list option" where
  "vals_of [] = Some []"
| "vals_of (c # cs) =
     (case (b64_val c, vals_of cs) of (Some v, Some vs) \<Rightarrow> Some (v # vs) | _ \<Rightarrow> None)"

definition DecodeString :: "string \<Rightarrow> string option" where
  "DecodeString s =
     (case vals_of (filter (\<lambda>c. c \<noteq> CHR 0x0A \<and> c \<noteq> CHR 0x0D) s) of
        None \<Rightarrow> None
      | Some vs \<Rightarrow> map_option (map chr) (b64_dec_vals vs))"

lemma b64_alphabet_length: "length b64_alphabet = 64"
  by (simp add: b64_alphabet_def)

lemma b64_alphabet_distinct: "distinct b64_alphabet"
  by (simp add: b64_alphabet_def)

lemma b64_val_char [simp]: "n < 64 \<Longrightarrow> b64_val (b64_char n) = Some n"
  by (simp add: b64_val_def b64_char_def map_of_zip_nth b64_alphabet_length b64_alphabet_distinct)

lemma b64_char_in: "n < 64 \<Longrightarrow> b64_char n \<in> set b64_alphabet"
  by (simp add: b64_char_def b64_alphabet_length)

lemma b64_enc_bytes_bound: "\<forall>a \<in> set as. a < 256 \<Longrightarrow> \<forall>v \<in> set (b64_enc_bytes as). v < 64"
  by (induction as rule: b64_enc_bytes.induct) auto

lemma split_div: "(y::nat) < m \<Longrightarrow> (x * m + y) div m = x"
  by simp

lemma split_mod: "(y::nat) < m \<Longrightarrow> (x * m + y) mod m = y"
  by simp

lemma div_bound: "(b::nat) < 256 \<Longrightarrow> b div 16 < 16 \<and> b div 64 < 4"
  by (simp add: less_mult_imp_div_less)

lemma b64_bits1: "(a::nat) div 4 * 4 + a mod 4 * 16 div 16 = a"
  by simp

lemma b64_bits2: "b < 256 \<Longrightarrow> (a::nat) div 4 * 4 + (a mod 4 * 16 + b div 16) div 16 = a"
  by (simp only: split_div div_bound) simp

lemma b64_bits3:
  "b < 256 \<Longrightarrow> c < 256 \<Longrightarrow>
   ((a::nat) mod 4 * 16 + b div 16) mod 16 * 16 + (b mod 16 * 4 + c div 64) div 4 = b"
  by (simp only: split_div split_mod div_bound) simp

lemma b64_bits3':
  "b < 256 \<Longrightarrow> ((a::nat) mod 4 * 16 + b div 16) mod 16 * 16 + b mod 16 * 4 div 4 = b"
  by (simp only: split_mod div_bound) simp

lemma b64_bits4: "c < 256 \<Longrightarrow> ((b::nat) mod 16 * 4 + c div 64) mod 4 * 64 + c mod 64 = c"
  by (simp only: split_mod div_bound) simp

lemma b64_dec_enc_bytes: "\<forall>a \<in> set as. a < 256 \<Longrightarrow> b64_dec_vals (b64_enc_bytes as) = Some as"
proof (induction as rule: b64_enc_bytes.induct)
  case (4 a b c r)
  then have "b < 256" "c < 256" "b64_dec_vals (b64_enc_bytes r) = Some r"
    by simp_all
  then show ?case
    by (simp only: b64_enc_bytes.simps b64_dec_vals.simps b64_bits2 b64_bits3 b64_bits4 option.map)
qed (simp_all only: b64_enc_bytes.simps b64_dec_vals.simps b64_bits1 b64_bits2 b64_bits3'
       list.set insert_iff ball_simps simp_thms)

lemma vals_of_chars: "\<forall>v \<in> set vs. v < 64 \<Longrightarrow> vals_of (map b64_char vs) = Some vs"
  by (induction vs) auto

lemma b64_no_break: "c \<in> set b64_alphabet \<Longrightarrow> c \<noteq> CHR 0x0A \<and> c \<noteq> CHR 0x0D \<and> c \<noteq> CHR ''.''"
  by (auto simp: b64_alphabet_def)

lemma EncodeToString_alphabet: "c \<in> set (EncodeToString s) \<Longrightarrow> c \<in> set b64_alphabet"
  using b64_enc_bytes_bound [of "map byte s"] by (auto simp: EncodeToString_def intro: b64_char_in)

lemma EncodeToString_no_dot: "CHR ''.'' \<notin> set (EncodeToString s)"
  using EncodeToString_alphabet b64_no_break by blast

lemma Decode_Encode: "DecodeString (EncodeToString s) = Some s"
proof -
  let ?vs = "b64_enc_bytes (map byte s)"
  have b: "\<forall>v \<in> set ?vs. v < 64"
    by (rule b64_enc_bytes_bound) auto
  have "filter (\<lambda>c. c \<noteq> CHR 0x0A \<and> c \<noteq> CHR 0x0D) (EncodeToString s) = EncodeToString s"
    using EncodeToString_alphabet b64_no_break by (intro filter_True) blast
  moreover have "b64_dec_vals ?vs = Some (map byte s)"
    by (rule b64_dec_enc_bytes) auto
  ultimately show ?thesis
    using b by (simp add: DecodeString_def vals_of_chars EncodeToString_def o_def)
qed

interpretation b64: codec EncodeToString DecodeString "\<lambda>_. True"
  by unfold_locales (rule Decode_Encode)

end
