(* ===== verification/Hint.thy ===== *)
theory Hint
  imports Edge GoBase64
begin

text \<open>
  \<open>bearerFrom\<close>, \<open>routeHint\<close> and \<open>hintClass\<close> of \<open>pool.go\<close>: the credential of a request, the
  unverified key it routes by, and what a log line may say about that key.
\<close>

definition bearerFrom :: "string \<Rightarrow> bearer" where
  "bearerFrom rHeader =
     (case CutPrefix rHeader ''Bearer '' of (rest, True) \<Rightarrow> rest | (_, False) \<Rightarrow> [])"

record claims =
  OID :: string
  Sub :: string
  Iss :: string

definition no_claims :: claims where
  "no_claims = \<lparr>OID = [], Sub = [], Iss = []\<rparr>"

text \<open>\<open>json.Unmarshal\<close> into the anonymous claims struct; \<open>None\<close> is an error.\<close>

definition unmarshal_claims :: "string \<Rightarrow> claims option" where
  "unmarshal_claims payload =
     (case parse_json payload of
        None \<Rightarrow> None
      | Some v \<Rightarrow>
         (case dec_struct (\<lambda>k w c.
                 if field_matches ''oid'' k then (case dec_string w (OID c) of (s, ok) \<Rightarrow> (c\<lparr>OID := s\<rparr>, ok))
                 else if field_matches ''sub'' k then (case dec_string w (Sub c) of (s, ok) \<Rightarrow> (c\<lparr>Sub := s\<rparr>, ok))
                 else if field_matches ''iss'' k then (case dec_string w (Iss c) of (s, ok) \<Rightarrow> (c\<lparr>Iss := s\<rparr>, ok))
                 else (c, True)) v no_claims of
            (c, True) \<Rightarrow> Some c
          | (_, False) \<Rightarrow> None))"

definition routeHint :: "bearer \<Rightarrow> string" where
  "routeHint bearer =
     (if \<not> HasPrefix bearer ''eyJ'' then ''tok:'' @ bearer
      else (let parts = Split bearer (CHR ''.'') in
        if length parts \<noteq> 3 then ''tok:'' @ bearer
        else (case DecodeString (parts ! 1) of
           None \<Rightarrow> ''tok:'' @ bearer
         | Some payload \<Rightarrow>
            (case unmarshal_claims payload of
               None \<Rightarrow> ''tok:'' @ bearer
             | Some c \<Rightarrow>
                 (let uid = (if OID c = [] then Sub c else OID c)
                  in ''oidc:'' @ Iss c @ '':'' @ uid)))))"

definition hintClass :: "string \<Rightarrow> string" where
  "hintClass hint =
     (if HasPrefix hint ''oidc:'' then ''oidc''
      else if HasPrefix hint ''pri:'' then ''principal''
      else ''opaque'')"

lemma bearerFrom_Bearer: "bearerFrom (''Bearer '' @ b) = b"
  by (simp add: bearerFrom_def CutPrefix_def HasPrefix_def)

lemma bearerFrom_other: "\<not> HasPrefix h ''Bearer '' \<Longrightarrow> bearerFrom h = []"
  by (simp add: bearerFrom_def CutPrefix_def)

text \<open>Every hint is a token key or an issuer-subject key; none is a principal key.\<close>

lemma routeHint_cases:
  obtains (tok) "routeHint b = ''tok:'' @ b"
  | (oidc) i u where "routeHint b = ''oidc:'' @ i @ '':'' @ u"
proof (cases "routeHint b = ''tok:'' @ b")
  case False
  then have "\<exists>i u. routeHint b = ''oidc:'' @ i @ '':'' @ u"
    by (auto simp: routeHint_def Let_def split: if_splits option.splits)
  with oidc show ?thesis by blast
qed (rule tok)

lemma routeHint_prefix:
  "HasPrefix (routeHint b) ''tok:'' \<or> HasPrefix (routeHint b) ''oidc:''"
  by (cases rule: routeHint_cases [of b]) (simp_all add: HasPrefix_def)

lemma routeHint_not_principal: "routeHint b \<noteq> ''pri:'' @ x"
  by (cases rule: routeHint_cases [of b]) simp_all

lemma hintClass_range: "hintClass h \<in> {''oidc'', ''principal'', ''opaque''}"
  by (simp add: hintClass_def)

lemma routeHint_tok_inj:
  "HasPrefix (routeHint b) ''tok:'' \<Longrightarrow> routeHint b = routeHint c \<Longrightarrow> b = c"
  by (cases rule: routeHint_cases [of b]; cases rule: routeHint_cases [of c])
     (auto simp: HasPrefix_def)

text \<open>
  A JWT routes by the claims of its payload: the header and the signature play no part.
\<close>

lemma routeHint_jwt:
  assumes h: "HasPrefix h ''eyJ''" "CHR ''.'' \<notin> set h" and s: "CHR ''.'' \<notin> set sig"
    and c: "unmarshal_claims payload = Some c"
  shows "routeHint (h @ ''.'' @ EncodeToString payload @ ''.'' @ sig) =
         ''oidc:'' @ Iss c @ '':'' @ (if OID c = [] then Sub c else OID c)"
proof -
  let ?b = "h @ ''.'' @ EncodeToString payload @ ''.'' @ sig"
  have "Split ?b (CHR ''.'') = [h, EncodeToString payload, sig]"
    using h(2) s EncodeToString_no_dot [of payload] by (simp add: Split_append_sep Split_no_sep)
  moreover have "HasPrefix ?b ''eyJ''"
    using h(1) by (auto simp: HasPrefix_iff)
  ultimately show ?thesis
    using c by (simp add: routeHint_def Decode_Encode Let_def)
qed

end
