(* ===== verification/Pool.thy ===== *)
theory Pool
  imports Principal Hint
begin

text \<open>
  \<open>pool.go\<close>: the pool of admitted principals. Entries are heap objects that the three maps
  share, so the state has an explicit store of entries (\<open>heap\<close>, an entry is its index). The
  last group of fields is the world the pool acts on: the connections that are open at the
  NATS server, the number of admission attempts made so far, the admissions the realm granted
  (bearer and principal) and the log. Every critical section of the code (what runs between
  \<open>p.mu.Lock()\<close> and \<open>p.mu.Unlock()\<close>) is one definition; \<open>PoolConc\<close> interleaves them.
\<close>

type_synonym eid = nat
type_synonym conn = nat
type_synonym sid = string

section \<open>State\<close>

text \<open>The states of a \<open>sync.Once\<close>. A run that panics is done as well.\<close>

datatype once = OnceFresh | OnceRunning | OnceDone

text \<open>\<open>mcpserver.NewServer\<close> over a realm client: the connection and the persona it signs as.\<close>

datatype server = Server conn string

record entry =
  keys :: "string list"
  latest :: "bearer option"
  build :: once
  err :: "node_error option"
  nc :: "conn option"
  rc :: "conn option"
  server :: "server option"
  persona :: string
  account :: string
  admitted :: "bearer list"
  pins :: "(string, string list) fmap"

datatype logline =
    LogAdmitted string string string
  | LogRefused string node_error
  | LogEvicted string string
  | LogEvent string string string
  | LogKeyNotPublished string string

record pool =
  cfg :: config
  entries :: "(string, eid) fmap"
  byBearer :: "(bearer, eid) fmap"
  sessions :: "(sid, eid) fmap"
  heap :: "eid \<Rightarrow> entry"
  next_eid :: eid
  live :: "conn set"
  next_conn :: conn
  attempts :: nat
  granted :: "(bearer \<times> principal) list"
  logs :: "logline list"

definition blank_entry :: entry where
  "blank_entry = \<lparr>keys = [], latest = None, build = OnceFresh, err = None, nc = None, rc = None,
     server = None, persona = [], account = [], admitted = [], pins = fmempty\<rparr>"

definition newPool :: "config \<Rightarrow> pool" where
  "newPool c = \<lparr>cfg = c, entries = fmempty, byBearer = fmempty, sessions = fmempty,
     heap = (\<lambda>_. blank_entry), next_eid = 0, live = {}, next_conn = 0, attempts = 0,
     granted = [], logs = []\<rparr>"

definition upd_entry :: "eid \<Rightarrow> (entry \<Rightarrow> entry) \<Rightarrow> pool \<Rightarrow> pool" where
  "upd_entry e f p = p\<lparr>heap := (heap p)(e := f (heap p e))\<rparr>"

definition principal_of :: "entry \<Rightarrow> principal" where
  "principal_of x = (persona x, account x)"

section \<open>Logging\<close>

definition log_line :: "logline \<Rightarrow> pool \<Rightarrow> pool" where
  "log_line l p = p\<lparr>logs := logs p @ [l]\<rparr>"

definition logRefused :: "string \<Rightarrow> node_error \<Rightarrow> pool \<Rightarrow> pool" where
  "logRefused context x p = log_line (LogRefused (hintClass context) x) p"

definition logf :: "string \<Rightarrow> principal \<Rightarrow> pool \<Rightarrow> pool" where
  "logf event pr p = log_line (LogEvent event (fst pr) (snd pr)) p"

section \<open>Helpers that run under the lock\<close>

definition aliveLocked :: "pool \<Rightarrow> eid \<Rightarrow> bool" where
  "aliveLocked p e =
     (err (heap p e) = None \<and> (case nc (heap p e) of None \<Rightarrow> True | Some c \<Rightarrow> c \<in> live p))"

definition new_entry :: "string \<Rightarrow> bearer \<Rightarrow> entry" where
  "new_entry key bearer = blank_entry\<lparr>keys := [key], latest := Some bearer\<rparr>"

definition newEntryLocked :: "string \<Rightarrow> bearer \<Rightarrow> pool \<Rightarrow> eid \<times> pool" where
  "newEntryLocked key bearer p =
     (next_eid p,
      p\<lparr>heap := (heap p)(next_eid p := new_entry key bearer),
        next_eid := Suc (next_eid p),
        entries := fmupd key (next_eid p) (entries p)\<rparr>)"

definition bindLocked :: "sid \<Rightarrow> eid \<Rightarrow> pool \<Rightarrow> pool" where
  "bindLocked s e p =
     (if s = [] then p
      else (case fmlookup (sessions p) s of
              None \<Rightarrow> p\<lparr>sessions := fmupd s e (sessions p)\<rparr>
            | Some _ \<Rightarrow> p))"

definition close_conn :: "conn \<Rightarrow> pool \<Rightarrow> pool" where
  "close_conn c p = p\<lparr>live := live p - {c}\<rparr>"

text \<open>Closing the realm client closes the connection it was built over.\<close>

definition shutdown :: "eid \<Rightarrow> pool \<Rightarrow> pool" where
  "shutdown e p =
     (case rc (heap p e) of
        Some c \<Rightarrow> close_conn c p
      | None \<Rightarrow> (case nc (heap p e) of Some c \<Rightarrow> close_conn c p | None \<Rightarrow> p))"

text \<open>Deleting those of the given keys that still map to the entry.\<close>

fun drop_if :: "eid \<Rightarrow> string list \<Rightarrow> (string, eid) fmap \<Rightarrow> (string, eid) fmap" where
  "drop_if e [] m = m"
| "drop_if e (k # ks) m = drop_if e ks (if fmlookup m k = Some e then fmdrop k m else m)"

definition evictLocked :: "eid \<Rightarrow> pool \<Rightarrow> pool" where
  "evictLocked e p =
     (let p1 = p\<lparr>entries := drop_if e (keys (heap p e)) (entries p),
                 byBearer := drop_if e (admitted (heap p e)) (byBearer p),
                 sessions := fmdrop_values (\<lambda>b. b = e) (sessions p)\<rparr>;
          p2 = shutdown e p1
      in if persona (heap p e) \<noteq> []
         then log_line (LogEvicted (persona (heap p e)) (account (heap p e))) p2
         else p2)"

definition isAdmittedLocked :: "pool \<Rightarrow> eid \<Rightarrow> bearer \<Rightarrow> bool" where
  "isAdmittedLocked p e bearer = (bearer \<in> set (admitted (heap p e)))"

definition keep :: nat where "keep = 2"

fun trim_admitted :: "eid \<Rightarrow> bearer list \<Rightarrow> (bearer, eid) fmap \<Rightarrow> bearer list \<times> (bearer, eid) fmap" where
  "trim_admitted e [] m = ([], m)"
| "trim_admitted e (d # l) m =
     (if keep < length (d # l)
      then trim_admitted e l (if fmlookup m d = Some e then fmdrop d m else m)
      else (d # l, m))"

definition admitLocked :: "eid \<Rightarrow> bearer \<Rightarrow> pool \<Rightarrow> pool" where
  "admitLocked e bearer p =
     (if isAdmittedLocked p e bearer then p
      else (let (l, m) = trim_admitted e (admitted (heap p e) @ [bearer]) (fmupd bearer e (byBearer p))
            in (upd_entry e (\<lambda>x. x\<lparr>admitted := l\<rparr>) p)\<lparr>byBearer := m\<rparr>))"

section \<open>Entry operations that run without the lock\<close>

definition sameLatest :: "pool \<Rightarrow> eid \<Rightarrow> bearer \<Rightarrow> bool" where
  "sameLatest p e bearer = (case latest (heap p e) of Some l \<Rightarrow> l = bearer | None \<Rightarrow> False)"

definition adopt :: "eid \<Rightarrow> bearer \<Rightarrow> pool \<Rightarrow> pool" where
  "adopt e bearer p = upd_entry e (\<lambda>x. x\<lparr>latest := Some bearer\<rparr>) p"

text \<open>What the \<open>TokenHandler\<close> of a pooled connection presents.\<close>

definition token_of :: "pool \<Rightarrow> eid \<Rightarrow> bearer" where
  "token_of p e = (case latest (heap p e) of Some l \<Rightarrow> l | None \<Rightarrow> [])"

text \<open>
  One admission attempt: \<open>nats.Connect\<close> with the bearer and, when it connects, the principal
  of the connection. The result carries the number of the attempt and the connection.
\<close>

type_synonym dialled = "nat \<times> conn option \<times> (node_error, principal) res"

definition dial :: "edge \<Rightarrow> bearer \<Rightarrow> pool \<Rightarrow> pool \<times> dialled" where
  "dial E b p =
     (let t = attempts p; p1 = p\<lparr>attempts := Suc t\<rparr> in
      case natsConnect E t b of
        Some x \<Rightarrow> (p1, t, None, Err (AdmissionRefused x))
      | None \<Rightarrow>
         (let c = next_conn p; r = principalOf E t b (root (Segment E) (cfg p)) in
          (p1\<lparr>live := insert c (live p), next_conn := Suc c,
             granted := (case r of Ok pr \<Rightarrow> (b, pr) # granted p | _ \<Rightarrow> granted p)\<rparr>,
           t, Some c, r)))"

text \<open>A probe: an attempt whose connection is closed before it returns, by \<open>defer\<close>.\<close>

definition probe :: "edge \<Rightarrow> bearer \<Rightarrow> pool \<Rightarrow> pool \<times> (node_error, principal) res" where
  "probe E b p =
     (case dial E b p of
        (p1, _, Some c, r) \<Rightarrow> (close_conn c p1, r)
      | (p1, _, None, r) \<Rightarrow> (p1, r))"

text \<open>What \<open>connect\<close> does after the principal is known: signer, realm client, stream.\<close>

definition open_realm :: "edge \<Rightarrow> config \<Rightarrow> nat \<Rightarrow> principal \<Rightarrow> node_error option" where
  "open_realm E cf t pr =
     (case personaSigner E t (snd pr) (fst pr) of
        Some x \<Rightarrow> Some (PersonaSignerFailed (fst pr) x)
      | None \<Rightarrow>
         (case realmNewClient E t (Realm cf) (fst pr) of
            Some x \<Rightarrow> Some (RealmClientFailed x)
          | None \<Rightarrow>
             (case realmStream E t (Realm cf) of
                Some x \<Rightarrow> Some (RealmNotProvisioned (Realm cf) x)
              | None \<Rightarrow> None)))"

definition fail_build :: "eid \<Rightarrow> node_error \<Rightarrow> pool \<Rightarrow> pool" where
  "fail_build e x p = upd_entry e (\<lambda>n. n\<lparr>build := OnceDone, err := Some x\<rparr>) p"

text \<open>
  The rest of \<open>connect\<close> and of the \<open>Do\<close> around it. An error closes the connection and marks the
  entry; a panic unwinds through \<open>Do\<close>, which counts as done, and leaves the fields unset and
  the connection open.
\<close>

definition connect_finish :: "edge \<Rightarrow> eid \<Rightarrow> dialled \<Rightarrow> pool \<Rightarrow> pool" where
  "connect_finish E e d p =
     (case d of
        (t, None, r) \<Rightarrow>
          (case r of Err x \<Rightarrow> fail_build e x p
           | _ \<Rightarrow> upd_entry e (\<lambda>n. n\<lparr>build := OnceDone\<rparr>) p)
      | (t, Some c, Err x) \<Rightarrow> fail_build e x (close_conn c p)
      | (t, Some c, Panic) \<Rightarrow> upd_entry e (\<lambda>n. n\<lparr>build := OnceDone\<rparr>) p
      | (t, Some c, Ok pr) \<Rightarrow>
          (case open_realm E (cfg p) t pr of
             Some x \<Rightarrow> fail_build e x (close_conn c p)
           | None \<Rightarrow>
              (let p1 = (case ensureSigningKey E t (fst pr) of
                           Some w \<Rightarrow> log_line (LogKeyNotPublished (fst pr) w) p | None \<Rightarrow> p);
                   p2 = upd_entry e (\<lambda>n. n\<lparr>build := OnceDone, nc := Some c, rc := Some c,
                          persona := fst pr, account := snd pr, server := Some (Server c (fst pr))\<rparr>) p1
               in log_line (LogAdmitted (fst pr) (snd pr) (hintClass (hd (keys (heap p e))))) p2)))"

definition start_build :: "eid \<Rightarrow> pool \<Rightarrow> pool" where
  "start_build e p = upd_entry e (\<lambda>n. n\<lparr>build := OnceRunning\<rparr>) p"

text \<open>Whether \<open>connect\<close> panicked, from the result of its dial.\<close>

definition panicked :: "dialled \<Rightarrow> bool" where
  "panicked d = (snd (snd d) = Panic)"

text \<open>
  \<open>e.build.Do(func() { e.err = e.connect() })\<close> by a caller that runs alone: the first call
  connects, later calls do nothing. (A caller that finds the build running waits for it;
  alone, no build is running.) The flag says whether the call panicked.
\<close>

definition build_Do :: "edge \<Rightarrow> eid \<Rightarrow> pool \<Rightarrow> pool \<times> bool" where
  "build_Do E e p =
     (if build (heap p e) = OnceFresh then
        (let (p1, d) = dial E (token_of p e) (start_build e p)
         in (connect_finish E e d p1, panicked d))
      else (p, False))"

end
