(* ===== verification/Resolve.thy ===== *)
theory Resolve
  imports Pool
begin

text \<open>
  \<open>resolve\<close> and the functions it calls (\<open>candidate\<close>, \<open>candidateForBound\<close>, \<open>ensurePrincipal\<close>),
  \<open>serverFor\<close>, \<open>bindSession\<close>, \<open>close\<close> and \<open>keyringFor\<close> of \<open>pool.go\<close>, for a request that runs
  alone. The first critical section of \<open>resolve\<close> ends by choosing a route.
\<close>

datatype route =
    ServeAdopt eid              \<comment> \<open>unlock, adopt the bearer, return the entry\<close>
  | RefuseMismatch              \<comment> \<open>unlock, return \<open>errSessionPrincipalMismatch\<close>\<close>
  | ProbeForBound eid           \<comment> \<open>unlock, \<open>candidateForBound\<close>\<close>
  | BuildEntry eid string       \<comment> \<open>unlock, build the entry under this hint\<close>
  | ProbeCandidate eid          \<comment> \<open>unlock, \<open>candidate\<close>\<close>

section \<open>The first critical section\<close>

definition routeByHint :: "bearer \<Rightarrow> pool \<Rightarrow> pool \<times> route" where
  "routeByHint bearer p =
     (let hint = routeHint bearer;
          (found, p1) =
            (case fmlookup (entries p) hint of
               Some e \<Rightarrow> if aliveLocked p e then (Some e, p) else (None, evictLocked e p)
             | None \<Rightarrow> (None, p));
          (e, p2) = (case found of Some e \<Rightarrow> (e, p1) | None \<Rightarrow> newEntryLocked hint bearer p1)
      in (p2, if sameLatest p2 e bearer then BuildEntry e hint else ProbeCandidate e))"

definition routeByBearer :: "bearer \<Rightarrow> sid \<Rightarrow> pool \<Rightarrow> pool \<times> route" where
  "routeByBearer bearer s p =
     (case fmlookup (byBearer p) bearer of
        Some e \<Rightarrow> if aliveLocked p e then (bindLocked s e p, ServeAdopt e)
                  else routeByHint bearer (evictLocked e p)
      | None \<Rightarrow> routeByHint bearer p)"

definition resolve_locked :: "bearer \<Rightarrow> sid \<Rightarrow> pool \<Rightarrow> pool \<times> route" where
  "resolve_locked bearer s p =
     (case (if s = [] then None else fmlookup (sessions p) s) of
        Some bound \<Rightarrow>
          if \<not> aliveLocked p bound then routeByBearer bearer s (evictLocked bound p)
          else if isAdmittedLocked p bound bearer then (p, ServeAdopt bound)
          else (case fmlookup (byBearer p) bearer of
                  Some other \<Rightarrow> if other \<noteq> bound then (p, RefuseMismatch) else (p, ProbeForBound bound)
                | None \<Rightarrow> (p, ProbeForBound bound))
      | None \<Rightarrow> routeByBearer bearer s p)"

section \<open>The rest of resolve\<close>

text \<open>After \<open>Do\<close>: a failed build is evicted and logged, a good one admits and binds.\<close>

definition build_failed :: "eid \<Rightarrow> string \<Rightarrow> node_error \<Rightarrow> pool \<Rightarrow> pool" where
  "build_failed e key x p = logRefused key x (evictLocked e p)"

definition admit_bind :: "eid \<Rightarrow> bearer \<Rightarrow> sid \<Rightarrow> pool \<Rightarrow> pool" where
  "admit_bind e bearer s p = bindLocked s e (admitLocked e bearer p)"

definition serve_built :: "edge \<Rightarrow> bearer \<Rightarrow> sid \<Rightarrow> eid \<Rightarrow> string \<Rightarrow> pool \<Rightarrow> pool \<times> (node_error, eid) res" where
  "serve_built E bearer s e hint p =
     (case build_Do E e p of
        (p1, True) \<Rightarrow> (p1, Panic)
      | (p1, False) \<Rightarrow>
          (case err (heap p1 e) of
             Some x \<Rightarrow> (build_failed e hint x p1, Err x)
           | None \<Rightarrow> (admit_bind e bearer s p1, Ok e)))"

definition principal_key :: "principal \<Rightarrow> string" where
  "principal_key pr = ''pri:'' @ snd pr @ '':'' @ fst pr"

text \<open>The critical section of \<open>ensurePrincipal\<close>.\<close>

definition ensure_locked :: "bearer \<Rightarrow> principal \<Rightarrow> pool \<Rightarrow> eid \<times> pool" where
  "ensure_locked bearer pr p =
     (let key = principal_key pr in
      case fmlookup (entries p) key of
        Some own \<Rightarrow> if aliveLocked p own then (own, p) else newEntryLocked key bearer (evictLocked own p)
      | None \<Rightarrow> newEntryLocked key bearer p)"

definition ensurePrincipal :: "edge \<Rightarrow> bearer \<Rightarrow> principal \<Rightarrow> pool \<Rightarrow> pool \<times> (node_error, eid) res" where
  "ensurePrincipal E bearer pr p =
     (let (own, p1) = ensure_locked bearer pr p in
      case build_Do E own p1 of
        (p2, True) \<Rightarrow> (p2, Panic)
      | (p2, False) \<Rightarrow>
          (case err (heap p2 own) of
             Some x \<Rightarrow> (build_failed own (principal_key pr) x p2, Err x)
           | None \<Rightarrow> (p2, Ok own)))"

definition candidate :: "edge \<Rightarrow> bearer \<Rightarrow> sid \<Rightarrow> eid \<Rightarrow> pool \<Rightarrow> pool \<times> (node_error, eid) res" where
  "candidate E bearer s e p =
     (case probe E bearer p of
        (p1, Err x) \<Rightarrow> (logRefused (routeHint bearer) x p1, Err x)
      | (p1, Panic) \<Rightarrow> (p1, Panic)
      | (p1, Ok pr) \<Rightarrow>
          if pr = principal_of (heap p1 e)
          then (logf ''probe adopted fresh bearer'' (principal_of (heap p1 e))
                  (adopt e bearer (admit_bind e bearer s p1)), Ok e)
          else (case ensurePrincipal E bearer pr (logf ''probe diverted colliding hint'' pr p1) of
                  (p2, Ok own) \<Rightarrow> (adopt own bearer (admit_bind own bearer s p2), Ok own)
                | (p2, Err x) \<Rightarrow> (p2, Err x)
                | (p2, Panic) \<Rightarrow> (p2, Panic)))"

definition candidateForBound :: "edge \<Rightarrow> bearer \<Rightarrow> eid \<Rightarrow> pool \<Rightarrow> pool \<times> (node_error, eid) res" where
  "candidateForBound E bearer bound p =
     (case probe E bearer p of
        (p1, Err x) \<Rightarrow> (logRefused ''session-refresh'' x p1, Err x)
      | (p1, Panic) \<Rightarrow> (p1, Panic)
      | (p1, Ok pr) \<Rightarrow>
          if pr \<noteq> principal_of (heap p1 bound) then (p1, Err SessionPrincipalMismatch)
          else (logf ''probe adopted fresh bearer'' (principal_of (heap p1 bound))
                  (adopt bound bearer (admitLocked bound bearer p1)), Ok bound))"

definition follow_route :: "edge \<Rightarrow> bearer \<Rightarrow> sid \<Rightarrow> pool \<times> route \<Rightarrow> pool \<times> (node_error, eid) res" where
  "follow_route E bearer s pr =
     (case pr of
        (p, ServeAdopt e) \<Rightarrow> (adopt e bearer p, Ok e)
      | (p, RefuseMismatch) \<Rightarrow> (p, Err SessionPrincipalMismatch)
      | (p, ProbeForBound bound) \<Rightarrow> candidateForBound E bearer bound p
      | (p, BuildEntry e hint) \<Rightarrow> serve_built E bearer s e hint p
      | (p, ProbeCandidate e) \<Rightarrow> candidate E bearer s e p)"

definition resolve :: "edge \<Rightarrow> bearer \<Rightarrow> sid \<Rightarrow> pool \<Rightarrow> pool \<times> (node_error, eid) res" where
  "resolve E bearer s p = follow_route E bearer s (resolve_locked bearer s p)"

section \<open>The other operations of the pool\<close>

definition serverFor :: "bearer \<Rightarrow> pool \<Rightarrow> server option" where
  "serverFor bearer p =
     (case fmlookup (byBearer p) bearer of
        Some e \<Rightarrow> if aliveLocked p e then server (heap p e) else None
      | None \<Rightarrow> None)"

definition bindSession :: "sid \<Rightarrow> eid \<Rightarrow> pool \<Rightarrow> pool" where
  "bindSession s e p = bindLocked s e p"

text \<open>The connection that \<open>shutdown\<close> closes.\<close>

definition conn_of :: "entry \<Rightarrow> conn option" where
  "conn_of x = (case rc x of Some c \<Rightarrow> Some c | None \<Rightarrow> nc x)"

text \<open>
  \<open>close\<close>: every entry of the map is shut down once, in any order; shutting down only closes
  connections, so the loop closes the set of their connections.
\<close>

definition close_pool :: "pool \<Rightarrow> pool" where
  "close_pool p =
     p\<lparr>live := {c \<in> live p. Some c \<notin> (\<lambda>e. conn_of (heap p e)) ` fset (fmran (entries p))},
       entries := fmempty, byBearer := fmempty, sessions := fmempty\<rparr>"

text \<open>
  \<open>keyringFor\<close>: the directory (\<open>registry.All\<close>) and the keyring construction of another module
  are parameters; the pins of the entry are threaded through.
\<close>

definition keyringFor ::
  "(conn option \<Rightarrow> string + 'profiles) \<Rightarrow>
   ('profiles \<Rightarrow> (string, string list) fmap \<Rightarrow> 'keyring \<times> (string, string list) fmap) \<Rightarrow>
   eid \<Rightarrow> pool \<Rightarrow> pool \<times> 'keyring option" where
  "keyringFor registryAll buildKeyring e p =
     (case registryAll (rc (heap p e)) of
        Inl _ \<Rightarrow> (p, None)
      | Inr profiles \<Rightarrow>
          (let (kr, newPins) = buildKeyring profiles (pins (heap p e))
           in (upd_entry e (\<lambda>x. x\<lparr>pins := newPins\<rparr>) p, Some kr)))"

lemma shutdown_conn_of:
  "shutdown e p = (case conn_of (heap p e) of Some c \<Rightarrow> close_conn c p | None \<Rightarrow> p)"
  by (simp add: shutdown_def conn_of_def split: option.splits)

text \<open>The loop of \<open>close\<close> in any order of the map closes the same connections.\<close>

lemma fold_shutdown_live:
  "fold shutdown es p = p\<lparr>live := {c \<in> live p. Some c \<notin> (\<lambda>e. conn_of (heap p e)) ` set es}\<rparr>"
proof (induction es arbitrary: p)
  case (Cons e es)
  then show ?case
    by (auto simp: shutdown_conn_of close_conn_def split: option.splits)
qed simp

lemma close_pool_any_order:
  "set es = fset (fmran (entries p)) \<Longrightarrow>
   close_pool p = (fold shutdown es p)\<lparr>entries := fmempty, byBearer := fmempty, sessions := fmempty\<rparr>"
  by (simp add: close_pool_def fold_shutdown_live)

end
