(* ===== verification/PoolFrame.thy ===== *)
theory PoolFrame
  imports Resolve
begin

text \<open>
  What each operation of the pool writes and leaves alone: characteristic equations of the
  fields after an operation, collected in \<open>pool_simps\<close>.
\<close>

section \<open>Log lines, connections, entry updates\<close>

lemma log_line_fields [simp]:
  "cfg (log_line l p) = cfg p" "entries (log_line l p) = entries p"
  "byBearer (log_line l p) = byBearer p" "sessions (log_line l p) = sessions p"
  "heap (log_line l p) = heap p" "next_eid (log_line l p) = next_eid p"
  "live (log_line l p) = live p" "next_conn (log_line l p) = next_conn p"
  "attempts (log_line l p) = attempts p" "granted (log_line l p) = granted p"
  by (simp_all add: log_line_def)

lemma log_helpers_fields [simp]:
  "cfg (logRefused h x p) = cfg p" "entries (logRefused h x p) = entries p"
  "byBearer (logRefused h x p) = byBearer p" "sessions (logRefused h x p) = sessions p"
  "heap (logRefused h x p) = heap p" "next_eid (logRefused h x p) = next_eid p"
  "live (logRefused h x p) = live p" "next_conn (logRefused h x p) = next_conn p"
  "attempts (logRefused h x p) = attempts p" "granted (logRefused h x p) = granted p"
  "cfg (logf v pr p) = cfg p" "entries (logf v pr p) = entries p"
  "byBearer (logf v pr p) = byBearer p" "sessions (logf v pr p) = sessions p"
  "heap (logf v pr p) = heap p" "next_eid (logf v pr p) = next_eid p"
  "live (logf v pr p) = live p" "next_conn (logf v pr p) = next_conn p"
  "attempts (logf v pr p) = attempts p" "granted (logf v pr p) = granted p"
  by (simp_all add: logRefused_def logf_def)

lemma close_conn_fields [simp]:
  "cfg (close_conn c p) = cfg p" "entries (close_conn c p) = entries p"
  "byBearer (close_conn c p) = byBearer p" "sessions (close_conn c p) = sessions p"
  "heap (close_conn c p) = heap p" "next_eid (close_conn c p) = next_eid p"
  "live (close_conn c p) = live p - {c}" "next_conn (close_conn c p) = next_conn p"
  "attempts (close_conn c p) = attempts p" "granted (close_conn c p) = granted p"
  by (simp_all add: close_conn_def)

lemma upd_entry_fields [simp]:
  "cfg (upd_entry e f p) = cfg p" "entries (upd_entry e f p) = entries p"
  "byBearer (upd_entry e f p) = byBearer p" "sessions (upd_entry e f p) = sessions p"
  "heap (upd_entry e f p) = (heap p)(e := f (heap p e))" "next_eid (upd_entry e f p) = next_eid p"
  "live (upd_entry e f p) = live p" "next_conn (upd_entry e f p) = next_conn p"
  "attempts (upd_entry e f p) = attempts p" "granted (upd_entry e f p) = granted p"
  by (simp_all add: upd_entry_def)

lemma adopt_fields [simp]:
  "cfg (adopt e b p) = cfg p" "entries (adopt e b p) = entries p"
  "byBearer (adopt e b p) = byBearer p" "sessions (adopt e b p) = sessions p"
  "heap (adopt e b p) = (heap p)(e := (heap p e)\<lparr>latest := Some b\<rparr>)"
  "next_eid (adopt e b p) = next_eid p" "live (adopt e b p) = live p"
  "next_conn (adopt e b p) = next_conn p" "attempts (adopt e b p) = attempts p"
  "granted (adopt e b p) = granted p"
  by (simp_all add: adopt_def)

lemma shutdown_fields [simp]:
  "cfg (shutdown e p) = cfg p" "entries (shutdown e p) = entries p"
  "byBearer (shutdown e p) = byBearer p" "sessions (shutdown e p) = sessions p"
  "heap (shutdown e p) = heap p" "next_eid (shutdown e p) = next_eid p"
  "live (shutdown e p) = {c \<in> live p. conn_of (heap p e) \<noteq> Some c}"
  "next_conn (shutdown e p) = next_conn p" "attempts (shutdown e p) = attempts p"
  "granted (shutdown e p) = granted p"
  by (auto simp: shutdown_conn_of split: option.splits)

section \<open>The maps\<close>

lemma fmlookup_drop_if:
  "fmlookup (drop_if e ks m) k = (if k \<in> set ks \<and> fmlookup m k = Some e then None else fmlookup m k)"
  by (induction ks arbitrary: m) (auto split: if_splits)

lemma bindLocked_fields [simp]:
  "cfg (bindLocked s e p) = cfg p" "entries (bindLocked s e p) = entries p"
  "byBearer (bindLocked s e p) = byBearer p" "heap (bindLocked s e p) = heap p"
  "next_eid (bindLocked s e p) = next_eid p" "live (bindLocked s e p) = live p"
  "next_conn (bindLocked s e p) = next_conn p" "attempts (bindLocked s e p) = attempts p"
  "granted (bindLocked s e p) = granted p" "logs (bindLocked s e p) = logs p"
  by (auto simp: bindLocked_def split: option.splits)

lemma bindLocked_sessions:
  "fmlookup (sessions (bindLocked s e p)) k =
     (if k = s \<and> s \<noteq> [] \<and> fmlookup (sessions p) s = None then Some e else fmlookup (sessions p) k)"
  by (auto simp: bindLocked_def split: option.splits)

lemma newEntryLocked_fields [simp]:
  "fst (newEntryLocked k b p) = next_eid p"
  "cfg (snd (newEntryLocked k b p)) = cfg p"
  "entries (snd (newEntryLocked k b p)) = fmupd k (next_eid p) (entries p)"
  "byBearer (snd (newEntryLocked k b p)) = byBearer p"
  "sessions (snd (newEntryLocked k b p)) = sessions p"
  "heap (snd (newEntryLocked k b p)) = (heap p)(next_eid p := new_entry k b)"
  "next_eid (snd (newEntryLocked k b p)) = Suc (next_eid p)"
  "live (snd (newEntryLocked k b p)) = live p"
  "next_conn (snd (newEntryLocked k b p)) = next_conn p"
  "attempts (snd (newEntryLocked k b p)) = attempts p"
  "granted (snd (newEntryLocked k b p)) = granted p"
  by (simp_all add: newEntryLocked_def)

lemma new_entry_fields [simp]:
  "keys (new_entry k b) = [k]" "latest (new_entry k b) = Some b" "build (new_entry k b) = OnceFresh"
  "err (new_entry k b) = None" "nc (new_entry k b) = None" "rc (new_entry k b) = None"
  "server (new_entry k b) = None" "persona (new_entry k b) = []" "account (new_entry k b) = []"
  "admitted (new_entry k b) = []" "principal_of (new_entry k b) = ([], [])"
  "conn_of (new_entry k b) = None"
  by (simp_all add: new_entry_def blank_entry_def principal_of_def conn_of_def)

lemma evictLocked_fields [simp]:
  "cfg (evictLocked e p) = cfg p"
  "entries (evictLocked e p) = drop_if e (keys (heap p e)) (entries p)"
  "byBearer (evictLocked e p) = drop_if e (admitted (heap p e)) (byBearer p)"
  "sessions (evictLocked e p) = fmdrop_values (\<lambda>b. b = e) (sessions p)"
  "heap (evictLocked e p) = heap p" "next_eid (evictLocked e p) = next_eid p"
  "live (evictLocked e p) = {c \<in> live p. conn_of (heap p e) \<noteq> Some c}"
  "next_conn (evictLocked e p) = next_conn p" "attempts (evictLocked e p) = attempts p"
  "granted (evictLocked e p) = granted p"
  by (simp_all add: evictLocked_def Let_def)

section \<open>Admitting a bearer\<close>

lemma keep_Suc: "keep < length (d # l) \<Longrightarrow> length (d # l) - keep = Suc (length l - keep)"
  by (simp add: keep_def Suc_diff_le)

lemma trim_admitted_fst: "fst (trim_admitted e l m) = drop (length l - keep) l"
proof (induction l arbitrary: m)
  case (Cons d l)
  show ?case
  proof (cases "keep < length (d # l)")
    case True
    then show ?thesis by (simp only: keep_Suc trim_admitted.simps if_True Cons.IH drop_Suc_Cons)
  qed simp
qed simp

lemma trim_admitted_snd:
  "distinct l \<Longrightarrow> fmlookup (snd (trim_admitted e l m)) b =
     (if b \<in> set (take (length l - keep) l) \<and> fmlookup m b = Some e then None else fmlookup m b)"
proof (induction l arbitrary: m)
  case (Cons d l)
  show ?case
  proof (cases "keep < length (d # l)")
    case True
    then have "take (length (d # l) - keep) (d # l) = d # take (length l - keep) l"
      by (simp only: keep_Suc take_Suc_Cons)
    moreover have "d \<notin> set (take (length l - keep) l)"
      using Cons.prems by (auto dest: in_set_takeD)
    ultimately show ?thesis using True Cons by auto
  qed simp
qed simp

definition admitted_after :: "bearer list \<Rightarrow> bearer \<Rightarrow> bearer list" where
  "admitted_after l b = drop (Suc (length l) - keep) (l @ [b])"

definition aged_out :: "bearer list \<Rightarrow> bearer list" where
  "aged_out l = take (Suc (length l) - keep) l"

lemma admitLocked_fields [simp]:
  "cfg (admitLocked e b p) = cfg p" "entries (admitLocked e b p) = entries p"
  "sessions (admitLocked e b p) = sessions p" "next_eid (admitLocked e b p) = next_eid p"
  "live (admitLocked e b p) = live p" "next_conn (admitLocked e b p) = next_conn p"
  "attempts (admitLocked e b p) = attempts p" "granted (admitLocked e b p) = granted p"
  by (auto simp: admitLocked_def split: prod.splits)

lemma admitLocked_heap:
  "heap (admitLocked e b p) =
     (if b \<in> set (admitted (heap p e)) then heap p
      else (heap p)(e := (heap p e)\<lparr>admitted := admitted_after (admitted (heap p e)) b\<rparr>))"
  using trim_admitted_fst [of e "admitted (heap p e) @ [b]" "fmupd b e (byBearer p)"]
  by (auto simp: admitLocked_def isAdmittedLocked_def admitted_after_def split: prod.splits)

lemma aged_out_take:
  "take (length (l @ [b]) - keep) (l @ [b]) = aged_out l"
  by (simp add: aged_out_def keep_def)

lemma admitLocked_byBearer:
  assumes "distinct (admitted (heap p e))"
  shows "fmlookup (byBearer (admitLocked e b p)) k =
     (if b \<in> set (admitted (heap p e)) then fmlookup (byBearer p) k
      else if k = b then Some e
      else if k \<in> set (aged_out (admitted (heap p e))) \<and> fmlookup (byBearer p) k = Some e then None
      else fmlookup (byBearer p) k)"
proof (cases "b \<in> set (admitted (heap p e))")
  case False
  let ?l = "admitted (heap p e)"
  have nb: "b \<notin> set (aged_out ?l)"
    using False set_take_subset by (auto simp: aged_out_def dest: in_set_takeD)
  have "fmlookup (snd (trim_admitted e (?l @ [b]) (fmupd b e (byBearer p)))) k =
    (if k \<in> set (aged_out ?l) \<and> fmlookup (fmupd b e (byBearer p)) k = Some e then None
     else fmlookup (fmupd b e (byBearer p)) k)"
    using trim_admitted_snd [of "?l @ [b]" e "fmupd b e (byBearer p)" k] assms False
    by (simp only: aged_out_take) simp
  then show ?thesis
    using False nb by (auto simp: admitLocked_def isAdmittedLocked_def split: prod.splits)
qed (simp add: admitLocked_def isAdmittedLocked_def)

lemma admitted_after_set: "set (admitted_after l b) = set (drop (Suc (length l) - keep) l) \<union> {b}"
  by (auto simp: admitted_after_def keep_def)

lemma admitted_after_mem [simp]: "b \<in> set (admitted_after l b)"
  by (simp add: admitted_after_set)

lemma admitted_after_subset: "set (admitted_after l b) \<subseteq> insert b (set l)"
  by (auto simp: admitted_after_set dest: in_set_dropD)

lemma admitted_after_distinct: "distinct l \<Longrightarrow> b \<notin> set l \<Longrightarrow> distinct (admitted_after l b)"
  by (auto simp: admitted_after_def keep_def dest: in_set_dropD)

lemma admitted_after_length: "length (admitted_after l b) \<le> keep"
  by (simp add: admitted_after_def)

lemma aged_out_split: "aged_out l @ drop (Suc (length l) - keep) l = l"
  by (simp add: aged_out_def)

lemma aged_out_disjoint:
  "distinct l \<Longrightarrow> b \<notin> set l \<Longrightarrow> k \<in> set (admitted_after l b) \<Longrightarrow> k \<notin> set (aged_out l)"
proof -
  assume d: "distinct l" "b \<notin> set l" "k \<in> set (admitted_after l b)"
  have "set (aged_out l) \<inter> set (drop (Suc (length l) - keep) l) = {}"
    using d(1) by (simp add: aged_out_def set_take_disj_set_drop_if_distinct)
  moreover have "b \<notin> set (aged_out l)"
    using d(2) by (auto simp: aged_out_def dest: in_set_takeD)
  ultimately show ?thesis
    using d(3) by (auto simp: admitted_after_set)
qed

section \<open>Dialling and building\<close>

lemma dial_fields [simp]:
  "cfg (fst (dial E b p)) = cfg p" "entries (fst (dial E b p)) = entries p"
  "byBearer (fst (dial E b p)) = byBearer p" "sessions (fst (dial E b p)) = sessions p"
  "heap (fst (dial E b p)) = heap p" "next_eid (fst (dial E b p)) = next_eid p"
  "attempts (fst (dial E b p)) = Suc (attempts p)" "logs (fst (dial E b p)) = logs p"
  by (auto simp: dial_def Let_def split: option.splits)

lemma probe_fields [simp]:
  "cfg (fst (probe E b p)) = cfg p" "entries (fst (probe E b p)) = entries p"
  "byBearer (fst (probe E b p)) = byBearer p" "sessions (fst (probe E b p)) = sessions p"
  "heap (fst (probe E b p)) = heap p" "next_eid (fst (probe E b p)) = next_eid p"
  "attempts (fst (probe E b p)) = Suc (attempts p)" "logs (fst (probe E b p)) = logs p"
  by (auto simp: probe_def dial_def Let_def close_conn_def split: option.splits prod.splits)

lemma start_build_fields [simp]:
  "cfg (start_build e p) = cfg p" "entries (start_build e p) = entries p"
  "byBearer (start_build e p) = byBearer p" "sessions (start_build e p) = sessions p"
  "heap (start_build e p) = (heap p)(e := (heap p e)\<lparr>build := OnceRunning\<rparr>)"
  "next_eid (start_build e p) = next_eid p" "live (start_build e p) = live p"
  "next_conn (start_build e p) = next_conn p" "attempts (start_build e p) = attempts p"
  "granted (start_build e p) = granted p"
  by (simp_all add: start_build_def)

lemma connect_finish_fields [simp]:
  "cfg (connect_finish E e d p) = cfg p" "entries (connect_finish E e d p) = entries p"
  "byBearer (connect_finish E e d p) = byBearer p" "sessions (connect_finish E e d p) = sessions p"
  "next_eid (connect_finish E e d p) = next_eid p" "next_conn (connect_finish E e d p) = next_conn p"
  "attempts (connect_finish E e d p) = attempts p" "granted (connect_finish E e d p) = granted p"
  by (auto simp: connect_finish_def fail_build_def Let_def split: prod.splits option.splits res.splits)

end
