(* ===== verification/PoolInv.thy ===== *)
theory PoolInv
  imports PoolFrame
begin

text \<open>
  The invariant of the pool that every critical section keeps, whatever runs in between, and
  its preservation by each operation. It ties every bearer that an entry trusts to an
  admission that the realm granted for that entry's principal.
\<close>

section \<open>What is assumed of the edge\<close>

definition plain_account :: "principal \<Rightarrow> bool" where
  "plain_account pr = (CHR '':'' \<notin> set (snd pr))"

text \<open>
  The documented behaviour of the admission edge that the security argument relies on: the
  realm resolves a bearer to one principal however often it is asked (it may refuse at any
  time), accounts are NATS account keys and hold no colon, and no allow list holds a subject
  on which the slice of \<open>principalFromAllows\<close> is out of range.
\<close>

definition sane_edge :: "edge \<Rightarrow> config \<Rightarrow> bool" where
  "sane_edge E cf \<longleftrightarrow>
     (\<forall>t t' b pr pr'. principalOf E t b (root (Segment E) cf) = Ok pr \<longrightarrow>
        principalOf E t' b (root (Segment E) cf) = Ok pr' \<longrightarrow> pr = pr') \<and>
     (\<forall>t b pr. principalOf E t b (root (Segment E) cf) = Ok pr \<longrightarrow> plain_account pr) \<and>
     (\<forall>t b. principalOf E t b (root (Segment E) cf) \<noteq> Panic)"

lemma sane_edge_stable:
  "sane_edge E cf \<Longrightarrow> principalOf E t b (root (Segment E) cf) = Ok pr \<Longrightarrow>
   principalOf E t' b (root (Segment E) cf) = Ok pr' \<Longrightarrow> pr = pr'"
  unfolding sane_edge_def by blast

lemma sane_edge_plain:
  "sane_edge E cf \<Longrightarrow> principalOf E t b (root (Segment E) cf) = Ok pr \<Longrightarrow> plain_account pr"
  unfolding sane_edge_def by blast

lemma sane_edge_no_panic:
  "sane_edge E cf \<Longrightarrow> principalOf E t b (root (Segment E) cf) \<noteq> Panic"
  unfolding sane_edge_def by blast

text \<open>With plain accounts the key of a principal determines it.\<close>

lemma principal_key_inj:
  assumes "plain_account p" "plain_account q" "principal_key p = principal_key q"
  shows "p = q"
proof -
  have eq: "snd p @ CHR '':'' # fst p = snd q @ CHR '':'' # fst q"
    using assms(3) by (simp add: principal_key_def)
  have tw: "takeWhile (\<lambda>c. c \<noteq> CHR '':'') (snd r @ CHR '':'' # fst r) = snd r"
    if "plain_account r" for r
  proof -
    have "\<forall>c \<in> set (snd r). c \<noteq> CHR '':''" using that by (auto simp: plain_account_def)
    then show ?thesis by (simp add: takeWhile_append2)
  qed
  have "snd p = snd q"
    using tw [OF assms(1)] tw [OF assms(2)] eq by metis
  with eq show ?thesis by (simp add: prod_eq_iff)
qed

lemma routeHint_not_principal_key: "routeHint b \<noteq> principal_key pr"
  by (simp add: principal_key_def routeHint_not_principal [simplified])

section \<open>The invariant\<close>

text \<open>
  An entry, given the admissions granted so far and a bound on connection numbers. A built
  entry has a connection, a server that signs as its persona, and only bearers that were
  admitted as its principal; an unbuilt one has nothing of that. An entry filed under the key
  of a principal is, or will be built as, that principal.
\<close>

definition key_ok :: "(bearer \<times> principal) set \<Rightarrow> entry \<Rightarrow> bool" where
  "key_ok G x \<longleftrightarrow>
     (\<forall>pr. keys x = [principal_key pr] \<and> plain_account pr \<longrightarrow>
        (if nc x = None then \<exists>b. latest x = Some b \<and> (b, pr) \<in> G else principal_of x = pr))"

definition entry_ok :: "(bearer \<times> principal) set \<Rightarrow> conn \<Rightarrow> entry \<Rightarrow> bool" where
  "entry_ok G n x \<longleftrightarrow>
     (\<exists>k. keys x = [k]) \<and> distinct (admitted x) \<and> length (admitted x) \<le> keep \<and>
     (case nc x of
        Some c \<Rightarrow> c < n \<and> rc x = Some c \<and> server x = Some (Server c (persona x)) \<and>
          build x = OnceDone \<and> err x = None \<and> valid_principal (principal_of x) \<and>
          (\<forall>b \<in> set (admitted x). (b, principal_of x) \<in> G) \<and>
          (\<exists>b. latest x = Some b \<and> (b, principal_of x) \<in> G)
      | None \<Rightarrow> rc x = None \<and> server x = None \<and> principal_of x = ([], []) \<and> admitted x = [] \<and>
          latest x \<noteq> None \<and> (build x = OnceDone \<longleftrightarrow> err x \<noteq> None)) \<and>
     key_ok G x"

definition grants_ok :: "edge \<Rightarrow> config \<Rightarrow> (bearer \<times> principal) set \<Rightarrow> bool" where
  "grants_ok E cf G \<longleftrightarrow>
     (\<forall>b pr. (b, pr) \<in> G \<longrightarrow>
        (\<exists>t. natsConnect E t b = None \<and> principalOf E t b (root (Segment E) cf) = Ok pr))"

definition entries_ok :: "pool \<Rightarrow> bool" where
  "entries_ok p \<longleftrightarrow>
     (\<forall>k e. fmlookup (entries p) k = Some e \<longrightarrow> e < next_eid p \<and> keys (heap p e) = [k])"

definition bearers_ok :: "pool \<Rightarrow> bool" where
  "bearers_ok p \<longleftrightarrow>
     (\<forall>b e. fmlookup (byBearer p) b = Some e \<longrightarrow> e < next_eid p \<and> b \<in> set (admitted (heap p e)))"

definition sessions_ok :: "pool \<Rightarrow> bool" where
  "sessions_ok p \<longleftrightarrow>
     (\<forall>s e. fmlookup (sessions p) s = Some e \<longrightarrow> e < next_eid p \<and> nc (heap p e) \<noteq> None)"

definition store_ok :: "pool \<Rightarrow> bool" where
  "store_ok p \<longleftrightarrow> (\<forall>e < next_eid p. entry_ok (set (granted p)) (next_conn p) (heap p e))"

definition conns_apart :: "pool \<Rightarrow> bool" where
  "conns_apart p \<longleftrightarrow>
     (\<forall>e e' c. e < next_eid p \<longrightarrow> e' < next_eid p \<longrightarrow> nc (heap p e) = Some c \<longrightarrow>
        nc (heap p e') = Some c \<longrightarrow> e = e')"

definition live_ok :: "pool \<Rightarrow> bool" where
  "live_ok p \<longleftrightarrow> (\<forall>c \<in> live p. c < next_conn p)"

definition core_inv :: "edge \<Rightarrow> config \<Rightarrow> pool \<Rightarrow> bool" where
  "core_inv E cf p \<longleftrightarrow>
     cfg p = cf \<and> grants_ok E cf (set (granted p)) \<and> entries_ok p \<and> bearers_ok p \<and>
     sessions_ok p \<and> store_ok p \<and> conns_apart p \<and> live_ok p"

lemmas core_parts = entries_ok_def bearers_ok_def sessions_ok_def store_ok_def conns_apart_def live_ok_def

lemma core_invD:
  assumes "core_inv E cf p"
  shows core_cfg: "cfg p = cf"
    and core_granted: "(b, pr) \<in> set (granted p) \<Longrightarrow>
          \<exists>t. natsConnect E t b = None \<and> principalOf E t b (root (Segment E) cf) = Ok pr"
    and core_entries: "fmlookup (entries p) k = Some e \<Longrightarrow> e < next_eid p \<and> keys (heap p e) = [k]"
    and core_byBearer: "fmlookup (byBearer p) b = Some e \<Longrightarrow> e < next_eid p \<and> b \<in> set (admitted (heap p e))"
    and core_sessions: "fmlookup (sessions p) s = Some e \<Longrightarrow> e < next_eid p \<and> nc (heap p e) \<noteq> None"
    and core_entry: "e < next_eid p \<Longrightarrow> entry_ok (set (granted p)) (next_conn p) (heap p e)"
    and core_conns: "e < next_eid p \<Longrightarrow> e' < next_eid p \<Longrightarrow> nc (heap p e) = Some c \<Longrightarrow>
          nc (heap p e') = Some c \<Longrightarrow> e = e'"
    and core_live: "c \<in> live p \<Longrightarrow> c < next_conn p"
  using assms unfolding core_inv_def grants_ok_def core_parts by blast+

lemma core_invI:
  assumes "cfg p = cf" "grants_ok E cf (set (granted p))" "entries_ok p" "bearers_ok p"
    "sessions_ok p" "store_ok p" "conns_apart p" "live_ok p"
  shows "core_inv E cf p"
  using assms by (simp add: core_inv_def)

lemma key_okD:
  "key_ok G x \<Longrightarrow> keys x = [principal_key pr] \<Longrightarrow> plain_account pr \<Longrightarrow>
     (if nc x = None then \<exists>b. latest x = Some b \<and> (b, pr) \<in> G else principal_of x = pr)"
  unfolding key_ok_def by blast

lemma key_ok_mono: "key_ok G x \<Longrightarrow> G \<subseteq> G' \<Longrightarrow> key_ok G' x"
  unfolding key_ok_def by (metis subsetD)

lemma key_ok_cong:
  "key_ok G x \<Longrightarrow> keys y = keys x \<Longrightarrow> nc y = nc x \<Longrightarrow> principal_of y = principal_of x \<Longrightarrow>
   nc x \<noteq> None \<or> latest y = latest x \<Longrightarrow> key_ok G y"
  unfolding key_ok_def by metis

lemma entry_ok_mono: "entry_ok G n x \<Longrightarrow> G \<subseteq> G' \<Longrightarrow> n \<le> n' \<Longrightarrow> entry_ok G' n' x"
  unfolding entry_ok_def by (cases "nc x") (auto intro: key_ok_mono)

lemma entry_ok_key: "entry_ok G n x \<Longrightarrow> key_ok G x"
  by (simp add: entry_ok_def)

text \<open>Facts read off a good entry.\<close>

lemma entry_ok_built:
  assumes "entry_ok G n x" "nc x = Some c"
  shows "rc x = Some c" "server x = Some (Server c (persona x))" "build x = OnceDone" "err x = None"
    "c < n" "valid_principal (principal_of x)" "\<And>b. b \<in> set (admitted x) \<Longrightarrow> (b, principal_of x) \<in> G"
    "\<exists>b. latest x = Some b \<and> (b, principal_of x) \<in> G" "conn_of x = Some c"
  using assms by (auto simp: entry_ok_def conn_of_def)

lemma entry_ok_unbuilt:
  assumes "entry_ok G n x" "nc x = None"
  shows "rc x = None" "server x = None" "principal_of x = ([], [])" "admitted x = []"
    "latest x \<noteq> None" "build x = OnceDone \<longleftrightarrow> err x \<noteq> None" "conn_of x = None" "persona x = []"
  using assms by (auto simp: entry_ok_def conn_of_def principal_of_def)

lemma entry_ok_admitted: "entry_ok G n x \<Longrightarrow> b \<in> set (admitted x) \<Longrightarrow> \<exists>c. nc x = Some c"
  by (cases "nc x") (auto dest: entry_ok_unbuilt)

lemma entry_ok_distinct: "entry_ok G n x \<Longrightarrow> distinct (admitted x) \<and> length (admitted x) \<le> keep"
  by (simp add: entry_ok_def)

lemma entry_ok_conn_of: "entry_ok G n x \<Longrightarrow> conn_of x = nc x"
  by (cases "nc x") (auto dest: entry_ok_built(9) entry_ok_unbuilt(7))

lemma alive_built: "entry_ok G n (heap p e) \<Longrightarrow> nc (heap p e) = Some c \<Longrightarrow> aliveLocked p e \<longleftrightarrow> c \<in> live p"
  by (simp add: aliveLocked_def entry_ok_built)

text \<open>A granted bearer has one principal at a sane edge.\<close>

lemma granted_unique:
  assumes "sane_edge E cf" "core_inv E cf p" "(b, pr) \<in> set (granted p)" "(b, pr') \<in> set (granted p)"
  shows "pr = pr'"
  using core_granted [OF assms(2,3)] core_granted [OF assms(2,4)] sane_edge_stable [OF assms(1)] by blast

lemma granted_plain:
  assumes "sane_edge E cf" "core_inv E cf p" "(b, pr) \<in> set (granted p)"
  shows "plain_account pr"
  using core_granted [OF assms(2,3)] sane_edge_plain [OF assms(1)] by blast

section \<open>Preservation\<close>

lemma core_inv_newPool: "core_inv E c (newPool c)"
  by (simp add: core_inv_def grants_ok_def core_parts newPool_def)

text \<open>
  Operations that leave the store alone and only shrink maps or close connections.
\<close>

lemma core_inv_shrink:
  assumes "core_inv E cf p" "cfg q = cfg p" "heap q = heap p" "next_eid q = next_eid p"
    "next_conn q = next_conn p" "granted q = granted p" "live q \<subseteq> live p"
    "\<And>k e. fmlookup (entries q) k = Some e \<Longrightarrow> fmlookup (entries p) k = Some e"
    "\<And>k e. fmlookup (byBearer q) k = Some e \<Longrightarrow> fmlookup (byBearer p) k = Some e"
    "\<And>k e. fmlookup (sessions q) k = Some e \<Longrightarrow> fmlookup (sessions p) k = Some e"
  shows "core_inv E cf q"
proof -
  have "entries_ok q" using core_entries [OF assms(1)] assms(2-10) unfolding entries_ok_def by metis
  moreover have "bearers_ok q" using core_byBearer [OF assms(1)] assms(2-10) unfolding bearers_ok_def by metis
  moreover have "sessions_ok q" using core_sessions [OF assms(1)] assms(2-10) unfolding sessions_ok_def by metis
  moreover have "live_ok q" using core_live [OF assms(1)] assms(2-10) by (auto simp: live_ok_def)
  moreover have "store_ok q" "conns_apart q"
    using assms(1-6) unfolding core_inv_def core_parts by simp_all
  ultimately show ?thesis
    using assms(1-6) by (simp add: core_inv_def)
qed

lemma core_inv_log [simp]: "core_inv E cf p \<Longrightarrow> core_inv E cf (log_line l p)"
  "core_inv E cf p \<Longrightarrow> core_inv E cf (logRefused h x p)"
  "core_inv E cf p \<Longrightarrow> core_inv E cf (logf v pr p)"
  by (erule core_inv_shrink; simp)+

lemma core_inv_close_conn [simp]: "core_inv E cf p \<Longrightarrow> core_inv E cf (close_conn c p)"
  by (erule core_inv_shrink) auto

lemma core_inv_evict [simp]: "core_inv E cf p \<Longrightarrow> core_inv E cf (evictLocked e p)"
  by (erule core_inv_shrink) (auto simp: fmlookup_drop_if split: if_splits option.splits)

lemma core_inv_close_pool [simp]: "core_inv E cf p \<Longrightarrow> core_inv E cf (close_pool p)"
  by (erule core_inv_shrink) (auto simp: close_pool_def)

lemma core_inv_bind:
  assumes "core_inv E cf p" "e < next_eid p" "nc (heap p e) \<noteq> None"
  shows "core_inv E cf (bindLocked s e p)"
proof -
  have "sessions_ok (bindLocked s e p)"
    using assms(2,3) core_sessions [OF assms(1)]
    by (auto simp: sessions_ok_def bindLocked_sessions split: if_splits)
  then show ?thesis
    using assms(1) by (simp add: core_inv_def core_parts)
qed

text \<open>Operations that rewrite one entry of the store.\<close>

lemma core_inv_update:
  assumes inv: "core_inv E cf p" and e: "e < next_eid p"
    and ok: "entry_ok (set (granted p)) (next_conn p) x"
    and x: "keys x = keys (heap p e)" "nc x = nc (heap p e)"
    and q: "cfg q = cfg p" "heap q = (heap p)(e := x)" "next_eid q = next_eid p"
      "next_conn q = next_conn p" "granted q = granted p" "live q = live p" "entries q = entries p"
      "sessions q = sessions p"
    and bb: "\<And>k f. fmlookup (byBearer q) k = Some f \<Longrightarrow>
      f < next_eid p \<and> k \<in> set (admitted (heap q f))"
  shows "core_inv E cf q"
proof (rule core_invI)
  have n: "nc (heap q f) = nc (heap p f)" "keys (heap q f) = keys (heap p f)" for f using q x by simp_all
  show "bearers_ok q" using bb q by (simp add: bearers_ok_def)
  show "store_ok q" using ok core_entry [OF inv] q by (simp add: store_ok_def)
  show "conns_apart q" using core_conns [OF inv] q n by (simp add: conns_apart_def)
  show "entries_ok q" using core_entries [OF inv] q n by (simp add: entries_ok_def)
  show "sessions_ok q" using core_sessions [OF inv] q n by (simp add: sessions_ok_def)
qed (use inv q in \<open>simp_all add: core_inv_def live_ok_def\<close>)

lemma core_inv_adopt:
  assumes "core_inv E cf p" "e < next_eid p" "nc (heap p e) \<noteq> None"
    "(b, principal_of (heap p e)) \<in> set (granted p)"
  shows "core_inv E cf (adopt e b p)"
proof (rule core_inv_update [OF assms(1,2)])
  let ?x = "(heap p e)\<lparr>latest := Some b\<rparr>"
  show "entry_ok (set (granted p)) (next_conn p) ?x"
    using core_entry [OF assms(1,2)] assms(3,4) key_ok_cong [of _ "heap p e" ?x]
    by (auto simp: entry_ok_def principal_of_def)
  show "heap (adopt e b p) = (heap p)(e := ?x)" by simp
qed (use core_byBearer [OF assms(1)] in auto)

lemma core_inv_admit:
  assumes inv: "core_inv E cf p" and e: "e < next_eid p" "nc (heap p e) \<noteq> None"
    and g: "(b, principal_of (heap p e)) \<in> set (granted p)"
  shows "core_inv E cf (admitLocked e b p)"
proof (cases "b \<in> set (admitted (heap p e))")
  case True
  then show ?thesis using inv by (simp add: admitLocked_def isAdmittedLocked_def)
next
  case False
  let ?l = "admitted (heap p e)"
  let ?x = "(heap p e)\<lparr>admitted := admitted_after ?l b\<rparr>"
  have ok: "entry_ok (set (granted p)) (next_conn p) (heap p e)" by (rule core_entry [OF inv e(1)])
  note d = entry_ok_distinct [OF ok]
  have adm: "(a, principal_of (heap p e)) \<in> set (granted p)" if "a \<in> set (admitted_after ?l b)" for a
    using that admitted_after_subset [of ?l b] g entry_ok_built(7) [OF ok] e(2) by fastforce
  show ?thesis
  proof (rule core_inv_update [OF inv e(1)])
    show "entry_ok (set (granted p)) (next_conn p) ?x"
      using ok e(2) adm False d key_ok_cong [of _ "heap p e" ?x]
      by (auto simp: entry_ok_def principal_of_def admitted_after_distinct admitted_after_length)
    show "heap (admitLocked e b p) = (heap p)(e := ?x)" using False by (simp add: admitLocked_heap)
    fix k f
    assume "fmlookup (byBearer (admitLocked e b p)) k = Some f"
    then show "f < next_eid p \<and> k \<in> set (admitted (heap (admitLocked e b p) f))"
      using core_byBearer [OF inv, of k f] d False e(1) aged_out_split [of ?l]
      by (auto simp: admitLocked_byBearer admitLocked_heap admitted_after_set split: if_splits)
        (metis Un_iff set_append)
  qed auto
qed

lemma core_inv_start_build:
  assumes "core_inv E cf p" "e < next_eid p" "build (heap p e) = OnceFresh"
  shows "core_inv E cf (start_build e p)"
proof (rule core_inv_update [OF assms(1,2)])
  let ?x = "(heap p e)\<lparr>build := OnceRunning\<rparr>"
  have ok: "entry_ok (set (granted p)) (next_conn p) (heap p e)" by (rule core_entry [OF assms(1,2)])
  show "entry_ok (set (granted p)) (next_conn p) ?x"
    using ok assms(3) key_ok_cong [of _ "heap p e" ?x]
    by (cases "nc (heap p e)") (auto simp: entry_ok_def principal_of_def)
  show "heap (start_build e p) = (heap p)(e := ?x)" by simp
qed (use core_byBearer [OF assms(1)] in auto)

lemma core_inv_new:
  assumes inv: "core_inv E cf p"
    and k: "\<And>pr. k = principal_key pr \<Longrightarrow> plain_account pr \<Longrightarrow> (b, pr) \<in> set (granted p)"
  shows "core_inv E cf (snd (newEntryLocked k b p))"
proof -
  let ?q = "snd (newEntryLocked k b p)"
  have ok: "entry_ok (set (granted p)) (next_conn p) (new_entry k b)"
    using k by (auto simp: entry_ok_def key_ok_def)
  show ?thesis
  proof (rule core_invI)
    show "store_ok ?q"
      using ok core_entry [OF inv] by (simp add: store_ok_def less_Suc_eq)
    show "conns_apart ?q"
      using core_conns [OF inv] by (auto simp: conns_apart_def less_Suc_eq)
    show "entries_ok ?q"
      using core_entries [OF inv] by (auto simp: entries_ok_def less_Suc_eq)
    show "bearers_ok ?q"
      using core_byBearer [OF inv] by (auto simp: bearers_ok_def less_Suc_eq)
    show "sessions_ok ?q"
      using core_sessions [OF inv] by (auto simp: sessions_ok_def less_Suc_eq)
  qed (use inv in \<open>simp_all add: core_inv_def live_ok_def\<close>)
qed

section \<open>Admission attempts\<close>

lemma dial_result:
  "dial E b p = (q, t, co, r) \<Longrightarrow>
     t = attempts p \<and>
     (case co of
        None \<Rightarrow> live q = live p \<and> next_conn q = next_conn p \<and> granted q = granted p \<and>
          (\<exists>x. r = Err x)
      | Some c \<Rightarrow> natsConnect E t b = None \<and> c = next_conn p \<and> live q = insert c (live p) \<and> next_conn q = Suc c \<and>
          r = principalOf E t b (root (Segment E) (cfg p)) \<and>
          granted q = (case r of Ok pr \<Rightarrow> (b, pr) # granted p | _ \<Rightarrow> granted p))"
  by (auto simp: dial_def Let_def split: option.splits)

lemma dial_granted_mono: "set (granted p) \<subseteq> set (granted (fst (dial E b p)))"
  by (auto simp: dial_def Let_def split: option.splits res.splits)

lemma dial_next_conn_mono: "next_conn p \<le> next_conn (fst (dial E b p))"
  by (auto simp: dial_def Let_def split: option.splits)

lemma core_inv_dial:
  assumes inv: "core_inv E cf p"
  shows "core_inv E cf (fst (dial E b p))"
proof -
  obtain q t co r where d: "dial E b p = (q, t, co, r)" by (metis prod_cases4)
  have q: "cfg q = cfg p" "heap q = heap p" "next_eid q = next_eid p" "entries q = entries p"
      "byBearer q = byBearer p" "sessions q = sessions p"
    using d dial_fields [of E b p] by simp_all
  have mono: "set (granted p) \<subseteq> set (granted q)" "next_conn p \<le> next_conn q"
    using dial_granted_mono [of p E b] dial_next_conn_mono [of p E b] d by simp_all
  have g: "grants_ok E cf (set (granted q))"
    using dial_result [OF d] core_granted [OF inv] core_cfg [OF inv]
    by (fastforce simp: grants_ok_def split: option.splits res.splits)
  have l: "live_ok q"
    using dial_result [OF d] core_live [OF inv]
    by (auto simp: live_ok_def split: option.splits dest: less_SucI)
  have st: "store_ok q"
    using core_entry [OF inv] mono q by (auto simp: store_ok_def intro: entry_ok_mono)
  have "core_inv E cf q"
    using inv g l q st unfolding core_inv_def by (simp add: entries_ok_def bearers_ok_def sessions_ok_def conns_apart_def)
  then show ?thesis using d by simp
qed

lemma core_inv_probe:
  assumes "core_inv E cf p"
  shows "core_inv E cf (fst (probe E b p))"
proof -
  obtain q t co r where d: "dial E b p = (q, t, co, r)" by (metis prod_cases4)
  have "core_inv E cf q" using core_inv_dial [OF assms, of b] d by simp
  then show ?thesis using d by (cases co) (simp_all add: probe_def)
qed

text \<open>A probe leaves the open connections as they were, and a principal it returns is granted.\<close>

lemma probe_live:
  assumes "core_inv E cf p"
  shows "live (fst (probe E b p)) = live p"
proof -
  obtain q t co r where d: "dial E b p = (q, t, co, r)" by (metis prod_cases4)
  have "next_conn p \<notin> live p" using core_live [OF assms] by blast
  then show ?thesis
    using dial_result [OF d] d by (cases co) (auto simp: probe_def)
qed

lemma probe_Ok:
  assumes "probe E b p = (q, Ok pr)"
  shows "(b, pr) \<in> set (granted q)" "principalOf E (attempts p) b (root (Segment E) (cfg p)) = Ok pr"
    "natsConnect E (attempts p) b = None"
proof -
  obtain q' t co r where d: "dial E b p = (q', t, co, r)" by (metis prod_cases4)
  then obtain c where c: "co = Some c" "r = Ok pr" "q = close_conn c q'"
    using assms dial_result [OF d] by (cases co) (auto simp: probe_def)
  show "(b, pr) \<in> set (granted q)" "principalOf E (attempts p) b (root (Segment E) (cfg p)) = Ok pr"
    using dial_result [OF d] c by (auto simp: eq_commute [of "Ok pr"])
  show "natsConnect E (attempts p) b = None"
    using d c by (auto simp: dial_def Let_def split: option.splits)
qed

lemma probe_granted_mono: "set (granted p) \<subseteq> set (granted (fst (probe E b p)))"
  using dial_granted_mono [of p E b] by (auto simp: probe_def split: option.splits prod.splits)

text \<open>
  Finishing a build: the entry is unbuilt, the dial used its latest bearer, and the
  connection is not yet any entry's.
\<close>

definition dial_ok :: "edge \<Rightarrow> pool \<Rightarrow> eid \<Rightarrow> dialled \<Rightarrow> bool" where
  "dial_ok E p e d \<longleftrightarrow>
     (case d of (t, co, r) \<Rightarrow>
        (co = None \<longrightarrow> (\<exists>x. r = Err x)) \<and> r \<noteq> Panic \<and>
        (\<forall>c. co = Some c \<longrightarrow> c < next_conn p \<and> (\<forall>f < next_eid p. nc (heap p f) \<noteq> Some c)) \<and>
        (\<forall>pr. r = Ok pr \<longrightarrow> valid_principal pr \<and> (\<exists>b. latest (heap p e) = Some b \<and> (b, pr) \<in> set (granted p))))"

lemma core_inv_fail_build:
  assumes inv: "core_inv E cf p" and e: "e < next_eid p" "nc (heap p e) = None"
  shows "core_inv E cf (fail_build e x p)"
proof (rule core_inv_update [OF inv e(1)])
  let ?x = "(heap p e)\<lparr>build := OnceDone, err := Some x\<rparr>"
  show "entry_ok (set (granted p)) (next_conn p) ?x"
    using core_entry [OF inv e(1)] e(2) key_ok_cong [of _ "heap p e" ?x]
    by (auto simp: entry_ok_def principal_of_def)
  show "heap (fail_build e x p) = (heap p)(e := ?x)" by (simp add: fail_build_def)
qed (use core_byBearer [OF inv] in \<open>auto simp: fail_build_def\<close>)

lemma core_inv_built:
  assumes inv: "core_inv E cf p" and sane: "sane_edge E cf" and e: "e < next_eid p" "nc (heap p e) = None"
    "err (heap p e) = None"
    and c: "c < next_conn p" "\<forall>f < next_eid p. nc (heap p f) \<noteq> Some c"
    and pr: "valid_principal pr" "latest (heap p e) = Some b" "(b, pr) \<in> set (granted p)"
  shows "core_inv E cf (upd_entry e (\<lambda>n. n\<lparr>build := OnceDone, nc := Some c, rc := Some c,
     persona := fst pr, account := snd pr, server := Some (Server c (fst pr))\<rparr>) p)"
    (is "core_inv E cf ?q")
proof -
  let ?x = "(heap p e)\<lparr>build := OnceDone, nc := Some c, rc := Some c,
     persona := fst pr, account := snd pr, server := Some (Server c (fst pr))\<rparr>"
  have ok: "entry_ok (set (granted p)) (next_conn p) (heap p e)" by (rule core_entry [OF inv e(1)])
  have key: "key_ok (set (granted p)) ?x"
    unfolding key_ok_def
  proof (intro allI impI)
    fix pr'
    assume "keys ?x = [principal_key pr'] \<and> plain_account pr'"
    then have "(b, pr') \<in> set (granted p)"
      using key_okD [OF entry_ok_key [OF ok], of pr'] e(2) pr(2) by auto
    then show "if nc ?x = None then \<exists>b. latest ?x = Some b \<and> (b, pr') \<in> set (granted p) else principal_of ?x = pr'"
      using granted_unique [OF sane inv pr(3)] by (simp add: principal_of_def)
  qed
  have x: "entry_ok (set (granted p)) (next_conn p) ?x"
    using ok e key pr c(1) entry_ok_unbuilt [OF ok e(2)]
    by (auto simp: entry_ok_def principal_of_def)
  have adm: "admitted (heap p e) = []" by (rule entry_ok_unbuilt(4) [OF ok e(2)])
  show ?thesis
  proof (rule core_invI)
    show "store_ok ?q"
      using x core_entry [OF inv] by (simp add: store_ok_def)
    show "conns_apart ?q"
      using core_conns [OF inv] c(2) by (auto simp: conns_apart_def)
    show "bearers_ok ?q"
      using core_byBearer [OF inv] by (auto simp: bearers_ok_def)
    show "sessions_ok ?q"
      using core_sessions [OF inv] by (auto simp: sessions_ok_def)
    show "entries_ok ?q"
      using core_entries [OF inv] by (auto simp: entries_ok_def)
  qed (use inv in \<open>simp_all add: core_inv_def live_ok_def\<close>)
qed

lemma core_inv_finish:
  assumes inv: "core_inv E cf p" and sane: "sane_edge E cf" and e: "e < next_eid p" "nc (heap p e) = None"
    "err (heap p e) = None" and d: "dial_ok E p e d"
  shows "core_inv E cf (connect_finish E e d p)"
proof -
  obtain t co r where dd: "d = (t, co, r)" by (metis prod_cases3)
  show ?thesis
  proof (cases r)
    case Panic
    then show ?thesis using d dd by (simp add: dial_ok_def)
  next
    case (Err x)
    then show ?thesis
      using inv e dd by (cases co) (simp_all add: connect_finish_def core_inv_fail_build)
  next
    case (Ok pr)
    then obtain c where c: "co = Some c" "c < next_conn p" "\<forall>f < next_eid p. nc (heap p f) \<noteq> Some c"
      using d dd by (cases co) (auto simp: dial_ok_def)
    obtain b where b: "valid_principal pr" "latest (heap p e) = Some b" "(b, pr) \<in> set (granted p)"
      using d unfolding dial_ok_def dd Ok by (simp only: prod.case) blast
    show ?thesis
    proof (cases "open_realm E (cfg p) t pr")
      case (Some x)
      then show ?thesis
        using dd Ok c inv e by (simp add: connect_finish_def core_inv_fail_build)
    next
      case None
      let ?p = "case ensureSigningKey E t (fst pr) of
                  Some w \<Rightarrow> log_line (LogKeyNotPublished (fst pr) w) p | None \<Rightarrow> p"
      have p: "core_inv E cf ?p" "heap ?p = heap p" "next_eid ?p = next_eid p"
          "next_conn ?p = next_conn p" "granted ?p = granted p"
        using inv by (auto split: option.splits)
      have "core_inv E cf (upd_entry e (\<lambda>n. n\<lparr>build := OnceDone, nc := Some c, rc := Some c,
          persona := fst pr, account := snd pr, server := Some (Server c (fst pr))\<rparr>) ?p)"
        using core_inv_built [OF p(1) sane] p(2-5) e c(2,3) b by simp
      then show ?thesis
        using None dd Ok c(1) by (simp add: connect_finish_def Let_def)
    qed
  qed
qed

lemma dial_ok_dial:
  assumes inv: "core_inv E cf p" and sane: "sane_edge E cf" and l: "latest (heap p e) = Some b"
  shows "dial_ok E (fst (dial E b p)) e (snd (dial E b p))"
proof -
  obtain q t co r where d: "dial E b p = (q, t, co, r)" by (metis prod_cases4)
  have q: "heap q = heap p" "next_eid q = next_eid p"
    using d dial_fields [of E b p] by simp_all
  have fresh: "\<forall>f < next_eid p. nc (heap p f) \<noteq> Some (next_conn p)"
    using core_entry [OF inv] by (metis entry_ok_built(5) nat_less_le)
  show ?thesis
    using dial_result [OF d] d q fresh l core_cfg [OF inv] sane_edge_no_panic [OF sane]
      principalOf_valid
    by (cases co) (auto simp: dial_ok_def split: res.splits)
qed

end
