(* ===== verification/PoolConc.thy ===== *)
theory PoolConc
  imports PoolInv
begin

text \<open>
  Requests that run at the same time. A thread is one call of \<open>resolve\<close>; its program points lie
  where the code takes or drops the lock, enters or leaves \<open>build.Do\<close>, dials, or touches an
  entry without the lock, so that every critical section is one step and everything else may
  interleave. Other steps of the system are the NATS server closing a connection, the SDK
  minting a session id for a request that was served without one, and \<open>Close\<close>.
\<close>

section \<open>Threads\<close>

datatype probe_for = ForBound eid | ForCandidate eid

text \<open>Who called \<open>build.Do\<close>: \<open>resolve\<close> itself or \<open>ensurePrincipal\<close>.\<close>

datatype caller = FromResolve | FromEnsure

datatype pc =
    AtLock                                       \<comment> \<open>before \<open>p.mu.Lock()\<close> of \<open>resolve\<close>\<close>
  | AtAdopt eid bool                             \<comment> \<open>before \<open>e.adopt\<close>; whether it is logged\<close>
  | AtProbe probe_for                            \<comment> \<open>before \<open>p.probe\<close>\<close>
  | AtCompare probe_for principal                \<comment> \<open>before the principals are compared\<close>
  | AtAdmitBound eid                             \<comment> \<open>before the lock of \<open>candidateForBound\<close>\<close>
  | AtAdmitCand eid                              \<comment> \<open>before the lock of \<open>candidate\<close>, same principal\<close>
  | AtEnsure principal                           \<comment> \<open>before the lock of \<open>ensurePrincipal\<close>\<close>
  | AtBuild eid string caller                    \<comment> \<open>before \<open>build.Do\<close>\<close>
  | AtDial eid string caller                     \<comment> \<open>in \<open>Do\<close>, before \<open>nats.Connect\<close>\<close>
  | AtFinish eid string caller dialled           \<comment> \<open>in \<open>Do\<close>, after the principal is read\<close>
  | AtBuilt eid string caller                    \<comment> \<open>after \<open>Do\<close>, before \<open>e.err\<close> is read\<close>
  | AtEvict eid string node_error                \<comment> \<open>before the failed entry is evicted\<close>
  | AtAdmitBuilt eid                             \<comment> \<open>before the last lock of \<open>resolve\<close>\<close>
  | AtAdmitOwn eid                               \<comment> \<open>before the last lock of \<open>candidate\<close>\<close>
  | Returned "(node_error, eid) res"

definition route_pc :: "route \<Rightarrow> pc" where
  "route_pc r =
     (case r of
        ServeAdopt e \<Rightarrow> AtAdopt e False
      | RefuseMismatch \<Rightarrow> Returned (Err SessionPrincipalMismatch)
      | ProbeForBound e \<Rightarrow> AtProbe (ForBound e)
      | BuildEntry e hint \<Rightarrow> AtBuild e hint FromResolve
      | ProbeCandidate e \<Rightarrow> AtProbe (ForCandidate e))"

definition probe_log :: "bearer \<Rightarrow> probe_for \<Rightarrow> string" where
  "probe_log b k = (case k of ForBound _ \<Rightarrow> ''session-refresh'' | ForCandidate _ \<Rightarrow> routeHint b)"

text \<open>One step of a thread; \<open>None\<close> where it has returned or waits for a running build.\<close>

fun thread_step :: "edge \<Rightarrow> bearer \<Rightarrow> sid \<Rightarrow> pool \<Rightarrow> pc \<Rightarrow> (pool \<times> pc) option" where
  "thread_step E b s p AtLock =
     (case resolve_locked b s p of (q, r) \<Rightarrow> Some (q, route_pc r))"
| "thread_step E b s p (AtAdopt e logged) =
     Some (if logged then logf ''probe adopted fresh bearer'' (principal_of (heap p e)) (adopt e b p)
           else adopt e b p, Returned (Ok e))"
| "thread_step E b s p (AtProbe k) =
     (case probe E b p of
        (q, Ok pr) \<Rightarrow> Some (q, AtCompare k pr)
      | (q, Err x) \<Rightarrow> Some (logRefused (probe_log b k) x q, Returned (Err x))
      | (q, Panic) \<Rightarrow> Some (q, Returned Panic))"
| "thread_step E b s p (AtCompare (ForBound e) pr) =
     Some (p, if pr \<noteq> principal_of (heap p e) then Returned (Err SessionPrincipalMismatch)
              else AtAdmitBound e)"
| "thread_step E b s p (AtCompare (ForCandidate e) pr) =
     (if pr = principal_of (heap p e) then Some (p, AtAdmitCand e)
      else Some (logf ''probe diverted colliding hint'' pr p, AtEnsure pr))"
| "thread_step E b s p (AtAdmitBound e) = Some (admitLocked e b p, AtAdopt e True)"
| "thread_step E b s p (AtAdmitCand e) = Some (admit_bind e b s p, AtAdopt e True)"
| "thread_step E b s p (AtEnsure pr) =
     (case ensure_locked b pr p of (own, q) \<Rightarrow> Some (q, AtBuild own (principal_key pr) FromEnsure))"
| "thread_step E b s p (AtBuild e h c) =
     (case build (heap p e) of
        OnceFresh \<Rightarrow> Some (start_build e p, AtDial e h c)
      | OnceRunning \<Rightarrow> None
      | OnceDone \<Rightarrow> Some (p, AtBuilt e h c))"
| "thread_step E b s p (AtDial e h c) =
     (case dial E (token_of p e) p of (q, d) \<Rightarrow> Some (q, AtFinish e h c d))"
| "thread_step E b s p (AtFinish e h c d) =
     Some (connect_finish E e d p, if panicked d then Returned Panic else AtBuilt e h c)"
| "thread_step E b s p (AtBuilt e h c) =
     Some (p, case err (heap p e) of
                Some x \<Rightarrow> AtEvict e h x
              | None \<Rightarrow> (case c of FromResolve \<Rightarrow> AtAdmitBuilt e | FromEnsure \<Rightarrow> AtAdmitOwn e))"
| "thread_step E b s p (AtEvict e h x) = Some (build_failed e h x p, Returned (Err x))"
| "thread_step E b s p (AtAdmitBuilt e) = Some (admit_bind e b s p, Returned (Ok e))"
| "thread_step E b s p (AtAdmitOwn e) = Some (admit_bind e b s p, AtAdopt e False)"
| "thread_step E b s p (Returned r) = None"

section \<open>The system\<close>

record thread =
  t_bearer :: bearer
  t_sid :: sid
  t_pc :: pc

record sys =
  pl :: pool
  threads :: "thread list"

inductive sys_step :: "edge \<Rightarrow> sys \<Rightarrow> sys \<Rightarrow> bool" for E where
  request: "b \<noteq> [] \<Longrightarrow>
     sys_step E S (S\<lparr>threads := threads S @ [\<lparr>t_bearer = b, t_sid = s, t_pc = AtLock\<rparr>]\<rparr>)"
| run: "i < length (threads S) \<Longrightarrow> th = threads S ! i \<Longrightarrow>
     thread_step E (t_bearer th) (t_sid th) (pl S) (t_pc th) = Some (q, pc') \<Longrightarrow>
     sys_step E S (S\<lparr>pl := q, threads := (threads S)[i := th\<lparr>t_pc := pc'\<rparr>]\<rparr>)"
| conn_lost: "sys_step E S (S\<lparr>pl := close_conn c (pl S)\<rparr>)"
| session_minted: "th \<in> set (threads S) \<Longrightarrow> t_sid th = [] \<Longrightarrow> t_pc th = Returned (Ok e) \<Longrightarrow>
     sys_step E S (S\<lparr>pl := bindSession s e (pl S)\<rparr>)"
| close: "sys_step E S (S\<lparr>pl := close_pool (pl S)\<rparr>)"

inductive_cases sys_stepE: "sys_step E S T"

definition start_sys :: "config \<Rightarrow> sys" where
  "start_sys cf = \<lparr>pl = newPool cf, threads = []\<rparr>"

definition reachable :: "edge \<Rightarrow> config \<Rightarrow> sys \<Rightarrow> bool" where
  "reachable E cf S = (sys_step E)\<^sup>*\<^sup>* (start_sys cf) S"

section \<open>A request that runs alone\<close>

definition lone_step :: "edge \<Rightarrow> bearer \<Rightarrow> sid \<Rightarrow> pool \<times> pc \<Rightarrow> pool \<times> pc \<Rightarrow> bool" where
  "lone_step E b s x y = (thread_step E b s (fst x) (snd x) = Some y)"

definition lone_run :: "edge \<Rightarrow> bearer \<Rightarrow> sid \<Rightarrow> pool \<times> pc \<Rightarrow> pool \<times> pc \<Rightarrow> bool" where
  "lone_run E b s = (lone_step E b s)\<^sup>*\<^sup>*"

text \<open>No build is under way: what holds between requests that run one after the other.\<close>

definition no_build_running :: "pool \<Rightarrow> bool" where
  "no_build_running p = (\<forall>e. build (heap p e) \<noteq> OnceRunning)"

lemma lone_run_refl [simp]: "lone_run E b s x x"
  by (simp add: lone_run_def)

lemma lone_run_step:
  "thread_step E b s p pc = Some y \<Longrightarrow> lone_run E b s y z \<Longrightarrow> lone_run E b s (p, pc) z"
  unfolding lone_run_def lone_step_def
  by (rule converse_rtranclp_into_rtranclp) auto

lemma lone_run_trans: "lone_run E b s x y \<Longrightarrow> lone_run E b s y z \<Longrightarrow> lone_run E b s x z"
  unfolding lone_run_def by (rule rtranclp_trans)

text \<open>The result of a lone run does not depend on how many steps are taken: steps are a function.\<close>

lemma lone_run_deterministic:
  assumes "lone_run E b s x (p, Returned r)" "lone_run E b s x (p', Returned r')"
  shows "p = p' \<and> r = r'"
  using assms unfolding lone_run_def
proof (induction rule: converse_rtranclp_induct)
  case base
  then show ?case by (auto simp: lone_step_def elim: converse_rtranclpE)
next
  case (step x y)
  show ?case
    using step.prems
  proof (cases rule: converse_rtranclpE)
    case base
    then show ?thesis using step.hyps(1) by (simp add: lone_step_def)
  next
    case (step z)
    then have "z = y" using step.hyps(1) by (simp add: lone_step_def)
    then show ?thesis using step step.IH by blast
  qed
qed

end
