(* ===== verification/PoolConcInv.thy ===== *)
theory PoolConcInv
  imports PoolConc
begin

text \<open>
  The invariant of the concurrent system: the core invariant of the pool, for every thread
  what it knows at its program point, and that builds in progress have exactly one owner.
\<close>

section \<open>What a thread may rely on\<close>

definition built_entry :: "pool \<Rightarrow> eid \<Rightarrow> bool" where
  "built_entry p e \<longleftrightarrow> e < next_eid p \<and> nc (heap p e) \<noteq> None"

text \<open>The bearer was admitted as the entry's principal.\<close>

definition trusted :: "pool \<Rightarrow> bearer \<Rightarrow> eid \<Rightarrow> bool" where
  "trusted p b e \<longleftrightarrow> built_entry p e \<and> (b, principal_of (heap p e)) \<in> set (granted p)"

text \<open>Why a caller of \<open>build.Do\<close> may use the entry once it is built.\<close>

fun claim_ok :: "pool \<Rightarrow> bearer \<Rightarrow> eid \<Rightarrow> string \<Rightarrow> caller \<Rightarrow> bool" where
  "claim_ok p b e h FromResolve \<longleftrightarrow> e < next_eid p \<and>
     (if nc (heap p e) = None then latest (heap p e) = Some b
      else (b, principal_of (heap p e)) \<in> set (granted p))"
| "claim_ok p b e h FromEnsure \<longleftrightarrow> e < next_eid p \<and> keys (heap p e) = [h] \<and>
     (\<exists>pr. h = principal_key pr \<and> (b, pr) \<in> set (granted p))"

definition building :: "pool \<Rightarrow> eid \<Rightarrow> bool" where
  "building p e \<longleftrightarrow> e < next_eid p \<and> build (heap p e) = OnceRunning"

fun target_ok :: "pool \<Rightarrow> probe_for \<Rightarrow> bool" where
  "target_ok p (ForBound e) = built_entry p e"
| "target_ok p (ForCandidate e) = (e < next_eid p)"

fun thread_ok :: "edge \<Rightarrow> pool \<Rightarrow> bearer \<Rightarrow> pc \<Rightarrow> bool" where
  "thread_ok E p b AtLock = True"
| "thread_ok E p b (AtAdopt e l) = trusted p b e"
| "thread_ok E p b (AtProbe k) = target_ok p k"
| "thread_ok E p b (AtCompare k pr) = (target_ok p k \<and> (b, pr) \<in> set (granted p) \<and> valid_principal pr)"
| "thread_ok E p b (AtAdmitBound e) = trusted p b e"
| "thread_ok E p b (AtAdmitCand e) = trusted p b e"
| "thread_ok E p b (AtEnsure pr) = ((b, pr) \<in> set (granted p) \<and> valid_principal pr)"
| "thread_ok E p b (AtBuild e h c) = claim_ok p b e h c"
| "thread_ok E p b (AtDial e h c) = (claim_ok p b e h c \<and> building p e)"
| "thread_ok E p b (AtFinish e h c d) = (claim_ok p b e h c \<and> building p e \<and> dial_ok E p e d)"
| "thread_ok E p b (AtBuilt e h c) = (claim_ok p b e h c \<and> build (heap p e) = OnceDone)"
| "thread_ok E p b (AtEvict e h x) = (e < next_eid p \<and> err (heap p e) = Some x)"
| "thread_ok E p b (AtAdmitBuilt e) = trusted p b e"
| "thread_ok E p b (AtAdmitOwn e) = trusted p b e"
| "thread_ok E p b (Returned r) = (case r of Ok e \<Rightarrow> trusted p b e | Err _ \<Rightarrow> True | Panic \<Rightarrow> False)"

section \<open>Calm steps\<close>

text \<open>
  Every step but starting and finishing a build is calm: old entries keep key, connection,
  principal, build state and, while unbuilt, the latest bearer; new entries are fresh.
\<close>

definition calm :: "pool \<Rightarrow> pool \<Rightarrow> bool" where
  "calm p q \<longleftrightarrow>
     next_eid p \<le> next_eid q \<and> set (granted p) \<subseteq> set (granted q) \<and> next_conn p \<le> next_conn q \<and>
     (\<forall>e < next_eid p. keys (heap q e) = keys (heap p e) \<and> nc (heap q e) = nc (heap p e) \<and>
        err (heap q e) = err (heap p e) \<and> build (heap q e) = build (heap p e) \<and>
        principal_of (heap q e) = principal_of (heap p e) \<and>
        (nc (heap p e) = None \<longrightarrow> latest (heap q e) = latest (heap p e))) \<and>
     (\<forall>e. next_eid p \<le> e \<longrightarrow> e < next_eid q \<longrightarrow> nc (heap q e) = None \<and> build (heap q e) = OnceFresh)"

lemma calm_store:
  assumes "heap q = heap p" "next_eid q = next_eid p" "set (granted p) \<subseteq> set (granted q)"
    "next_conn p \<le> next_conn q"
  shows "calm p q"
  using assms by (simp add: calm_def)

lemma calm_refl [simp]: "calm p p"
  by (rule calm_store) auto

lemma calm_trans:
  assumes "calm p q" "calm q r"
  shows "calm p r"
proof -
  have "nc (heap r e) = None \<and> build (heap r e) = OnceFresh"
    if "next_eid p \<le> e" "e < next_eid r" for e
    using assms that by (cases "e < next_eid q") (auto simp: calm_def)
  then show ?thesis using assms unfolding calm_def by auto
qed

lemma calm_old:
  assumes "calm p q" "e < next_eid p"
  shows "e < next_eid q" "keys (heap q e) = keys (heap p e)" "nc (heap q e) = nc (heap p e)"
    "err (heap q e) = err (heap p e)" "build (heap q e) = build (heap p e)"
    "principal_of (heap q e) = principal_of (heap p e)"
    "nc (heap p e) = None \<Longrightarrow> latest (heap q e) = latest (heap p e)"
  using assms unfolding calm_def by auto

lemma calm_granted: "calm p q \<Longrightarrow> x \<in> set (granted p) \<Longrightarrow> x \<in> set (granted q)"
  unfolding calm_def by auto

lemma calm_new:
  "calm p q \<Longrightarrow> e < next_eid q \<Longrightarrow> \<not> e < next_eid p \<Longrightarrow> nc (heap q e) = None \<and> build (heap q e) = OnceFresh"
  unfolding calm_def by auto

lemma calm_evict [simp]: "calm p (evictLocked e p)"
  by (rule calm_store) auto

lemma calm_bind [simp]: "calm p (bindLocked s e p)"
  by (rule calm_store) auto

lemma calm_log [simp]: "calm p (log_line l p)" "calm p (logRefused h x p)" "calm p (logf v pr p)"
  by (rule calm_store; simp)+

lemma calm_close_conn [simp]: "calm p (close_conn c p)"
  by (rule calm_store) auto

lemma calm_close_pool [simp]: "calm p (close_pool p)"
  by (rule calm_store) (auto simp: close_pool_def)

lemma calm_dial [simp]: "calm p (fst (dial E b p))"
  by (rule calm_store) (simp_all add: dial_granted_mono dial_next_conn_mono)

lemma probe_next_conn_mono: "next_conn p \<le> next_conn (fst (probe E b p))"
  using dial_next_conn_mono [of p E b] by (auto simp: probe_def split: option.splits prod.splits)

lemma calm_probe [simp]: "calm p (fst (probe E b p))"
  by (rule calm_store) (simp_all add: probe_granted_mono probe_next_conn_mono)

lemma calm_admit [simp]: "calm p (admitLocked e b p)"
  by (auto simp: calm_def admitLocked_heap principal_of_def)

lemma calm_admit_bind [simp]: "calm p (admit_bind e b s p)"
  unfolding admit_bind_def by (rule calm_trans [OF calm_admit calm_bind])

lemma calm_adopt: "nc (heap p e) \<noteq> None \<Longrightarrow> calm p (adopt e b p)"
  by (auto simp: calm_def principal_of_def)

lemma calm_new_entry [simp]: "calm p (snd (newEntryLocked k b p))"
  by (auto simp: calm_def less_Suc_eq)

section \<open>Critical sections\<close>

text \<open>What the first critical section of \<open>resolve\<close> hands to the rest.\<close>

fun route_ok :: "pool \<Rightarrow> bearer \<Rightarrow> route \<Rightarrow> bool" where
  "route_ok p b (ServeAdopt e) = trusted p b e"
| "route_ok p b RefuseMismatch = True"
| "route_ok p b (ProbeForBound e) = built_entry p e"
| "route_ok p b (BuildEntry e h) = claim_ok p b e h FromResolve"
| "route_ok p b (ProbeCandidate e) = (e < next_eid p)"

lemma admitted_trusted:
  assumes "core_inv E cf p" "e < next_eid p" "b \<in> set (admitted (heap p e))"
  shows "trusted p b e"
proof -
  have ok: "entry_ok (set (granted p)) (next_conn p) (heap p e)" by (rule core_entry [OF assms(1,2)])
  obtain c where c: "nc (heap p e) = Some c" using entry_ok_admitted [OF ok assms(3)] by blast
  then show ?thesis
    using entry_ok_built(7) [OF ok c assms(3)] assms(2) by (simp add: trusted_def built_entry_def)
qed

lemma latest_claim:
  assumes "core_inv E cf p" "e < next_eid p" "sameLatest p e b"
  shows "claim_ok p b e h FromResolve"
proof -
  have ok: "entry_ok (set (granted p)) (next_conn p) (heap p e)" by (rule core_entry [OF assms(1,2)])
  have "latest (heap p e) = Some b"
    using assms(3) by (auto simp: sameLatest_def split: option.splits)
  then show ?thesis
    using assms(2) entry_ok_built(8) [OF ok] by auto
qed

lemma routeByHint_ok:
  assumes inv: "core_inv E cf p" and r: "routeByHint b p = (q, r)"
  shows "core_inv E cf q \<and> calm p q \<and> route_ok q b r"
proof -
  let ?h = "routeHint b"
  have alloc: "core_inv E cf (snd (newEntryLocked ?h b p'))" if "core_inv E cf p'" for p'
    using core_inv_new [OF that] routeHint_not_principal_key by metis
  have pick: "core_inv E cf q \<and> calm p q \<and> route_ok q b r"
    if "core_inv E cf q" "calm p q" "e < next_eid q"
      "r = (if sameLatest q e b then BuildEntry e ?h else ProbeCandidate e)" for e
    using that latest_claim [OF that(1,3), of b ?h] by auto
  have fresh: "core_inv E cf q \<and> calm p q \<and> route_ok q b r"
    if "core_inv E cf p'" "calm p p'" "q = snd (newEntryLocked ?h b p')"
      "r = (if sameLatest q (next_eid p') b then BuildEntry (next_eid p') ?h else ProbeCandidate (next_eid p'))"
      for p'
    using pick [of "next_eid p'"] alloc [OF that(1)] calm_trans [OF that(2) calm_new_entry] that(3,4)
    by auto
  show ?thesis
  proof (cases "fmlookup (entries p) ?h")
    case None
    then show ?thesis
      using r inv by (intro fresh [of p]) (auto simp: routeByHint_def Let_def newEntryLocked_def)
  next
    case (Some e)
    show ?thesis
    proof (cases "aliveLocked p e")
      case True
      then show ?thesis
        using r Some inv core_entries [OF inv Some]
        by (intro pick [of e]) (auto simp: routeByHint_def Let_def)
    next
      case False
      then show ?thesis
        using r Some inv
        by (intro fresh [of "evictLocked e p"]) (auto simp: routeByHint_def Let_def newEntryLocked_def)
    qed
  qed
qed

lemma routeByBearer_ok:
  assumes inv: "core_inv E cf p" and r: "routeByBearer b s p = (q, r)"
  shows "core_inv E cf q \<and> calm p q \<and> route_ok q b r"
proof (cases "fmlookup (byBearer p) b")
  case None
  then show ?thesis using r routeByHint_ok [OF inv] by (simp add: routeByBearer_def)
next
  case (Some e)
  note ep = core_byBearer [OF inv Some]
  have t: "trusted p b e" using admitted_trusted [OF inv] ep by blast
  show ?thesis
  proof (cases "aliveLocked p e")
    case True
    then have "q = bindLocked s e p" "r = ServeAdopt e" using r Some by (auto simp: routeByBearer_def)
    moreover have "core_inv E cf (bindLocked s e p)"
      using core_inv_bind [OF inv] t by (simp add: trusted_def built_entry_def)
    ultimately show ?thesis using t by (simp add: trusted_def built_entry_def)
  next
    case False
    then have "routeByHint b (evictLocked e p) = (q, r)" using r Some by (simp add: routeByBearer_def)
    then show ?thesis
      using routeByHint_ok [OF core_inv_evict [OF inv]] calm_trans [OF calm_evict] by blast
  qed
qed

lemma resolve_locked_ok:
  assumes inv: "core_inv E cf p" and r: "resolve_locked b s p = (q, r)"
  shows "core_inv E cf q \<and> calm p q \<and> route_ok q b r"
proof (cases "if s = [] then None else fmlookup (sessions p) s")
  case None
  then show ?thesis using r routeByBearer_ok [OF inv] by (simp add: resolve_locked_def)
next
  case (Some e)
  then have ep: "e < next_eid p" "nc (heap p e) \<noteq> None"
    using core_sessions [OF inv, of s e] by (auto split: if_splits)
  show ?thesis
  proof (cases "aliveLocked p e")
    case True
    then show ?thesis
      using r Some inv ep admitted_trusted [OF inv ep(1), of b]
      by (auto simp: resolve_locked_def isAdmittedLocked_def built_entry_def split: if_splits option.splits)
  next
    case False
    then have "routeByBearer b s (evictLocked e p) = (q, r)"
      using r Some by (simp add: resolve_locked_def)
    then show ?thesis
      using routeByBearer_ok [OF core_inv_evict [OF inv]] calm_trans [OF calm_evict] by blast
  qed
qed

lemma ensure_locked_ok:
  assumes inv: "core_inv E cf p" and sane: "sane_edge E cf" and g: "(b, pr) \<in> set (granted p)"
    and r: "ensure_locked b pr p = (own, q)"
  shows "core_inv E cf q \<and> calm p q \<and> own < next_eid q \<and> keys (heap q own) = [principal_key pr]"
proof -
  have key: "(b, pr') \<in> set (granted p')"
    if "principal_key pr = principal_key pr'" "plain_account pr'" "granted p' = granted p" for pr' p'
    using principal_key_inj [OF granted_plain [OF sane inv g] that(2,1)] g that(3) by simp
  have new: "core_inv E cf (snd (newEntryLocked (principal_key pr) b p'))"
    if "core_inv E cf p'" "granted p' = granted p" for p'
    using core_inv_new [OF that(1)] key that(2) by blast
  have alloc: ?thesis
    if "core_inv E cf p'" "granted p' = granted p" "calm p p'" "(own, q) = newEntryLocked (principal_key pr) b p'"
    for p'
  proof -
    have q: "q = snd (newEntryLocked (principal_key pr) b p')" "own = next_eid p'"
      using that(4) by (metis snd_conv, metis fst_conv newEntryLocked_fields(1))
    then show ?thesis
      using new [OF that(1,2)] calm_trans [OF that(3) calm_new_entry, of "principal_key pr" b] by simp
  qed
  show ?thesis
  proof (cases "fmlookup (entries p) (principal_key pr)")
    case None
    then have "(own, q) = newEntryLocked (principal_key pr) b p"
      using r by (simp add: ensure_locked_def)
    then show ?thesis by (rule alloc [OF inv refl calm_refl])
  next
    case (Some e)
    show ?thesis
    proof (cases "aliveLocked p e")
      case True
      then show ?thesis using r Some inv core_entries [OF inv Some] by (auto simp: ensure_locked_def)
    next
      case False
      then have "(own, q) = newEntryLocked (principal_key pr) b (evictLocked e p)"
        using r Some by (simp add: ensure_locked_def)
      then show ?thesis by (rule alloc [OF core_inv_evict [OF inv] evictLocked_fields(10) calm_evict])
    qed
  qed
qed

section \<open>Facts of other threads survive a calm step\<close>

lemma building_unbuilt:
  assumes "core_inv E cf p" "building p e"
  shows "e < next_eid p" "nc (heap p e) = None" "err (heap p e) = None"
proof -
  show e: "e < next_eid p" using assms(2) by (simp add: building_def)
  have ok: "entry_ok (set (granted p)) (next_conn p) (heap p e)" by (rule core_entry [OF assms(1) e])
  show n: "nc (heap p e) = None"
    using assms(2) entry_ok_built(3) [OF ok] by (cases "nc (heap p e)") (auto simp: building_def)
  show "err (heap p e) = None"
    using assms(2) entry_ok_unbuilt(6) [OF ok n] by (auto simp: building_def)
qed

lemma built_calm: "built_entry p e \<Longrightarrow> calm p q \<Longrightarrow> built_entry q e"
  using calm_old [of p q e] by (simp add: built_entry_def)

lemma trusted_calm: "trusted p b e \<Longrightarrow> calm p q \<Longrightarrow> trusted q b e"
  using calm_old [of p q e] calm_granted [of p q] by (simp add: trusted_def built_entry_def)

lemma claim_bound: "claim_ok p b e h c \<Longrightarrow> e < next_eid p"
  by (cases c) simp_all

lemma claim_calm:
  assumes "claim_ok p b e h c" "calm p q"
  shows "claim_ok q b e h c"
proof (cases c)
  case FromResolve
  then show ?thesis
    using assms calm_old [OF assms(2), of e] calm_granted [OF assms(2)] by (auto split: if_splits)
next
  case FromEnsure
  then obtain pr where pr: "h = principal_key pr" "(b, pr) \<in> set (granted p)"
    using assms(1) by auto
  then have "(b, pr) \<in> set (granted q)" by (blast intro: calm_granted [OF assms(2)])
  then show ?thesis
    using FromEnsure pr(1) assms calm_old [OF assms(2), of e] by (metis claim_ok.simps(2))
qed

lemma building_calm: "building p e \<Longrightarrow> calm p q \<Longrightarrow> building q e"
  using calm_old [of p q e] by (simp add: building_def)

lemma target_calm: "target_ok p k \<Longrightarrow> calm p q \<Longrightarrow> target_ok q k"
  using calm_old(1) [of p q] by (cases k) (auto intro: built_calm)

lemma dial_ok_calm:
  assumes inv: "core_inv E cf p" and bd: "building p e" and d: "dial_ok E p e d" and c: "calm p q"
  shows "dial_ok E q e d"
proof -
  note e = building_unbuilt [OF inv bd]
  have l: "latest (heap q e) = latest (heap p e)" by (rule calm_old(7) [OF c e(1,2)])
  have n: "nc (heap q f) \<noteq> Some k" if "f < next_eid q" "\<forall>f < next_eid p. nc (heap p f) \<noteq> Some k" for f k
    using that calm_old(3) [OF c, of f] calm_new [OF c, of f] by (cases "f < next_eid p") auto
  have "next_conn p \<le> next_conn q" using c by (simp add: calm_def)
  then show ?thesis
    using d l n calm_granted [OF c] unfolding dial_ok_def by (fastforce split: prod.splits)
qed

lemma thread_ok_calm:
  assumes "core_inv E cf p" "thread_ok E p b pc" "calm p q"
  shows "thread_ok E q b pc"
proof (cases pc)
  case (AtFinish e h c d)
  then show ?thesis using assms by (auto intro: claim_calm building_calm dial_ok_calm)
next
  case (AtBuilt e h c)
  then have c: "claim_ok p b e h c" "build (heap p e) = OnceDone" using assms(2) by simp_all
  then show ?thesis
    using AtBuilt claim_calm [OF c(1) assms(3)] calm_old(5) [OF assms(3) claim_bound [OF c(1)]] by simp
next
  case (AtEvict e h x)
  then show ?thesis using assms(2) calm_old [OF assms(3), of e] by simp
next
  case (Returned r)
  then show ?thesis using assms by (cases r) (auto intro: trusted_calm)
qed (use assms in \<open>auto intro: trusted_calm claim_calm building_calm target_calm calm_granted\<close>)

section \<open>Starting and finishing a build\<close>

lemma connect_finish_other: "f \<noteq> e \<Longrightarrow> heap (connect_finish E e d p) f = heap p f"
  by (auto simp: connect_finish_def fail_build_def Let_def split: prod.splits option.splits res.splits)

lemma connect_finish_entry:
  "keys (heap (connect_finish E e d p) e) = keys (heap p e)"
  "latest (heap (connect_finish E e d p) e) = latest (heap p e)"
  "admitted (heap (connect_finish E e d p) e) = admitted (heap p e)"
  "build (heap (connect_finish E e d p) e) = OnceDone"
  "nc (heap (connect_finish E e d p) e) = Some c \<Longrightarrow> nc (heap p e) = None \<Longrightarrow> fst (snd d) = Some c"
  by (auto simp: connect_finish_def fail_build_def Let_def split: prod.splits option.splits res.splits)

lemma claim_finish:
  assumes q: "core_inv E cf (connect_finish E e d p)" and cl: "claim_ok p b e h c"
    and n: "nc (heap p e) = None"
  shows "claim_ok (connect_finish E e d p) b e h c"
proof (cases c)
  case FromResolve
  let ?q = "connect_finish E e d p"
  have e: "e < next_eid ?q" and l: "latest (heap ?q e) = Some b"
    using cl n FromResolve by (simp_all add: connect_finish_entry)
  show ?thesis
    using entry_ok_built(8) [OF core_entry [OF q e]] e l FromResolve by auto
next
  case FromEnsure
  then show ?thesis using cl by (simp add: connect_finish_entry)
qed

lemma panicked_iff: "panicked d \<longleftrightarrow> (\<exists>t co. d = (t, co, Panic))"
  by (cases d) (auto simp: panicked_def)

lemma dial_ok_not_panicked: "dial_ok E p e d \<Longrightarrow> \<not> panicked d"
  by (auto simp: dial_ok_def panicked_iff)

text \<open>After a good build both callers may use the entry.\<close>

lemma built_trusted:
  assumes inv: "core_inv E cf p" and sane: "sane_edge E cf" and cl: "claim_ok p b e h c"
    and d: "build (heap p e) = OnceDone" "err (heap p e) = None"
  shows "trusted p b e"
proof -
  have e: "e < next_eid p" using cl by (cases c) auto
  have ok: "entry_ok (set (granted p)) (next_conn p) (heap p e)" by (rule core_entry [OF inv e])
  have n: "nc (heap p e) \<noteq> None"
    using d entry_ok_unbuilt(6) [OF ok] by auto
  show ?thesis
  proof (cases c)
    case FromResolve
    then show ?thesis using cl n e by (simp add: trusted_def built_entry_def)
  next
    case FromEnsure
    then obtain pr where pr: "keys (heap p e) = [principal_key pr]" "(b, pr) \<in> set (granted p)"
      using cl by auto
    then have "principal_of (heap p e) = pr"
      using key_okD [OF entry_ok_key [OF ok] pr(1) granted_plain [OF sane inv pr(2)]] n by simp
    then show ?thesis using pr n e by (simp add: trusted_def built_entry_def)
  qed
qed

section \<open>One step of a thread\<close>

lemma trustedD:
  "trusted p b e \<Longrightarrow> e < next_eid p \<and> nc (heap p e) \<noteq> None \<and> (b, principal_of (heap p e)) \<in> set (granted p)"
  by (simp add: trusted_def built_entry_def)

lemma trusted_adopt: "trusted p b e \<Longrightarrow> core_inv E cf p \<Longrightarrow> core_inv E cf (adopt e b p) \<and> calm p (adopt e b p)"
  using trustedD core_inv_adopt calm_adopt by blast

lemma trusted_admit: "trusted p b e \<Longrightarrow> core_inv E cf p \<Longrightarrow> core_inv E cf (admitLocked e b p)"
  using trustedD core_inv_admit by blast

lemma trusted_admit_bind:
  assumes "trusted p b e" "core_inv E cf p"
  shows "core_inv E cf (admit_bind e b s p)"
proof -
  have "built_entry (admitLocked e b p) e"
    using assms(1) built_calm [OF _ calm_admit] by (simp add: trusted_def)
  then show ?thesis
    using core_inv_bind [OF trusted_admit [OF assms]] by (simp add: admit_bind_def built_entry_def)
qed

lemma route_pc_ok: "route_ok p b r \<Longrightarrow> thread_ok E p b (route_pc r)"
  by (cases r) (simp_all add: route_pc_def)

lemma principal_match:
  assumes "core_inv E cf p" "target_ok p k" "valid_principal pr" "(b, pr) \<in> set (granted p)"
    "k = ForBound e \<or> k = ForCandidate e" "pr = principal_of (heap p e)"
  shows "trusted p b e"
proof -
  have e: "e < next_eid p" using assms(2,5) by (auto simp: built_entry_def)
  have "nc (heap p e) \<noteq> None"
    using entry_ok_unbuilt(3) [OF core_entry [OF assms(1) e]] assms(3,6) valid_principal_parts [OF assms(3)]
    by force
  then show ?thesis using e assms(4,6) by (simp add: trusted_def built_entry_def)
qed

lemma probe_step:
  assumes inv: "core_inv E cf p" and pr: "probe E b p = (q, r)" and sane: "sane_edge E cf"
  shows "core_inv E cf q" "calm p q" "r \<noteq> Panic"
    "r = Ok x \<Longrightarrow> (b, x) \<in> set (granted q) \<and> valid_principal x"
proof -
  show "core_inv E cf q" "calm p q"
    using core_inv_probe [OF inv, of b] calm_probe [of p E b] pr by simp_all
  show "r = Ok x \<Longrightarrow> (b, x) \<in> set (granted q) \<and> valid_principal x"
    using probe_Ok [of E b p q x] pr principalOf_valid by blast
  show "r \<noteq> Panic"
    using pr dial_result [of E b p] core_cfg [OF inv] sane_edge_no_panic [OF sane]
    by (auto simp: probe_def split: prod.splits option.splits)
qed

text \<open>
  The step keeps the core invariant and establishes what the thread relies on next; all steps
  but those of the owner of a build are calm.
\<close>

fun build_step :: "pool \<Rightarrow> pc \<Rightarrow> bool" where
  "build_step p (AtBuild e h c) = (build (heap p e) = OnceFresh)"
| "build_step p (AtFinish e h c d) = True"
| "build_step p _ = False"

lemma start_build_step:
  assumes inv: "core_inv E cf p" and cl: "claim_ok p b e h c" and f: "build (heap p e) = OnceFresh"
  shows "core_inv E cf (start_build e p)" "claim_ok (start_build e p) b e h c" "building (start_build e p) e"
proof -
  have e: "e < next_eid p" using cl by (cases c) auto
  then show "core_inv E cf (start_build e p)" "building (start_build e p) e"
    using core_inv_start_build [OF inv e f] by (simp_all add: building_def)
  show "claim_ok (start_build e p) b e h c"
    using cl by (cases c) (auto simp: principal_of_def split: if_splits)
qed

lemma claim_ensure:
  "e < next_eid p \<Longrightarrow> keys (heap p e) = [principal_key pr] \<Longrightarrow> (b, pr) \<in> set (granted p) \<Longrightarrow>
   claim_ok p b e (principal_key pr) FromEnsure"
  by (metis claim_ok.simps(2))

lemma thread_step_ok:
  assumes inv: "core_inv E cf p" and sane: "sane_edge E cf" and ok: "thread_ok E p b pc"
    and st: "thread_step E b s p pc = Some (q, pc')"
  shows "core_inv E cf q \<and> thread_ok E q b pc' \<and> (calm p q \<or> build_step p pc)"
proof (cases pc)
  case AtLock
  then show ?thesis
    using st resolve_locked_ok [OF inv] by (auto split: prod.splits intro: route_pc_ok)
next
  case (AtAdopt e l)
  then have t: "trusted p b e" using ok by simp
  note a = trusted_adopt [OF t inv]
  have "calm p q" "core_inv E cf q" "pc' = Returned (Ok e)"
    using st AtAdopt a calm_trans [OF conjunct2 [OF a] calm_log(3)
        [of _ _ "principal_of (heap p e)"]] by (auto split: if_splits)
  then show ?thesis using trusted_calm [OF t] by simp
next
  case (AtProbe k)
  obtain q1 r where r: "probe E b p = (q1, r)" by fastforce
  note ps = probe_step [OF inv r sane]
  show ?thesis
    using st AtProbe r ok ps target_calm [OF _ ps(2)] by (cases r) (auto intro: calm_trans)
next
  case (AtCompare k pr)
  then show ?thesis
    using st ok inv principal_match [OF inv, of k pr b] by (cases k) (auto split: if_splits)
next
  case (AtAdmitBound e)
  then show ?thesis using st ok inv trusted_admit trusted_calm by auto
next
  case (AtAdmitCand e)
  then show ?thesis using st ok inv trusted_admit_bind trusted_calm by auto
next
  case (AtEnsure pr)
  obtain own where r: "ensure_locked b pr p = (own, q)" "pc' = AtBuild own (principal_key pr) FromEnsure"
    using st AtEnsure by (auto split: prod.splits)
  have g: "(b, pr) \<in> set (granted p)" using ok AtEnsure by simp
  note e = ensure_locked_ok [OF inv sane g r(1)]
  have "(b, pr) \<in> set (granted q)" using calm_granted g e by blast
  then have "claim_ok q b own (principal_key pr) FromEnsure" using claim_ensure e by blast
  then show ?thesis using r(2) e by simp
next
  case (AtBuild e h c)
  then show ?thesis
    using st ok inv start_build_step [OF inv, of b e h c] by (auto split: once.splits)
next
  case (AtDial e h c)
  let ?b = "token_of p e"
  have bd: "building p e" and cl: "claim_ok p b e h c" using ok AtDial by simp_all
  note u = building_unbuilt [OF inv bd]
  have l: "latest (heap p e) = Some ?b"
    using entry_ok_unbuilt(5) [OF core_entry [OF inv u(1)] u(2)] by (auto simp: token_of_def)
  obtain q1 d where d: "dial E ?b p = (q1, d)" by (cases "dial E ?b p")
  have q: "q = q1" "pc' = AtFinish e h c d" using st AtDial d by simp_all
  have cm: "calm p q1" using calm_dial [of p E ?b] d by simp
  have "core_inv E cf q1" "dial_ok E q1 e d"
    using core_inv_dial [OF inv, of ?b] dial_ok_dial [OF inv sane l] d by simp_all
  then show ?thesis
    using q cm building_calm [OF bd cm] claim_calm [OF cl cm] by simp
next
  case (AtFinish e h c d)
  have bd: "building p e" and cl: "claim_ok p b e h c" and dd: "dial_ok E p e d"
    using ok AtFinish by simp_all
  note u = building_unbuilt [OF inv bd]
  have q: "core_inv E cf (connect_finish E e d p)" by (rule core_inv_finish [OF inv sane u dd])
  show ?thesis
    using st AtFinish q claim_finish [OF q cl u(2)] dial_ok_not_panicked [OF dd]
    by (auto simp: connect_finish_entry)
next
  case (AtBuilt e h c)
  then show ?thesis
    using st ok inv built_trusted [OF inv sane, of b e h c] claim_bound [of p b e h c]
    by (auto split: option.splits caller.splits)
next
  case (AtEvict e h x)
  then show ?thesis
    using st inv calm_trans [OF calm_evict calm_log(2)] by (auto simp: build_failed_def)
next
  case (AtAdmitBuilt e)
  then show ?thesis using st ok inv trusted_admit_bind trusted_calm by auto
next
  case (AtAdmitOwn e)
  then show ?thesis using st ok inv trusted_admit_bind trusted_calm by auto
next
  case (Returned r)
  then show ?thesis using st by simp
qed

section \<open>The invariant of the system\<close>

text \<open>The entry whose build a thread runs, and the dialled connection it holds meanwhile.\<close>

fun owns :: "pc \<Rightarrow> eid option" where
  "owns (AtDial e h c) = Some e"
| "owns (AtFinish e h c d) = Some e"
| "owns _ = None"

fun holds :: "pc \<Rightarrow> conn option" where
  "holds (AtFinish e h c d) = fst (snd d)"
| "holds _ = None"

definition threads_ok :: "edge \<Rightarrow> sys \<Rightarrow> bool" where
  "threads_ok E S \<longleftrightarrow> (\<forall>th \<in> set (threads S). thread_ok E (pl S) (t_bearer th) (t_pc th))"

definition owners_apart :: "sys \<Rightarrow> bool" where
  "owners_apart S = apart (\<lambda>th. owns (t_pc th)) (threads S)"

definition held_apart :: "sys \<Rightarrow> bool" where
  "held_apart S = apart (\<lambda>th. holds (t_pc th)) (threads S)"

text \<open>A running build has a thread that runs it: nobody waits for a build that nobody runs.\<close>

definition running_owned :: "sys \<Rightarrow> bool" where
  "running_owned S \<longleftrightarrow>
     (\<forall>e. building (pl S) e \<longrightarrow> (\<exists>th \<in> set (threads S). owns (t_pc th) = Some e))"

definition sys_inv :: "edge \<Rightarrow> config \<Rightarrow> sys \<Rightarrow> bool" where
  "sys_inv E cf S \<longleftrightarrow>
     sane_edge E cf \<and> core_inv E cf (pl S) \<and> threads_ok E S \<and> owners_apart S \<and> held_apart S \<and> running_owned S"

section \<open>Other threads while a build starts or finishes\<close>

lemma thread_ok_start:
  assumes ok: "thread_ok E p b pc" and f: "build (heap p e) = OnceFresh"
  shows "thread_ok E (start_build e p) b pc"
proof -
  have h: "keys (heap (start_build e p) g) = keys (heap p g)" "nc (heap (start_build e p) g) = nc (heap p g)"
    "latest (heap (start_build e p) g) = latest (heap p g)"
    "principal_of (heap (start_build e p) g) = principal_of (heap p g)" for g
    by (auto simp: principal_of_def)
  have t: "trusted (start_build e p) b g = trusted p b g" "built_entry (start_build e p) g = built_entry p g" for g
    using h by (simp_all add: trusted_def built_entry_def)
  have cl: "claim_ok (start_build e p) b g k c = claim_ok p b g k c" for g k c
    by (cases c) (simp_all only: claim_ok.simps h start_build_fields(6,10))
  have bd: "building p g \<Longrightarrow> building (start_build e p) g" for g
    using f by (auto simp: building_def)
  have tg: "target_ok (start_build e p) k = target_ok p k" for k
    using t by (cases k) simp_all
  have dl: "dial_ok E (start_build e p) g d = dial_ok E p g d" for g d
    by (simp only: dial_ok_def h start_build_fields(6,8,10))
  show ?thesis
    using ok f by (cases pc) (auto simp: t cl bd tg dl split: res.splits)
qed

lemma thread_ok_finish:
  assumes ok: "thread_ok E p b pc" and inv: "core_inv E cf p" "core_inv E cf (connect_finish E e d p)"
    and bd: "building p e" and o: "owns pc \<noteq> Some e"
    and hd: "\<And>c. fst (snd d) = Some c \<Longrightarrow> holds pc \<noteq> Some c"
  shows "thread_ok E (connect_finish E e d p) b pc"
proof -
  let ?q = "connect_finish E e d p"
  note u = building_unbuilt [OF inv(1) bd]
  have t: "trusted ?q b g" if "trusted p b g" for g
    using that u(2) connect_finish_other [of g e E d p] by (cases "g = e") (simp_all add: trusted_def built_entry_def)
  have bt: "built_entry ?q g" if "built_entry p g" for g
    using that u(2) connect_finish_other [of g e E d p] by (cases "g = e") (simp_all add: built_entry_def)
  have cl: "claim_ok ?q b g k c" if "claim_ok p b g k c" for g k c
  proof (cases "g = e")
    case True
    then show ?thesis using claim_finish [OF inv(2)] that u(2) by blast
  next
    case False
    then show ?thesis using that connect_finish_other [of g e E d p] by (cases c) simp_all
  qed
  have bg: "building ?q g" if "building p g" "g \<noteq> e" for g
    using that connect_finish_other [of g e E d p] by (simp add: building_def)
  have tg: "target_ok ?q k" if "target_ok p k" for k
    using that bt by (cases k) simp_all
  have dl: "dial_ok E ?q g d'" if "dial_ok E p g d'" "g \<noteq> e" "\<And>c. fst (snd d) = Some c \<Longrightarrow> fst (snd d') \<noteq> Some c" for g d'
  proof -
    have n: "nc (heap ?q f) \<noteq> Some c"
      if "f < next_eid p" "fst (snd d') = Some c" "\<forall>f < next_eid p. nc (heap p f) \<noteq> Some c" for f c
      using that \<open>\<And>c. fst (snd d) = Some c \<Longrightarrow> fst (snd d') \<noteq> Some c\<close>
        connect_finish_other [of f e E d p] connect_finish_entry(5) [of E e d p c] u(2)
      by (cases "f = e") auto
    show ?thesis
      using that(1,2) n connect_finish_other [of g e E d p]
      by (auto simp: dial_ok_def split: prod.splits)
  qed
  show ?thesis
  proof (cases pc)
    case (AtBuilt g k c)
    then have "g \<noteq> e" using ok bd by (auto simp: building_def)
    then show ?thesis using AtBuilt ok cl connect_finish_other [of g e E d p] by simp
  next
    case (AtEvict g k x)
    then have "g \<noteq> e" using ok u by auto
    then show ?thesis using AtEvict ok connect_finish_other [of g e E d p] by simp
  qed (use ok o hd t cl bg tg dl in \<open>auto split: res.splits\<close>)
qed

section \<open>Every step of the system keeps the invariant\<close>

lemma sys_inv_parts:
  assumes "sys_inv E cf S"
  shows "sane_edge E cf" "core_inv E cf (pl S)" "threads_ok E S" "owners_apart S" "held_apart S" "running_owned S"
  using assms by (simp_all add: sys_inv_def)

lemma owns_building: "thread_ok E p b pc \<Longrightarrow> owns pc = Some e \<Longrightarrow> building p e"
  by (cases pc) auto

lemma holds_bound: "thread_ok E p b pc \<Longrightarrow> holds pc = Some c \<Longrightarrow> c < next_conn p"
  by (cases pc) (auto simp: dial_ok_def split: prod.splits)

text \<open>A thread comes to own a build only by starting it, and to hold a connection only by dialling it.\<close>

lemmas step_splits = if_splits prod.splits res.splits option.splits once.splits caller.splits route.splits

lemma owns_step:
  "thread_step E b s p pc = Some (q, pc') \<Longrightarrow> owns pc' = Some e \<Longrightarrow>
   owns pc = Some e \<or> (build (heap p e) = OnceFresh \<and> q = start_build e p)"
  by (induction E b s p pc rule: thread_step.induct) (auto simp: route_pc_def split: step_splits)

lemma holds_step:
  "thread_step E b s p pc = Some (q, pc') \<Longrightarrow> holds pc' = Some c \<Longrightarrow> c = next_conn p"
  by (induction E b s p pc rule: thread_step.induct)
    (auto simp: route_pc_def dest: dial_result split: step_splits)

text \<open>A thread that gives up a build has finished it.\<close>

lemma owner_leaves:
  "thread_step E b s p pc = Some (q, pc') \<Longrightarrow> owns pc = Some e \<Longrightarrow>
   owns pc' = Some e \<or> build (heap q e) = OnceDone"
  by (induction E b s p pc rule: thread_step.induct)
    (auto simp: connect_finish_entry split: step_splits)

lemma building_back:
  assumes st: "thread_step E b s p pc = Some (q, pc')" and k: "calm p q \<or> build_step p pc"
    and bd: "building q e"
  shows "building p e \<or> owns pc' = Some e"
  using k
proof
  assume c: "calm p q"
  have "e < next_eid p"
    using bd calm_new [OF c, of e] by (cases "e < next_eid p") (auto simp: building_def)
  then show ?thesis using bd calm_old(5) [OF c, of e] by (simp add: building_def)
next
  assume k: "build_step p pc"
  show ?thesis
  proof (cases pc)
    case (AtFinish f h c d)
    then have q: "q = connect_finish E f d p" using st by simp
    then show ?thesis
      using bd connect_finish_other [of e f E d p] connect_finish_entry(4) [of E f d p]
      by (cases "e = f") (auto simp: building_def)
  qed (use k st bd in \<open>auto simp: building_def split: if_splits\<close>)
qed

lemma others_ok:
  assumes inv: "core_inv E cf p" "core_inv E cf q" and st: "thread_step E b s p pc = Some (q, pc')"
    and k: "calm p q \<or> build_step p pc" and ok: "thread_ok E p b pc" "thread_ok E p b' pc2"
    and o: "\<And>e. owns pc = Some e \<Longrightarrow> owns pc2 \<noteq> Some e" and hd: "\<And>c. holds pc = Some c \<Longrightarrow> holds pc2 \<noteq> Some c"
  shows "thread_ok E q b' pc2"
  using k
proof
  assume "calm p q"
  then show ?thesis by (rule thread_ok_calm [OF inv(1) ok(2)])
next
  assume "build_step p pc"
  then consider (start) e h c where "pc = AtBuild e h c" "build (heap p e) = OnceFresh"
    | (finish) e h c d where "pc = AtFinish e h c d"
    by (cases pc) auto
  then show ?thesis
  proof cases
    case start
    then show ?thesis using st thread_ok_start [OF ok(2)] by auto
  next
    case finish
    then have "q = connect_finish E e d p" "building p e" "owns pc2 \<noteq> Some e"
      "\<And>c. fst (snd d) = Some c \<Longrightarrow> holds pc2 \<noteq> Some c"
      using st ok(1) o hd by auto
    then show ?thesis using thread_ok_finish [OF ok(2) inv(1)] inv(2) by blast
  qed
qed

lemma sys_inv_run:
  assumes inv: "sys_inv E cf S" and i: "i < length (threads S)" and th: "th = threads S ! i"
    and st: "thread_step E (t_bearer th) (t_sid th) (pl S) (t_pc th) = Some (q, pc')"
  shows "sys_inv E cf (S\<lparr>pl := q, threads := (threads S)[i := th\<lparr>t_pc := pc'\<rparr>]\<rparr>)" (is "sys_inv E cf ?T")
proof -
  note I = sys_inv_parts [OF inv]
  let ?p = "pl S"
  have ok: "thread_ok E ?p (t_bearer t) (t_pc t)" if "t \<in> set (threads S)" for t
    using I(3) that by (simp add: threads_ok_def)
  have okj: "thread_ok E ?p (t_bearer (threads S ! j)) (t_pc (threads S ! j))" if "j < length (threads S)" for j
    using ok that by simp
  have oki: "thread_ok E ?p (t_bearer th) (t_pc th)" using okj [OF i] th by simp
  note N = thread_step_ok [OF I(2) I(1) oki st]
  have len: "length (threads ?T) = length (threads S)" by simp
  have nth: "t_pc (threads ?T ! j) = (if j = i then pc' else t_pc (threads S ! j))"
    "t_bearer (threads ?T ! j) = (if j = i then t_bearer th else t_bearer (threads S ! j))"
    if "j < length (threads S)" for j
    using that th by simp_all
  have ap: "owns (t_pc (threads S ! j)) \<noteq> Some e" if "j < length (threads S)" "j \<noteq> i" "owns (t_pc th) = Some e" for j e
    using I(4) [unfolded owners_apart_def, THEN apartD, of j i e] that i th by auto
  have hp: "holds (t_pc (threads S ! j)) \<noteq> Some c" if "j < length (threads S)" "j \<noteq> i" "holds (t_pc th) = Some c" for j c
    using I(5) [unfolded held_apart_def, THEN apartD, of j i c] that i th by auto
  have oth: "thread_ok E q (t_bearer (threads S ! j)) (t_pc (threads S ! j))" if "j < length (threads S)" "j \<noteq> i" for j
    using others_ok [OF I(2) conjunct1 [OF N] st _ oki okj [OF that(1)]] N ap [OF that] hp [OF that] by blast
  have "thread_ok E q (t_bearer (threads ?T ! j)) (t_pc (threads ?T ! j))" if "j < length (threads S)" for j
    using that oth N nth [OF that] by (cases "j = i") simp_all
  then have t1: "threads_ok E ?T"
    by (auto simp: threads_ok_def in_set_conv_nth)
  have ow: "owns (t_pc (threads S ! j)) \<noteq> Some e" if "j < length (threads S)" "j \<noteq> i" "owns pc' = Some e" for j e
    using owns_step [OF st that(3)] ap [OF that(1,2)] owns_building [OF okj [OF that(1)]] by (auto simp: building_def)
  have t2: "owners_apart ?T"
    using apart_update [OF I(4) [unfolded owners_apart_def], of i "th\<lparr>t_pc := pc'\<rparr>"] ow
    by (simp add: owners_apart_def)
  have ho: "holds (t_pc (threads S ! j)) \<noteq> Some c" if "j < length (threads S)" "holds pc' = Some c" for j c
    using holds_step [OF st that(2)] holds_bound [OF okj [OF that(1)]] by blast
  have t3: "held_apart ?T"
    using apart_update [OF I(5) [unfolded held_apart_def], of i "th\<lparr>t_pc := pc'\<rparr>"] ho
    by (simp add: held_apart_def)
  have "\<exists>j < length (threads S). owns (t_pc (threads ?T ! j)) = Some e" if "building q e" for e
    using building_back [OF st conjunct2 [OF conjunct2 [OF N]] that]
  proof
    assume "building ?p e"
    then obtain j where j: "j < length (threads S)" "owns (t_pc (threads S ! j)) = Some e"
      using I(6) unfolding running_owned_def by (metis in_set_conv_nth)
    then have "owns (t_pc (threads ?T ! j)) = Some e"
      using owner_leaves [OF st, of e] that nth [OF j(1)] th by (auto simp: building_def)
    then show ?thesis using j by blast
  next
    assume "owns pc' = Some e"
    then show ?thesis using i nth [OF i] by metis
  qed
  then have t4: "running_owned ?T"
    by (force simp: running_owned_def in_set_conv_nth)
  show ?thesis
    using I(1) N t1 t2 t3 t4 by (simp add: sys_inv_def)
qed

text \<open>Calm changes of the pool by others than the threads.\<close>

lemma building_calm_iff: "calm p q \<Longrightarrow> building q e \<Longrightarrow> building p e"
  using calm_new [of p q e] calm_old(5) [of p q e]
  by (cases "e < next_eid p") (auto simp: building_def)

lemma sys_inv_calm:
  assumes inv: "sys_inv E cf S" and q: "core_inv E cf q" "calm (pl S) q"
  shows "sys_inv E cf (S\<lparr>pl := q\<rparr>)"
proof -
  note I = sys_inv_parts [OF inv]
  have "threads_ok E (S\<lparr>pl := q\<rparr>)"
    using I(3) thread_ok_calm [OF I(2) _ q(2)] by (simp add: threads_ok_def)
  moreover have "running_owned (S\<lparr>pl := q\<rparr>)"
    using I(6) building_calm_iff [OF q(2)] by (auto simp: running_owned_def)
  ultimately show ?thesis
    using I q(1) by (simp add: sys_inv_def owners_apart_def held_apart_def)
qed

lemma sys_inv_request:
  assumes "sys_inv E cf S"
  shows "sys_inv E cf (S\<lparr>threads := threads S @ [\<lparr>t_bearer = b, t_sid = s, t_pc = AtLock\<rparr>]\<rparr>)"
  using sys_inv_parts [OF assms]
  by (auto simp: sys_inv_def threads_ok_def owners_apart_def held_apart_def running_owned_def intro!: apart_snoc)

lemma sys_inv_step:
  assumes inv: "sys_inv E cf S" and st: "sys_step E S T"
  shows "sys_inv E cf T"
  using st
proof (cases rule: sys_step.cases)
  case (request b s)
  then show ?thesis using sys_inv_request [OF inv] by simp
next
  case (run i th q pc')
  then show ?thesis using sys_inv_run [OF inv] by blast
next
  case (conn_lost c)
  then show ?thesis using sys_inv_calm [OF inv] sys_inv_parts(2) [OF inv] by simp
next
  case (session_minted th e s)
  have "trusted (pl S) (t_bearer th) e"
    using sys_inv_parts(3) [OF inv] session_minted by (force simp: threads_ok_def)
  then have "core_inv E cf (bindSession s e (pl S))"
    using core_inv_bind [OF sys_inv_parts(2) [OF inv]] trustedD by (simp add: bindSession_def)
  then show ?thesis
    using sys_inv_calm [OF inv] session_minted by (simp add: bindSession_def)
next
  case close
  then show ?thesis using sys_inv_calm [OF inv] sys_inv_parts(2) [OF inv] by simp
qed

interpretation pool_system: invariant_system "sys_step E" "sys_inv E cf" for E cf
  by unfold_locales (rule sys_inv_step)

lemma sys_inv_start: "sane_edge E cf \<Longrightarrow> sys_inv E cf (start_sys cf)"
  using core_inv_newPool [of E cf]
  by (simp add: sys_inv_def start_sys_def threads_ok_def owners_apart_def held_apart_def
      running_owned_def building_def newPool_def)

lemma reachable_inv:
  assumes "sane_edge E cf" "reachable E cf S"
  shows "sys_inv E cf S"
  using pool_system.steps_inv sys_inv_start [OF assms(1)] assms(2) unfolding reachable_def by blast

end
