(* ===== verification/Example.thy ===== *)
theory Example
  imports PoolConcInv
begin

text \<open>
  A concrete deployment on which the theorems of the pool are instantiated: an admission edge
  that knows two users, each by an opaque token and by an OIDC token, and refuses everything
  else. The replies are the server's JSON, read by the model of the code.
\<close>

definition ex_cfg :: config where
  "ex_cfg = \<lparr>Listen = '':8080'', PublicURL = ''https://n'', AuthIssuer = ''https://i'', Realm = ''proof'',
     NATSURL = ''nats://n'', SentinelPath = [], Prefix = [], Logger = Some StderrText\<rparr>"

definition ex_reply_alice :: string where
  \<open>ex_reply_alice =
     ''{"data":{"permissions":{"publish":{"allow":["_INBOX.>","si.AC.alice.sign.record"]}}}}''\<close>

definition ex_reply_bob :: string where
  \<open>ex_reply_bob =
     ''{"data":{"permissions":{"publish":{"allow":["si.AC.bob.sign.record"]}}}}''\<close>

text \<open>
  Tokens: \<open>a1\<close> and \<open>a2\<close> are Alice's, \<open>b1\<close> is Bob's. The two JWTs carry the same issuer and
  subject, so they share a routing hint: \<open>jwt_alice\<close> is Alice's and \<open>jwt_forged\<close> is admitted
  as Bob.
\<close>

definition jwt_alice :: bearer where
  "jwt_alice = ''eyJ.eyJpc3MiOiJpIiwic3ViIjoieCJ9.s1''"

definition jwt_forged :: bearer where
  "jwt_forged = ''eyJ.eyJpc3MiOiJpIiwic3ViIjoieCJ9.s2''"

definition ex_who :: "bearer \<Rightarrow> principal option" where
  "ex_who b =
     (if b \<in> {''a1'', ''a2'', jwt_alice} then Some (''alice'', ''AC'')
      else if b \<in> {''b1'', jwt_forged} then Some (''bob'', ''AC'')
      else None)"

definition ex_reply :: "principal \<Rightarrow> string" where
  "ex_reply pr = (if pr = (''alice'', ''AC'') then ex_reply_alice else ex_reply_bob)"

definition ex_edge :: edge where
  "ex_edge = \<lparr>Segment = ''si'',
     natsConnect = (\<lambda>_ b. if ex_who b = None then Some ''authorization violation'' else None),
     userInfo = (\<lambda>_ b. case ex_who b of Some pr \<Rightarrow> Inr (ex_reply pr) | None \<Rightarrow> Inl ''timeout''),
     personaSigner = (\<lambda>_ _ _. None), realmNewClient = (\<lambda>_ _ _. None),
     realmStream = (\<lambda>_ _. None), ensureSigningKey = (\<lambda>_ _. None)\<rparr>"

lemma ex_who [simp]:
  "ex_who ''a1'' = Some (''alice'', ''AC'')" "ex_who ''a2'' = Some (''alice'', ''AC'')"
  "ex_who ''b1'' = Some (''bob'', ''AC'')" "ex_who ''x'' = None"
  "ex_who jwt_alice = Some (''alice'', ''AC'')" "ex_who jwt_forged = Some (''bob'', ''AC'')"
  by code_simp+

lemma ex_jwts [simp]: "jwt_alice \<noteq> jwt_forged" "jwt_forged \<noteq> jwt_alice" "jwt_alice \<noteq> []" "jwt_forged \<noteq> []"
  "jwt_alice \<noteq> ''a1''" "''a1'' \<noteq> jwt_alice"
  "jwt_alice \<noteq> ''a2''" "''a2'' \<noteq> jwt_alice"
  "jwt_alice \<noteq> ''b1''" "''b1'' \<noteq> jwt_alice"
  "jwt_alice \<noteq> ''x''" "''x'' \<noteq> jwt_alice"
  "jwt_forged \<noteq> ''a1''" "''a1'' \<noteq> jwt_forged"
  "jwt_forged \<noteq> ''a2''" "''a2'' \<noteq> jwt_forged"
  "jwt_forged \<noteq> ''b1''" "''b1'' \<noteq> jwt_forged"
  "jwt_forged \<noteq> ''x''" "''x'' \<noteq> jwt_forged"
  by code_simp+

lemma ex_who_cases: "ex_who b = Some pr \<Longrightarrow> pr = (''alice'', ''AC'') \<or> pr = (''bob'', ''AC'')"
  by (auto simp: ex_who_def split: if_splits)

lemma ex_allows:
  "user_info_allows ex_reply_alice = Some [''_INBOX.>'', ''si.AC.alice.sign.record'']"
  "user_info_allows ex_reply_bob = Some [''si.AC.bob.sign.record'']"
  by code_simp+

lemma ex_principals:
  "principalFromAllows [''_INBOX.>'', ''si.AC.alice.sign.record''] ''si'' = Ok (Some (''alice'', ''AC''))"
  "principalFromAllows [''si.AC.bob.sign.record''] ''si'' = Ok (Some (''bob'', ''AC''))"
  by code_simp+

lemma ex_hints [simp]:
  "routeHint jwt_alice = ''oidc:i:x''" "routeHint jwt_forged = ''oidc:i:x''"
  "routeHint ''a1'' = ''tok:a1''" "routeHint ''a2'' = ''tok:a2''" "routeHint ''b1'' = ''tok:b1''"
  "routeHint ''x'' = ''tok:x''"
  by code_simp+

lemma ex_root: "root (Segment ex_edge) ex_cfg = ''si''"
  by (simp add: ex_edge_def ex_cfg_def root_def)

lemma ex_principalOf:
  "principalOf ex_edge t b ''si'' =
     (case ex_who b of Some pr \<Rightarrow> Ok pr | None \<Rightarrow> Err (UserInfoFailed ''timeout''))"
  using ex_who_cases [of b]
  by (cases "ex_who b") (auto simp: principalOf_def ex_edge_def ex_reply_def ex_allows ex_principals)

lemma ex_sane: "sane_edge ex_edge ex_cfg"
  unfolding sane_edge_def ex_root ex_principalOf
  by (auto simp: plain_account_def dest!: ex_who_cases split: option.splits)

lemma ex_connect:
  "natsConnect ex_edge t b = (if ex_who b = None then Some ''authorization violation'' else None)"
  by (simp add: ex_edge_def)

text \<open>Attempts and the end of a build at this edge.\<close>

lemma ex_dial:
  "cfg p = ex_cfg \<Longrightarrow> dial ex_edge b p =
     (case ex_who b of
        None \<Rightarrow> (p\<lparr>attempts := Suc (attempts p)\<rparr>, attempts p, None,
                 Err (AdmissionRefused ''authorization violation''))
      | Some pr \<Rightarrow>
          (p\<lparr>attempts := Suc (attempts p), live := insert (next_conn p) (live p),
             next_conn := Suc (next_conn p), granted := (b, pr) # granted p\<rparr>,
           attempts p, Some (next_conn p), Ok pr))"
  using ex_principalOf [of "attempts p" b] ex_root
  by (cases "ex_who b") (simp_all add: dial_def ex_connect Let_def)

lemma ex_open_realm: "open_realm ex_edge cf t pr = None"
  by (simp add: open_realm_def ex_edge_def)

lemma ex_signing: "ensureSigningKey ex_edge t n = None"
  by (simp add: ex_edge_def)

lemmas ex_run =
  resolve_def follow_route_def resolve_locked_def routeByBearer_def routeByHint_def serve_built_def
  candidate_def candidateForBound_def ensurePrincipal_def ensure_locked_def build_Do_def probe_def
  connect_finish_def newEntryLocked_def newPool_def new_entry_def blank_entry_def sameLatest_def
  token_of_def start_build_def upd_entry_def admit_bind_def admitLocked_def isAdmittedLocked_def
  keep_def bindLocked_def adopt_def logRefused_def logf_def log_line_def aliveLocked_def
  close_conn_def panicked_def principal_of_def principal_key_def build_failed_def
  ex_dial ex_open_realm ex_signing Let_def

section \<open>A short history\<close>

definition ex_alice :: entry where
  "ex_alice = blank_entry\<lparr>keys := [''oidc:i:x''], latest := Some jwt_alice, build := OnceDone,
     nc := Some 0, rc := Some 0, server := Some (Server 0 ''alice''), persona := ''alice'',
     account := ''AC'', admitted := [jwt_alice]\<rparr>"

text \<open>Alice initializes session \<open>s1\<close> with her JWT.\<close>

definition ex_p1 :: pool where
  "ex_p1 = \<lparr>cfg = ex_cfg, entries = fmupd ''oidc:i:x'' 0 fmempty,
     byBearer = fmupd jwt_alice 0 fmempty, sessions = fmupd ''s1'' 0 fmempty,
     heap = (\<lambda>_. blank_entry)(0 := ex_alice), next_eid = 1, live = {0}, next_conn = 1, attempts = 1,
     granted = [(jwt_alice, (''alice'', ''AC''))],
     logs = [LogAdmitted ''alice'' ''AC'' (hintClass ''oidc:i:x'')]\<rparr>"

lemma ex_step1: "resolve ex_edge jwt_alice ''s1'' (newPool ex_cfg) = (ex_p1, Ok 0)"
  by (simp add: ex_run ex_p1_def ex_alice_def)

text \<open>Bob, with the JWT that forges Alice's issuer and subject, is diverted to his own entry.\<close>

definition ex_bob :: entry where
  "ex_bob = blank_entry\<lparr>keys := [''pri:AC:bob''], latest := Some jwt_forged, build := OnceDone,
     nc := Some 2, rc := Some 2, server := Some (Server 2 ''bob''), persona := ''bob'',
     account := ''AC'', admitted := [jwt_forged]\<rparr>"

definition ex_p2 :: pool where
  "ex_p2 = \<lparr>cfg = ex_cfg, entries = fmupd ''pri:AC:bob'' 1 (fmupd ''oidc:i:x'' 0 fmempty),
     byBearer = fmupd jwt_forged 1 (fmupd jwt_alice 0 fmempty),
     sessions = fmupd ''s2'' 1 (fmupd ''s1'' 0 fmempty),
     heap = (\<lambda>_. blank_entry)(0 := ex_alice, 1 := ex_bob), next_eid = 2, live = {2, 0},
     next_conn = 3, attempts = 3,
     granted = [(jwt_forged, (''bob'', ''AC'')), (jwt_forged, (''bob'', ''AC'')), (jwt_alice, (''alice'', ''AC''))],
     logs = [LogAdmitted ''alice'' ''AC'' (hintClass ''oidc:i:x''),
             LogEvent ''probe diverted colliding hint'' ''bob'' ''AC'',
             LogAdmitted ''bob'' ''AC'' (hintClass ''pri:AC:bob'')]\<rparr>"

lemma ex_step2: "resolve ex_edge jwt_forged ''s2'' ex_p1 = (ex_p2, Ok 1)"
  by (simp add: ex_run ex_p1_def ex_p2_def ex_alice_def ex_bob_def eval_nat_numeral)

end
