(* ===== verification/PoolSafety.thy ===== *)
theory PoolSafety
  imports Example
begin

text \<open>
  What the concurrent pool guarantees: who is served, what a request may change of an entry
  that it does not own, that healthy entries and their sessions stay, and that builds run once
  and nobody waits forever.
\<close>

section \<open>A built entry is final\<close>

text \<open>What no step changes of an entry once it has a connection.\<close>

definition same_identity :: "pool \<Rightarrow> pool \<Rightarrow> eid \<Rightarrow> bool" where
  "same_identity p q e \<longleftrightarrow>
     e < next_eid q \<and> keys (heap q e) = keys (heap p e) \<and> nc (heap q e) = nc (heap p e) \<and>
     principal_of (heap q e) = principal_of (heap p e)"

lemma same_identity_calm: "calm p q \<Longrightarrow> e < next_eid p \<Longrightarrow> same_identity p q e"
  using calm_old [of p q e] by (simp add: same_identity_def)

lemma same_identity_step:
  assumes inv: "core_inv E cf p" and sane: "sane_edge E cf" and ok: "thread_ok E p b pc"
    and st: "thread_step E b s p pc = Some (q, pc')" and e: "e < next_eid p" "nc (heap p e) \<noteq> None"
  shows "same_identity p q e"
proof -
  have "calm p q \<or> build_step p pc" using thread_step_ok [OF inv sane ok st] by blast
  then show ?thesis
  proof
    assume "build_step p pc"
    then consider (start) f h c where "pc = AtBuild f h c" "build (heap p f) = OnceFresh"
      | (finish) f h c d where "pc = AtFinish f h c d" by (cases pc) auto
    then show ?thesis
    proof cases
      case start
      then show ?thesis using st e by (auto simp: same_identity_def principal_of_def)
    next
      case finish
      then have "f \<noteq> e" using ok e building_unbuilt(2) [OF inv] by auto
      then show ?thesis using finish st e connect_finish_other [of e f E d p] by (auto simp: same_identity_def)
    qed
  qed (use same_identity_calm e in blast)
qed

section \<open>Only an admitted bearer touches an entry\<close>

lemma routeByHint_heap:
  "routeByHint b p = (q, r) \<Longrightarrow> e < next_eid p \<Longrightarrow> heap q e = heap p e \<and> e < next_eid q"
  by (auto simp: routeByHint_def Let_def newEntryLocked_def split: option.splits if_splits prod.splits)

lemma routeByBearer_heap:
  "routeByBearer b s p = (q, r) \<Longrightarrow> e < next_eid p \<Longrightarrow> heap q e = heap p e \<and> e < next_eid q"
  using routeByHint_heap [of b p q r e] routeByHint_heap [of b "evictLocked f p" q r e for f]
  by (auto simp: routeByBearer_def split: option.splits if_splits)

lemma resolve_locked_heap:
  "resolve_locked b s p = (q, r) \<Longrightarrow> e < next_eid p \<Longrightarrow> heap q e = heap p e \<and> e < next_eid q"
  using routeByBearer_heap [of b s p q r e] routeByBearer_heap [of b s "evictLocked f p" q r e for f]
  by (auto simp: resolve_locked_def split: option.splits if_splits)

lemma attempt_heap:
  "probe E b p = (q, r) \<Longrightarrow> heap q = heap p" "dial E b p = (q', d) \<Longrightarrow> heap q' = heap p"
  using probe_fields(5) [of E b p] dial_fields(5) [of E b p] by simp_all

lemma ensure_locked_heap:
  "ensure_locked b pr p = (own, q) \<Longrightarrow> e < next_eid p \<Longrightarrow> heap q e = heap p e"
  by (auto simp: ensure_locked_def Let_def newEntryLocked_def split: option.splits if_splits)

text \<open>
  The trust rule: a request changes a built entry only when its bearer was admitted as the
  entry's principal.
\<close>

lemma touch_needs_admission:
  assumes inv: "core_inv E cf p" and ok: "thread_ok E p b pc"
    and st: "thread_step E b s p pc = Some (q, pc')" and e: "e < next_eid p" "nc (heap p e) \<noteq> None"
    and ch: "heap q e \<noteq> heap p e"
  shows "(b, principal_of (heap p e)) \<in> set (granted p)"
proof (cases pc)
  case AtLock
  then show ?thesis using st ch resolve_locked_heap [of b s p _ _ e] e by (auto split: prod.splits)
next
  case (AtAdopt f l)
  then show ?thesis using st ch ok trustedD [of p b f] by (cases "f = e") (auto split: if_splits)
next
  case (AtProbe k)
  then show ?thesis
    using st ch attempt_heap(1) [of E b p] by (auto split: prod.splits res.splits)
next
  case (AtCompare k pr)
  then show ?thesis using st ch by (cases k) (auto split: if_splits)
next
  case (AtAdmitBound f)
  then show ?thesis
    using st ch ok trustedD [of p b f] by (cases "f = e") (auto simp: admitLocked_heap split: if_splits)
next
  case (AtAdmitCand f)
  then show ?thesis
    using st ch ok trustedD [of p b f]
    by (cases "f = e") (auto simp: admit_bind_def admitLocked_heap split: if_splits)
next
  case (AtEnsure pr)
  then show ?thesis using st ch ensure_locked_heap [of b pr p _ q e] e by (auto split: prod.splits)
next
  case (AtBuild f h c)
  then have "f = e" using st ch by (auto split: once.splits if_splits)
  moreover have "build (heap p f) = OnceFresh" using st ch AtBuild by (auto split: once.splits)
  ultimately show ?thesis using e entry_ok_built(3) [OF core_entry [OF inv e(1)]] by auto
next
  case (AtDial f h c)
  then show ?thesis using st ch attempt_heap(2) [of E "token_of p f" p] by (auto split: prod.splits)
next
  case (AtFinish f h c d)
  then have "f \<noteq> e" using ok e building_unbuilt(2) [OF inv] by auto
  then show ?thesis using AtFinish st ch connect_finish_other [of e f E d p] by auto
next
  case (AtEvict f h x)
  then show ?thesis using st ch by (auto simp: build_failed_def)
next
  case (AtAdmitBuilt f)
  then show ?thesis
    using st ch ok trustedD [of p b f]
    by (cases "f = e") (auto simp: admit_bind_def admitLocked_heap split: if_splits)
next
  case (AtAdmitOwn f)
  then show ?thesis
    using st ch ok trustedD [of p b f]
    by (cases "f = e") (auto simp: admit_bind_def admitLocked_heap split: if_splits)
qed (use st ch in auto)

section \<open>Healthy entries are kept\<close>

text \<open>
  A live built entry keeps its connection, its place under its routing key and every session
  bound to it.
\<close>

definition healthy :: "pool \<Rightarrow> eid \<Rightarrow> bool" where
  "healthy p e \<longleftrightarrow> built_entry p e \<and> aliveLocked p e"

definition keeps :: "pool \<Rightarrow> pool \<Rightarrow> bool" where
  "keeps p q \<longleftrightarrow>
     (\<forall>e. healthy p e \<longrightarrow>
        healthy q e \<and> nc (heap q e) = nc (heap p e) \<and>
        (\<forall>s. fmlookup (sessions p) s = Some e \<longrightarrow> fmlookup (sessions q) s = Some e) \<and>
        (\<forall>k. fmlookup (entries p) k = Some e \<longrightarrow> fmlookup (entries q) k = Some e))"

lemma keeps_refl [simp]: "keeps p p"
  by (simp add: keeps_def)

lemma keeps_trans: "keeps p q \<Longrightarrow> keeps q r \<Longrightarrow> keeps p r"
  unfolding keeps_def by auto

text \<open>Steps that drop nothing from the maps and close no connection of a healthy entry.\<close>

lemma keepsI:
  assumes "next_eid p \<le> next_eid q"
    "\<And>e. built_entry p e \<Longrightarrow> nc (heap q e) = nc (heap p e) \<and> err (heap q e) = err (heap p e)"
    "\<And>e c. healthy p e \<Longrightarrow> nc (heap p e) = Some c \<Longrightarrow> c \<in> live p \<Longrightarrow> c \<in> live q"
    "\<And>s e. healthy p e \<Longrightarrow> fmlookup (sessions p) s = Some e \<Longrightarrow> fmlookup (sessions q) s = Some e"
    "\<And>k e. healthy p e \<Longrightarrow> fmlookup (entries p) k = Some e \<Longrightarrow> fmlookup (entries q) k = Some e"
  shows "keeps p q"
  unfolding keeps_def
proof (intro allI impI)
  fix e
  assume h: "healthy p e"
  then obtain c where c: "nc (heap p e) = Some c" "c \<in> live p" "built_entry p e" "err (heap p e) = None"
    by (auto simp: healthy_def built_entry_def aliveLocked_def)
  have "healthy q e"
    using assms(1) assms(2) [OF c(3)] assms(3) [OF h c(1,2)] c by (auto simp: healthy_def built_entry_def aliveLocked_def)
  then show "healthy q e \<and> nc (heap q e) = nc (heap p e) \<and>
        (\<forall>s. fmlookup (sessions p) s = Some e \<longrightarrow> fmlookup (sessions q) s = Some e) \<and>
        (\<forall>k. fmlookup (entries p) k = Some e \<longrightarrow> fmlookup (entries q) k = Some e)"
    using assms(2) [OF c(3)] assms(4,5) [OF h] by blast
qed

lemma keeps_log [simp]: "keeps p (log_line l p)" "keeps p (logRefused h x p)" "keeps p (logf v pr p)"
  by (rule keepsI; simp)+

lemma keeps_bind [simp]: "keeps p (bindLocked s e p)"
  by (rule keepsI) (auto simp: bindLocked_sessions)

lemma keeps_admit [simp]: "keeps p (admitLocked e b p)"
  by (rule keepsI) (auto simp: admitLocked_heap)

lemma keeps_admit_bind [simp]: "keeps p (admit_bind e b s p)"
  unfolding admit_bind_def by (rule keeps_trans [OF keeps_admit keeps_bind])

lemma keeps_adopt [simp]: "keeps p (adopt e b p)"
  by (rule keepsI) auto

lemma keeps_evict:
  assumes inv: "core_inv E cf p" and f: "f < next_eid p" and d: "\<not> aliveLocked p f"
  shows "keeps p (evictLocked f p)"
proof (rule keepsI)
  fix e c
  assume h: "healthy p e" and c: "nc (heap p e) = Some c" "c \<in> live p"
  have e: "e < next_eid p" using h by (simp add: healthy_def built_entry_def)
  have "nc (heap p f) \<noteq> Some c"
    using core_conns [OF inv e f c(1)] d h by (auto simp: healthy_def)
  then show "c \<in> live (evictLocked f p)"
    using c entry_ok_conn_of [OF core_entry [OF inv f]] by simp
qed (use d in \<open>auto simp: healthy_def fmlookup_drop_if split: option.splits\<close>)

lemma keeps_new:
  assumes "\<And>e. fmlookup (entries p) k = Some e \<Longrightarrow> \<not> healthy p e"
  shows "keeps p (snd (newEntryLocked k b p))"
  by (rule keepsI) (use assms in \<open>auto simp: built_entry_def\<close>)

lemma keeps_alloc: "fmlookup (entries p) k = None \<Longrightarrow> keeps p (snd (newEntryLocked k b p))"
  by (rule keeps_new) simp

text \<open>Evicting the dead entry of a key and allocating a new one under the key.\<close>

lemma keeps_replace:
  assumes inv: "core_inv E cf p" and f: "fmlookup (entries p) k = Some f" "\<not> aliveLocked p f"
  shows "keeps p (snd (newEntryLocked k b (evictLocked f p)))"
proof (rule keeps_trans [OF keeps_evict [OF inv _ f(2)] keeps_new])
  show "f < next_eid p" using core_entries [OF inv f(1)] by blast
  fix e
  assume "fmlookup (entries (evictLocked f p)) k = Some e"
  then show "\<not> healthy (evictLocked f p) e"
    using f core_entries [OF inv f(1)] by (auto simp: fmlookup_drop_if)
qed

lemma routeByHint_keeps:
  assumes inv: "core_inv E cf p" and r: "routeByHint b p = (q, r)"
  shows "keeps p q"
proof (cases "fmlookup (entries p) (routeHint b)")
  case None
  then have "q = snd (newEntryLocked (routeHint b) b p)"
    using r by (auto simp: routeByHint_def Let_def newEntryLocked_def)
  then show ?thesis using keeps_alloc [OF None] by simp
next
  case (Some f)
  show ?thesis
  proof (cases "aliveLocked p f")
    case True
    then show ?thesis using r Some by (auto simp: routeByHint_def Let_def)
  next
    case False
    then have "q = snd (newEntryLocked (routeHint b) b (evictLocked f p))"
      using r Some by (auto simp: routeByHint_def Let_def newEntryLocked_def)
    then show ?thesis using keeps_replace [OF inv Some False] by simp
  qed
qed

lemma routeByBearer_keeps:
  assumes inv: "core_inv E cf p" and r: "routeByBearer b s p = (q, r)"
  shows "keeps p q"
proof (cases "fmlookup (byBearer p) b")
  case None
  then show ?thesis using r routeByHint_keeps [OF inv] by (simp add: routeByBearer_def)
next
  case (Some f)
  have f: "f < next_eid p" using core_byBearer [OF inv Some] by blast
  show ?thesis
  proof (cases "aliveLocked p f")
    case True
    then have "q = bindLocked s f p" using r Some by (simp add: routeByBearer_def)
    then show ?thesis by simp
  next
    case False
    then have "routeByHint b (evictLocked f p) = (q, r)" using r Some by (simp add: routeByBearer_def)
    then show ?thesis
      using routeByHint_keeps [OF core_inv_evict [OF inv]] keeps_trans [OF keeps_evict [OF inv f False]] by blast
  qed
qed

lemma resolve_locked_keeps:
  assumes inv: "core_inv E cf p" and r: "resolve_locked b s p = (q, r)"
  shows "keeps p q"
proof (cases "if s = [] then None else fmlookup (sessions p) s")
  case None
  then show ?thesis using r routeByBearer_keeps [OF inv] by (simp add: resolve_locked_def)
next
  case (Some f)
  then have f: "f < next_eid p" using core_sessions [OF inv, of s f] by (auto split: if_splits)
  show ?thesis
  proof (cases "aliveLocked p f")
    case True
    then show ?thesis using r Some by (auto simp: resolve_locked_def split: if_splits option.splits)
  next
    case False
    then have "routeByBearer b s (evictLocked f p) = (q, r)" using r Some by (simp add: resolve_locked_def)
    then show ?thesis
      using routeByBearer_keeps [OF core_inv_evict [OF inv]] keeps_trans [OF keeps_evict [OF inv f False]] by blast
  qed
qed

lemma ensure_locked_keeps:
  assumes inv: "core_inv E cf p" and r: "ensure_locked b pr p = (own, q)"
  shows "keeps p q"
proof (cases "fmlookup (entries p) (principal_key pr)")
  case None
  then have "q = snd (newEntryLocked (principal_key pr) b p)"
    using r by (auto simp: ensure_locked_def newEntryLocked_def Let_def)
  then show ?thesis using keeps_alloc [OF None] by simp
next
  case (Some f)
  show ?thesis
  proof (cases "aliveLocked p f")
    case True
    then show ?thesis using r Some by (auto simp: ensure_locked_def)
  next
    case False
    then have "q = snd (newEntryLocked (principal_key pr) b (evictLocked f p))"
      using r Some by (auto simp: ensure_locked_def newEntryLocked_def Let_def)
    then show ?thesis using keeps_replace [OF inv Some False] by simp
  qed
qed

lemma keeps_attempt:
  assumes "heap q = heap p" "next_eid q = next_eid p" "live p \<subseteq> live q" "sessions q = sessions p"
    "entries q = entries p"
  shows "keeps p q"
  by (rule keepsI) (use assms in auto)

lemma live_dial: "live p \<subseteq> live (fst (dial E b p))"
  by (auto simp: dial_def Let_def split: option.splits)

lemma keeps_dial: "keeps p (fst (dial E b p))"
  by (rule keeps_attempt) (use live_dial in auto)

lemma keeps_probe: "core_inv E cf p \<Longrightarrow> keeps p (fst (probe E b p))"
  by (rule keeps_attempt) (simp_all add: probe_live)

lemma keeps_start: "build (heap p e) = OnceFresh \<Longrightarrow> keeps p (start_build e p)"
  by (rule keepsI) auto

lemma connect_finish_live:
  "live (connect_finish E e d p) = live p \<or> (\<exists>c. fst (snd d) = Some c \<and> live (connect_finish E e d p) = live p - {c})"
  by (auto simp: connect_finish_def fail_build_def Let_def split: prod.splits option.splits res.splits)

lemma keeps_finish:
  assumes inv: "core_inv E cf p" and bd: "building p e" and d: "dial_ok E p e d"
  shows "keeps p (connect_finish E e d p)"
proof (rule keepsI)
  note u = building_unbuilt [OF inv bd]
  show "nc (heap (connect_finish E e d p) f) = nc (heap p f) \<and> err (heap (connect_finish E e d p) f) = err (heap p f)"
    if "built_entry p f" for f
    using that u(2) connect_finish_other [of f e E d p] by (cases "f = e") (auto simp: built_entry_def)
  fix f c
  assume h: "healthy p f" and c: "nc (heap p f) = Some c" "c \<in> live p"
  have "fst (snd d) \<noteq> Some c"
    using d h c by (auto simp: dial_ok_def healthy_def built_entry_def)
  then show "c \<in> live (connect_finish E e d p)"
    using connect_finish_live [of E e d p] c by auto
qed simp_all

lemma keeps_step:
  assumes inv: "core_inv E cf p" and ok: "thread_ok E p b pc"
    and st: "thread_step E b s p pc = Some (q, pc')"
  shows "keeps p q"
proof (cases pc)
  case AtLock
  then show ?thesis using st resolve_locked_keeps [OF inv] by (auto split: prod.splits)
next
  case (AtAdopt f l)
  have "keeps p (logf x (principal_of (heap p f)) (adopt f b p))" for x
    by (rule keeps_trans [OF keeps_adopt keeps_log(3)])
  then show ?thesis using st AtAdopt by (auto split: if_splits)
next
  case (AtProbe k)
  obtain q1 r where r: "probe E b p = (q1, r)" by fastforce
  have k1: "keeps p q1" using keeps_probe [OF inv, of b] r by simp
  show ?thesis using st AtProbe r keeps_trans [OF k1 keeps_log(2)] k1 by (cases r) auto
next
  case (AtCompare k pr)
  then show ?thesis using st by (cases k) (auto split: if_splits)
next
  case (AtEnsure pr)
  then show ?thesis using st ensure_locked_keeps [OF inv] by (auto split: prod.splits)
next
  case (AtBuild f h c)
  then show ?thesis using st keeps_start by (auto split: once.splits)
next
  case (AtDial f h c)
  then show ?thesis using st keeps_dial [of p E "token_of p f"] by (auto split: prod.splits)
next
  case (AtFinish f h c d)
  then show ?thesis using st ok keeps_finish [OF inv, of f d] by simp
next
  case (AtEvict f h x)
  then show ?thesis
    using st ok keeps_trans [OF keeps_evict [OF inv, of f] keeps_log(2)]
    by (auto simp: build_failed_def aliveLocked_def)
qed (use st in auto)

section \<open>Requests finish\<close>

text \<open>The number of own steps a request has left, at most.\<close>

fun rank :: "pc \<Rightarrow> nat" where
  "rank AtLock = 12"
| "rank (AtProbe k) = 11"
| "rank (AtCompare k pr) = 10"
| "rank (AtEnsure pr) = 9"
| "rank (AtBuild e h c) = 8"
| "rank (AtDial e h c) = 7"
| "rank (AtFinish e h c d) = 6"
| "rank (AtBuilt e h c) = 5"
| "rank (AtEvict e h x) = 4"
| "rank (AtAdmitBuilt e) = 4"
| "rank (AtAdmitOwn e) = 4"
| "rank (AtAdmitBound e) = 4"
| "rank (AtAdmitCand e) = 4"
| "rank (AtAdopt e l) = 3"
| "rank (Returned r) = 0"

lemma rank_step: "thread_step E b s p pc = Some (q, pc') \<Longrightarrow> rank pc' < rank pc"
  by (induction E b s p pc rule: thread_step.induct) (auto simp: route_pc_def split: step_splits)

text \<open>A thread can step unless it has returned or waits for a build that another one runs.\<close>

lemma stuck_iff:
  "thread_step E b s p pc = None \<longleftrightarrow>
     (\<exists>r. pc = Returned r) \<or> (\<exists>e h c. pc = AtBuild e h c \<and> build (heap p e) = OnceRunning)"
  by (induction E b s p pc rule: thread_step.induct) (auto split: step_splits)

definition returned :: "pc \<Rightarrow> bool" where
  "returned pc \<longleftrightarrow> rank pc = 0"

lemma returned_iff: "returned pc \<longleftrightarrow> (\<exists>r. pc = Returned r)"
  by (cases pc) (simp_all add: returned_def)

inductive run_step :: "edge \<Rightarrow> sys \<Rightarrow> sys \<Rightarrow> bool" for E where
  run_step: "i < length (threads S) \<Longrightarrow> th = threads S ! i \<Longrightarrow>
     thread_step E (t_bearer th) (t_sid th) (pl S) (t_pc th) = Some (q, pc') \<Longrightarrow>
     run_step E S (S\<lparr>pl := q, threads := (threads S)[i := th\<lparr>t_pc := pc'\<rparr>]\<rparr>)"

inductive_cases run_stepE: "run_step E S T"

definition work :: "sys \<Rightarrow> nat" where
  "work S = sum_list (map (\<lambda>th. rank (t_pc th)) (threads S))"

lemma run_step_sys: "run_step E S T \<Longrightarrow> sys_step E S T"
  by (erule run_stepE) (auto intro: sys_step.run)

lemma sum_list_update_less:
  "i < length xs \<Longrightarrow> f x < f (xs ! i) \<Longrightarrow> sum_list (map f (xs[i := x])) < (sum_list (map f xs) :: nat)"
  by (induction xs arbitrary: i) (auto split: nat.splits)

lemma run_step_work: "run_step E S T \<Longrightarrow> work T < work S"
  by (erule run_stepE) (auto simp: work_def intro!: sum_list_update_less dest: rank_step)

lemma can_run:
  assumes inv: "sys_inv E cf S" and th: "th \<in> set (threads S)" "\<not> returned (t_pc th)"
  shows "\<exists>T. run_step E S T"
proof -
  note I = sys_inv_parts [OF inv]
  have go: "\<exists>T. run_step E S T"
    if "t \<in> set (threads S)" "thread_step E (t_bearer t) (t_sid t) (pl S) (t_pc t) \<noteq> None" for t
  proof -
    note t = that
    obtain i where i: "i < length (threads S)" "t = threads S ! i"
      using t(1) unfolding in_set_conv_nth by blast
    obtain q pc' where "thread_step E (t_bearer t) (t_sid t) (pl S) (t_pc t) = Some (q, pc')"
      using t(2) by (cases "thread_step E (t_bearer t) (t_sid t) (pl S) (t_pc t)") auto
    then show ?thesis using run_step.run_step [OF i] by blast
  qed
  show ?thesis
  proof (cases "thread_step E (t_bearer th) (t_sid th) (pl S) (t_pc th) = None")
    case True
    then obtain e h c where w: "t_pc th = AtBuild e h c" "build (heap (pl S) e) = OnceRunning"
      using th(2) unfolding stuck_iff returned_iff by blast
    have "thread_ok E (pl S) (t_bearer th) (t_pc th)" using I(3) th(1) by (simp add: threads_ok_def)
    then have "e < next_eid (pl S)" using w(1) claim_bound by simp
    then have "building (pl S) e" using w(2) by (simp add: building_def)
    then obtain t where t: "t \<in> set (threads S)" "owns (t_pc t) = Some e"
      using I(6) unfolding running_owned_def by blast
    have "thread_step E (t_bearer t) (t_sid t) (pl S) (t_pc t) \<noteq> None"
      using t(2) unfolding stuck_iff by (cases "t_pc t") auto
    then show ?thesis using go t(1) by blast
  qed (use go th(1) in blast)
qed

lemma run_steps_inv: "(run_step E ^^ k) S T \<Longrightarrow> sys_inv E cf S \<Longrightarrow> sys_inv E cf T"
proof (induction k arbitrary: T)
  case (Suc k)
  then obtain U where U: "(run_step E ^^ k) S U" "run_step E U T" by (meson relpowp_Suc_E)
  show ?case by (rule sys_inv_step [OF Suc.IH [OF U(1) Suc.prems(2)] run_step_sys [OF U(2)]])
qed simp

lemma run_steps_work: "(run_step E ^^ k) S T \<Longrightarrow> k + work T \<le> work S"
proof (induction k arbitrary: T)
  case (Suc k)
  then obtain U where U: "(run_step E ^^ k) S U" "run_step E U T" by (meson relpowp_Suc_E)
  then show ?case using Suc.IH [OF U(1)] run_step_work [OF U(2)] by simp
qed simp

end
