(* ===== verification/PoolSeq.thy ===== *)
theory PoolSeq
  imports PoolSafety
begin

text \<open>
  \<open>resolve\<close> as one function against \<open>resolve\<close> as a thread: a request that runs alone takes
  the steps of the thread and ends with the result of the function. What holds of every step
  then holds of the whole call.
\<close>

section \<open>The function is the lone run of the thread\<close>

lemma idle_update [simp]:
  "build x \<noteq> OnceRunning \<Longrightarrow> heap q = (heap p)(e := x) \<Longrightarrow> no_build_running p \<Longrightarrow> no_build_running q"
  by (auto simp: no_build_running_def)

lemma idle_heap: "heap q = heap p \<Longrightarrow> no_build_running p \<Longrightarrow> no_build_running q"
  by (simp add: no_build_running_def)

lemma idle_evict [simp]: "no_build_running p \<Longrightarrow> no_build_running (evictLocked e p)"
  by (erule idle_heap [rotated]) simp

lemma idle_bind [simp]: "no_build_running p \<Longrightarrow> no_build_running (bindLocked s e p)"
  by (erule idle_heap [rotated]) simp

lemma idle_log [simp]:
  "no_build_running p \<Longrightarrow> no_build_running (logRefused h x p)"
  "no_build_running p \<Longrightarrow> no_build_running (logf v pr p)"
  by (erule idle_heap [rotated], simp)+

lemma idle_new [simp]: "no_build_running p \<Longrightarrow> no_build_running (snd (newEntryLocked k b p))"
  by (auto simp: no_build_running_def)

lemma idle_admit [simp]: "no_build_running p \<Longrightarrow> no_build_running (admitLocked e b p)"
  by (auto simp: no_build_running_def admitLocked_heap)

lemma idle_adopt [simp]: "no_build_running p \<Longrightarrow> no_build_running (adopt e b p)"
  by (auto simp: no_build_running_def)

lemma idle_routeByHint: "routeByHint b p = (q, r) \<Longrightarrow> no_build_running p \<Longrightarrow> no_build_running q"
  by (auto simp: routeByHint_def Let_def no_build_running_def newEntryLocked_def split: option.splits if_splits)

lemma idle_routeByBearer: "routeByBearer b s p = (q, r) \<Longrightarrow> no_build_running p \<Longrightarrow> no_build_running q"
  using idle_routeByHint [of b _ q r]
  by (auto simp: routeByBearer_def split: option.splits if_splits)

lemma idle_resolve_locked: "resolve_locked b s p = (q, r) \<Longrightarrow> no_build_running p \<Longrightarrow> no_build_running q"
  using idle_routeByBearer [of b s _ q r]
  by (auto simp: resolve_locked_def split: option.splits if_splits)

lemma idle_ensure_locked: "ensure_locked b pr p = (own, q) \<Longrightarrow> no_build_running p \<Longrightarrow> no_build_running q"
  by (auto simp: ensure_locked_def Let_def no_build_running_def newEntryLocked_def split: option.splits if_splits)

lemma idle_probe: "probe E b p = (q, r) \<Longrightarrow> no_build_running p \<Longrightarrow> no_build_running q"
  using attempt_heap(1) idle_heap by metis

lemma connect_finish_build:
  "build (heap (connect_finish E e d p) f) = (if f = e then OnceDone else build (heap p f))"
  using connect_finish_entry(4) [of E e d p] connect_finish_other [of f e E d p] by simp

lemma lone_build:
  assumes "no_build_running p" "build_Do E e p = (q, pan)"
  shows "lone_run E b s (p, AtBuild e h c) (q, if pan then Returned Panic else AtBuilt e h c)"
    "no_build_running q"
proof -
  show "no_build_running q"
    using assms attempt_heap(2) [of E "token_of p e" "start_build e p"]
    by (auto simp: build_Do_def no_build_running_def connect_finish_build split: if_splits prod.splits)
  show "lone_run E b s (p, AtBuild e h c) (q, if pan then Returned Panic else AtBuilt e h c)"
  proof (cases "build (heap p e)")
    case OnceFresh
    obtain p1 d where d: "dial E (token_of p e) (start_build e p) = (p1, d)" by (metis surj_pair)
    have t: "token_of (start_build e p) e = token_of p e" by (simp add: token_of_def)
    have r: "q = connect_finish E e d p1" "pan = panicked d"
      using assms(2) OnceFresh d by (auto simp: build_Do_def)
    show ?thesis
      by (rule lone_run_step, simp add: OnceFresh, rule lone_run_step, simp add: t d, rule lone_run_step, simp, simp add: r)
  next
    case OnceDone
    then have "q = p" "pan = False" using assms(2) by (auto simp: build_Do_def)
    moreover have "lone_run E b s (p, AtBuild e h c) (p, AtBuilt e h c)"
      by (rule lone_run_step [OF _ lone_run_refl]) (simp add: OnceDone)
    ultimately show ?thesis by simp
  qed (use assms(1) in \<open>simp add: no_build_running_def\<close>)
qed

text \<open>What a caller of \<open>Do\<close> goes on to: a failed build returns, a good one is used.\<close>

definition good_pc :: "eid \<Rightarrow> caller \<Rightarrow> pc" where
  "good_pc e c = (case c of FromResolve \<Rightarrow> AtAdmitBuilt e | FromEnsure \<Rightarrow> AtAdmitOwn e)"

lemma lone_use:
  assumes idle: "no_build_running p" and d: "build_Do E e p = (q, False)"
  shows "err (heap q e) = Some x \<Longrightarrow>
      lone_run E b s (p, AtBuild e h c) (build_failed e h x q, Returned (Err x))"
    "err (heap q e) = None \<Longrightarrow> lone_run E b s (p, AtBuild e h c) (q, good_pc e c)"
proof -
  have r: "lone_run E b s (p, AtBuild e h c) (q, AtBuilt e h c)" using lone_build(1) [OF idle d] by simp
  show "lone_run E b s (p, AtBuild e h c) (build_failed e h x q, Returned (Err x))" if "err (heap q e) = Some x"
    by (rule lone_run_trans [OF r], rule lone_run_step, simp add: that, rule lone_run_step, simp, simp)
  show "lone_run E b s (p, AtBuild e h c) (q, good_pc e c)" if "err (heap q e) = None"
    by (rule lone_run_trans [OF r], rule lone_run_step, simp add: that good_pc_def, simp add: good_pc_def)
qed

lemma lone_serve:
  assumes "no_build_running p" "serve_built E b s e h p = (q, r)"
  shows "lone_run E b s (p, AtBuild e h FromResolve) (q, Returned r) \<and> no_build_running q"
proof -
  obtain p1 pan where d: "build_Do E e p = (p1, pan)" by fastforce
  note i1 = lone_build(2) [OF assms(1) d]
  show ?thesis
  proof (cases pan)
    case True
    then show ?thesis using assms(2) d lone_build(1) [OF assms(1) d] i1 by (auto simp: serve_built_def)
  next
    case False
    then have d: "build_Do E e p = (p1, False)" using d by simp
    show ?thesis
    proof (cases "err (heap p1 e)")
      case None
      have "lone_run E b s (p, AtBuild e h FromResolve) (admit_bind e b s p1, Returned (Ok e))"
        by (rule lone_run_trans [OF lone_use(2) [OF assms(1) d None]], rule lone_run_step)
          (simp add: good_pc_def, rule lone_run_refl)
      then show ?thesis using assms(2) d None i1 by (auto simp: serve_built_def admit_bind_def)
    next
      case (Some x)
      then show ?thesis
        using assms(2) d i1 lone_use(1) [OF assms(1) d Some] by (auto simp: serve_built_def build_failed_def)
    qed
  qed
qed

lemma lone_ensure:
  assumes "no_build_running p" "ensurePrincipal E b pr p = (q, r)"
  shows "lone_run E b s (p, AtEnsure pr) (q, case r of Ok own \<Rightarrow> AtAdmitOwn own | Err x \<Rightarrow> Returned (Err x) | Panic \<Rightarrow> Returned Panic)
    \<and> no_build_running q"
proof -
  obtain e p0 where e: "ensure_locked b pr p = (e, p0)" by fastforce
  note i0 = idle_ensure_locked [OF e assms(1)]
  let ?h = "principal_key pr"
  have st: "lone_run E b s (p, AtEnsure pr) z" if "lone_run E b s (p0, AtBuild e ?h FromEnsure) z" for z
    by (rule lone_run_step [OF _ that]) (simp add: e)
  obtain p1 pan where d: "build_Do E e p0 = (p1, pan)" by fastforce
  note i1 = lone_build(2) [OF i0 d]
  show ?thesis
  proof (cases pan)
    case True
    then show ?thesis
      using assms(2) e d st lone_build(1) [OF i0 d] i1 by (auto simp: ensurePrincipal_def)
  next
    case False
    then have d: "build_Do E e p0 = (p1, False)" using d by simp
    show ?thesis
    proof (cases "err (heap p1 e)")
      case None
      then show ?thesis
        using assms(2) e d i1 st [OF lone_use(2) [OF i0 d None]]
        by (auto simp: ensurePrincipal_def good_pc_def)
    next
      case (Some x)
      then show ?thesis
        using assms(2) e d i1 st [OF lone_use(1) [OF i0 d Some]]
        by (auto simp: ensurePrincipal_def build_failed_def)
    qed
  qed
qed

text \<open>The log line of a probe and adopting the bearer commute.\<close>

lemma lone_adopt:
  "lone_run E b s (p, AtAdopt e False) (adopt e b p, Returned (Ok e))"
  "lone_run E b s (p, AtAdopt e True)
     (logf ''probe adopted fresh bearer'' (principal_of (heap p e)) (adopt e b p), Returned (Ok e))"
  by (rule lone_run_step, simp, rule lone_run_refl)+

lemma lone_candidate:
  assumes "no_build_running p" "candidate E b s e p = (q, r)"
  shows "lone_run E b s (p, AtProbe (ForCandidate e)) (q, Returned r) \<and> no_build_running q"
proof -
  obtain p1 pr where pr: "probe E b p = (p1, pr)" by fastforce
  note i1 = idle_probe [OF pr assms(1)]
  show ?thesis
  proof (cases pr)
    case (Err x)
    have "lone_run E b s (p, AtProbe (ForCandidate e)) (logRefused (routeHint b) x p1, Returned (Err x))"
      by (rule lone_run_step, simp add: pr Err probe_log_def, rule lone_run_refl)
    then show ?thesis using assms(2) pr Err i1 by (auto simp: candidate_def)
  next
    case Panic
    have "lone_run E b s (p, AtProbe (ForCandidate e)) (p1, Returned Panic)"
      by (rule lone_run_step, simp add: pr Panic, rule lone_run_refl)
    then show ?thesis using assms(2) pr Panic i1 by (auto simp: candidate_def)
  next
    case (Ok u)
    have st: "lone_run E b s (p, AtProbe (ForCandidate e)) z"
      if "lone_run E b s (p1, AtCompare (ForCandidate e) u) z" for z
      by (rule lone_run_step [OF _ that]) (simp add: pr Ok)
    show ?thesis
    proof (cases "u = principal_of (heap p1 e)")
      case True
      let ?p2 = "admit_bind e b s p1"
      have h: "principal_of (heap ?p2 e) = principal_of (heap p1 e)"
        by (simp add: admit_bind_def admitLocked_heap principal_of_def)
      have "lone_run E b s (p, AtProbe (ForCandidate e))
              (logf ''probe adopted fresh bearer'' (principal_of (heap p1 e)) (adopt e b ?p2), Returned (Ok e))"
        by (rule st, rule lone_run_step, simp add: True, rule lone_run_step, simp,
            rule lone_adopt(2) [of E b s ?p2 e, unfolded h])
      then show ?thesis using assms(2) pr Ok True i1 by (auto simp: candidate_def admit_bind_def)
    next
      case False
      let ?p2 = "logf ''probe diverted colliding hint'' u p1"
      obtain p3 r3 where en: "ensurePrincipal E b u ?p2 = (p3, r3)" by fastforce
      note i2 = idle_log(2) [OF i1, of "''probe diverted colliding hint''" u]
      note le = lone_ensure [OF i2 en, of s]
      have go: "lone_run E b s (p, AtProbe (ForCandidate e)) z" if "lone_run E b s (?p2, AtEnsure u) z" for z
        by (rule st, rule lone_run_step [OF _ that]) (simp add: False)
      show ?thesis
      proof (cases r3)
        case O3: (Ok own)
        then have l: "lone_run E b s (?p2, AtEnsure u) (p3, AtAdmitOwn own)" using le by simp
        have "lone_run E b s (?p2, AtEnsure u) (adopt own b (admit_bind own b s p3), Returned (Ok own))"
          by (rule lone_run_trans [OF l], rule lone_run_step, simp, rule lone_adopt(1))
        then show ?thesis using assms(2) pr Ok False en O3 le go by (auto simp: candidate_def admit_bind_def)
      qed (use assms(2) pr Ok False en le go in \<open>auto simp: candidate_def\<close>)
    qed
  qed
qed

lemma lone_bound:
  assumes "no_build_running p" "candidateForBound E b e p = (q, r)"
  shows "lone_run E b s (p, AtProbe (ForBound e)) (q, Returned r) \<and> no_build_running q"
proof -
  obtain p1 pr where pr: "probe E b p = (p1, pr)" by fastforce
  note i1 = idle_probe [OF pr assms(1)]
  show ?thesis
  proof (cases pr)
    case (Err x)
    have "lone_run E b s (p, AtProbe (ForBound e)) (logRefused ''session-refresh'' x p1, Returned (Err x))"
      by (rule lone_run_step, simp add: pr Err probe_log_def, rule lone_run_refl)
    then show ?thesis using assms(2) pr Err i1 by (auto simp: candidateForBound_def)
  next
    case Panic
    have "lone_run E b s (p, AtProbe (ForBound e)) (p1, Returned Panic)"
      by (rule lone_run_step, simp add: pr Panic, rule lone_run_refl)
    then show ?thesis using assms(2) pr Panic i1 by (auto simp: candidateForBound_def)
  next
    case (Ok u)
    have st: "lone_run E b s (p, AtProbe (ForBound e)) z"
      if "lone_run E b s (p1, AtCompare (ForBound e) u) z" for z
      by (rule lone_run_step [OF _ that]) (simp add: pr Ok)
    show ?thesis
    proof (cases "u = principal_of (heap p1 e)")
      case True
      let ?p2 = "admitLocked e b p1"
      have h: "principal_of (heap ?p2 e) = principal_of (heap p1 e)"
        by (simp add: admitLocked_heap principal_of_def)
      have "lone_run E b s (p, AtProbe (ForBound e))
              (logf ''probe adopted fresh bearer'' (principal_of (heap p1 e)) (adopt e b ?p2), Returned (Ok e))"
        by (rule st, rule lone_run_step, simp add: True, rule lone_run_step, simp,
            rule lone_adopt(2) [of E b s ?p2 e, unfolded h])
      then show ?thesis using assms(2) pr Ok True i1 by (auto simp: candidateForBound_def)
    next
      case False
      have "lone_run E b s (p, AtProbe (ForBound e)) (p1, Returned (Err SessionPrincipalMismatch))"
        by (rule st, rule lone_run_step, simp add: False, rule lone_run_refl)
      then show ?thesis using assms(2) pr Ok False i1 by (auto simp: candidateForBound_def)
    qed
  qed
qed

lemma resolve_lone_run:
  assumes "no_build_running p" "resolve E b s p = (q, r)"
  shows "lone_run E b s (p, AtLock) (q, Returned r) \<and> no_build_running q"
proof -
  obtain p1 rt where rt: "resolve_locked b s p = (p1, rt)" by fastforce
  note i1 = idle_resolve_locked [OF rt assms(1)]
  have st: "lone_run E b s (p, AtLock) z" if "lone_run E b s (p1, route_pc rt) z" for z
    by (rule lone_run_step [OF _ that]) (simp add: rt)
  have fr: "follow_route E b s (p1, rt) = (q, r)" using assms(2) rt by (simp add: resolve_def)
  have "lone_run E b s (p1, route_pc rt) (q, Returned r) \<and> no_build_running q"
  proof (cases rt)
    case (ServeAdopt e)
    then show ?thesis using fr i1 lone_adopt(1) [of E b s p1 e] by (auto simp: follow_route_def route_pc_def)
  next
    case (BuildEntry e h)
    then show ?thesis using fr lone_serve [OF i1] by (simp add: follow_route_def route_pc_def)
  next
    case (ProbeForBound e)
    then show ?thesis using fr lone_bound [OF i1] by (simp add: follow_route_def route_pc_def)
  next
    case (ProbeCandidate e)
    then show ?thesis using fr lone_candidate [OF i1] by (simp add: follow_route_def route_pc_def)
  qed (use fr i1 in \<open>auto simp: follow_route_def route_pc_def\<close>)
  then show ?thesis using st by blast
qed

section \<open>What a whole call guarantees\<close>

text \<open>
  What a request with a bearer leaves as it was: healthy entries are kept, built entries keep
  their identity, and only those are changed at all whose principal the bearer was admitted as.
\<close>

definition harmless :: "bearer \<Rightarrow> pool \<Rightarrow> pool \<Rightarrow> bool" where
  "harmless b p q \<longleftrightarrow>
     set (granted p) \<subseteq> set (granted q) \<and> keeps p q \<and>
     (\<forall>e. built_entry p e \<longrightarrow> same_identity p q e \<and>
        (heap q e \<noteq> heap p e \<longrightarrow> (b, principal_of (heap p e)) \<in> set (granted q)))"

lemma harmless_refl [simp]: "harmless b p p"
  by (simp add: harmless_def same_identity_def built_entry_def)

lemma harmless_trans:
  assumes "harmless b p q" "harmless b q r"
  shows "harmless b p r"
proof -
  have "same_identity p r e \<and> (heap r e \<noteq> heap p e \<longrightarrow> (b, principal_of (heap p e)) \<in> set (granted r))"
    if e: "built_entry p e" for e
  proof -
    have pq: "same_identity p q e" "heap q e \<noteq> heap p e \<Longrightarrow> (b, principal_of (heap p e)) \<in> set (granted q)"
      using assms(1) e unfolding harmless_def by blast+
    then have "built_entry q e" using e by (simp add: built_entry_def same_identity_def)
    then have qr: "same_identity q r e" "heap r e \<noteq> heap q e \<Longrightarrow> (b, principal_of (heap q e)) \<in> set (granted r)"
      using assms(2) unfolding harmless_def by blast+
    have "set (granted q) \<subseteq> set (granted r)" using assms(2) by (simp add: harmless_def)
    then show ?thesis
      using pq qr by (cases "heap q e = heap p e") (auto simp: same_identity_def)
  qed
  then show ?thesis
    using assms keeps_trans unfolding harmless_def by (blast intro: subset_trans)
qed

lemma harmless_step:
  assumes inv: "core_inv E cf p" and sane: "sane_edge E cf" and ok: "thread_ok E p b pc"
    and st: "thread_step E b s p pc = Some (q, pc')"
  shows "harmless b p q"
proof -
  have "calm p q \<or> build_step p pc" using thread_step_ok [OF inv sane ok st] by blast
  then have g: "set (granted p) \<subseteq> set (granted q)"
  proof
    assume "build_step p pc"
    then show ?thesis using st by (cases pc) (auto split: if_splits)
  qed (simp add: calm_def)
  then show ?thesis
    using keeps_step [OF inv ok st] same_identity_step [OF inv sane ok st]
      touch_needs_admission [OF inv ok st]
    unfolding harmless_def built_entry_def by blast
qed

lemma lone_run_ok:
  assumes "lone_run E b s x y" "sane_edge E cf" "core_inv E cf (fst x)" "thread_ok E (fst x) b (snd x)"
  shows "core_inv E cf (fst y) \<and> thread_ok E (fst y) b (snd y) \<and> harmless b (fst x) (fst y)"
  using assms(1) unfolding lone_run_def
proof (induction rule: rtranclp_induct)
  case base
  then show ?case using assms by simp
next
  case (step y z)
  have st: "thread_step E b s (fst y) (snd y) = Some (fst z, snd z)"
    using step.hyps(2) by (simp add: lone_step_def)
  have inv: "core_inv E cf (fst y)" "thread_ok E (fst y) b (snd y)" using step.IH by blast+
  show ?case
    using thread_step_ok [OF inv(1) assms(2) inv(2) st] harmless_step [OF inv(1) assms(2) inv(2) st]
      harmless_trans step.IH by blast
qed

lemma resolve_ok:
  assumes "sane_edge E cf" "core_inv E cf p" "no_build_running p" "resolve E b s p = (q, r)"
  shows "core_inv E cf q" "no_build_running q" "harmless b p q" "r = Ok e \<Longrightarrow> trusted q b e" "r \<noteq> Panic"
proof -
  note l = resolve_lone_run [OF assms(3,4)]
  note k = lone_run_ok [OF conjunct1 [OF l] assms(1), simplified, OF assms(2)]
  show "core_inv E cf q" "no_build_running q" "harmless b p q" using k l by blast+
  show "r = Ok e \<Longrightarrow> trusted q b e" "r \<noteq> Panic" using k by (auto split: res.splits)
qed

section \<open>A lone run inside the system\<close>

lemma lone_run_sys:
  assumes "lone_run E b s x y"
  shows "\<And>S i. i < length (threads S) \<Longrightarrow> threads S ! i = \<lparr>t_bearer = b, t_sid = s, t_pc = snd x\<rparr> \<Longrightarrow>
     pl S = fst x \<Longrightarrow>
     (sys_step E)\<^sup>*\<^sup>* S (S\<lparr>pl := fst y, threads := (threads S)[i := \<lparr>t_bearer = b, t_sid = s, t_pc = snd y\<rparr>]\<rparr>)"
  using assms unfolding lone_run_def
proof (induction rule: converse_rtranclp_induct)
  case base
  have "S\<lparr>pl := pl S, threads := (threads S)[i := threads S ! i]\<rparr> = S" for S :: sys and i by simp
  then show ?case using base by (metis rtranclp.rtrancl_refl)
next
  case (step x z)
  let ?T = "S\<lparr>pl := fst z, threads := (threads S)[i := \<lparr>t_bearer = b, t_sid = s, t_pc = snd z\<rparr>]\<rparr>"
  have "thread_step E b s (fst x) (snd x) = Some (fst z, snd z)"
    using step.hyps(1) by (simp add: lone_step_def)
  then have "sys_step E S ?T"
    using sys_step.run [of i S "threads S ! i" E "fst z" "snd z"] step.prems by simp
  moreover have "(sys_step E)\<^sup>*\<^sup>* ?T (?T\<lparr>pl := fst y, threads := (threads ?T)[i := \<lparr>t_bearer = b, t_sid = s, t_pc = snd y\<rparr>]\<rparr>)"
    using step.IH [of i ?T] step.prems by simp
  ultimately show ?case by (simp add: converse_rtranclp_into_rtranclp)
qed

text \<open>A request served from start to end while nothing else runs.\<close>

lemma reachable_request:
  assumes "reachable E cf S" "b \<noteq> []" "no_build_running (pl S)" "resolve E b s (pl S) = (q, r)"
  shows "reachable E cf (S\<lparr>pl := q, threads := threads S @ [\<lparr>t_bearer = b, t_sid = s, t_pc = Returned r\<rparr>]\<rparr>)"
proof -
  let ?T = "S\<lparr>threads := threads S @ [\<lparr>t_bearer = b, t_sid = s, t_pc = AtLock\<rparr>]\<rparr>"
  have "sys_step E S ?T" by (rule sys_step.request [OF assms(2)])
  moreover have "(sys_step E)\<^sup>*\<^sup>* ?T (S\<lparr>pl := q, threads := threads S @ [\<lparr>t_bearer = b, t_sid = s, t_pc = Returned r\<rparr>]\<rparr>)"
    using lone_run_sys [OF conjunct1 [OF resolve_lone_run [OF assms(3,4)]], of "length (threads S)" ?T] by simp
  ultimately show ?thesis
    using assms(1) unfolding reachable_def by (meson rtranclp.rtrancl_into_rtrancl rtranclp_trans)
qed

text \<open>The pool between requests: some history led to it and no build is under way.\<close>

definition settled :: "edge \<Rightarrow> config \<Rightarrow> pool \<Rightarrow> bool" where
  "settled E cf p \<longleftrightarrow> (\<exists>S. reachable E cf S \<and> pl S = p \<and> no_build_running p)"

lemma settledD:
  assumes "settled E cf p" "sane_edge E cf"
  shows "core_inv E cf p" "no_build_running p"
  using assms sys_inv_parts(2) [OF reachable_inv] unfolding settled_def by blast+

lemma settled_newPool: "settled E cf (newPool cf)"
proof -
  have "reachable E cf (start_sys cf)" by (simp add: reachable_def)
  then show ?thesis
    unfolding settled_def by (intro exI [of _ "start_sys cf"]) (simp add: start_sys_def no_build_running_def newPool_def blank_entry_def)
qed

lemma settled_resolve:
  assumes "settled E cf p" "b \<noteq> []" "resolve E b s p = (q, r)"
  shows "settled E cf q"
proof -
  obtain S where S: "reachable E cf S" "pl S = p" "no_build_running p"
    using assms(1) unfolding settled_def by blast
  note l = resolve_lone_run [OF S(3) assms(3)]
  show ?thesis
    using reachable_request [OF S(1) assms(2) _ assms(3) [folded S(2)]] S(2,3) l
    unfolding settled_def by fastforce
qed

section \<open>The example as a run of the system\<close>

definition ex_sys :: sys where
  "ex_sys = \<lparr>pl = ex_p2, threads =
     [\<lparr>t_bearer = jwt_alice, t_sid = ''s1'', t_pc = Returned (Ok 0)\<rparr>,
      \<lparr>t_bearer = jwt_forged, t_sid = ''s2'', t_pc = Returned (Ok 1)\<rparr>]\<rparr>"

lemma ex_idle: "no_build_running (newPool c)" "no_build_running ex_p1" "no_build_running ex_p2"
  by (simp_all add: no_build_running_def newPool_def blank_entry_def ex_p1_def ex_p2_def ex_alice_def ex_bob_def)

lemma ex_reachable: "reachable ex_edge ex_cfg ex_sys"
proof -
  let ?S1 = "\<lparr>pl = ex_p1, threads = [\<lparr>t_bearer = jwt_alice, t_sid = ''s1'', t_pc = Returned (Ok 0)\<rparr>]\<rparr>"
  have "reachable ex_edge ex_cfg (start_sys ex_cfg)" by (simp add: reachable_def)
  then have "reachable ex_edge ex_cfg ?S1"
    using reachable_request [of ex_edge ex_cfg "start_sys ex_cfg" jwt_alice "''s1''" ex_p1 "Ok 0"] ex_step1
    by (simp add: start_sys_def ex_idle)
  then show ?thesis
    using reachable_request [of ex_edge ex_cfg ?S1 jwt_forged "''s2''" ex_p2 "Ok 1"] ex_step2
    by (simp add: ex_idle ex_sys_def)
qed

lemma ex_settled: "settled ex_edge ex_cfg ex_p1" "settled ex_edge ex_cfg ex_p2"
proof -
  show "settled ex_edge ex_cfg ex_p1" using settled_resolve [OF settled_newPool _ ex_step1] by simp
  then show "settled ex_edge ex_cfg ex_p2" using settled_resolve [OF _ _ ex_step2] by simp
qed

lemma ex_core: "core_inv ex_edge ex_cfg ex_p1" "core_inv ex_edge ex_cfg ex_p2"
  using resolve_ok(1) [OF ex_sane core_inv_newPool ex_idle(1) ex_step1]
    sys_inv_parts(2) [OF reachable_inv [OF ex_sane ex_reachable]]
  by (simp_all add: ex_sys_def)

end
