(* ===== verification/PoolQuiet.thy ===== *)
theory PoolQuiet
  imports PoolSeq
begin

text \<open>
  The pool when requests come one after the other: the three maps then agree, every registered
  entry is built, and every open connection belongs to a registered entry. (Requests that
  interleave lose the last two, and the properties that need them are stated here.)
\<close>

section \<open>The maps agree\<close>

definition registered :: "pool \<Rightarrow> eid \<Rightarrow> bool" where
  "registered p e \<longleftrightarrow> (\<exists>k. fmlookup (entries p) k = Some e)"

text \<open>The entries in \<open>X\<close> are those that the current request has yet to build or admit.\<close>

definition tidy :: "eid set \<Rightarrow> pool \<Rightarrow> bool" where
  "tidy X p \<longleftrightarrow>
     (\<forall>e b. registered p e \<longrightarrow> b \<in> set (admitted (heap p e)) \<longrightarrow> fmlookup (byBearer p) b = Some e) \<and>
     (\<forall>b e. fmlookup (byBearer p) b = Some e \<longrightarrow> registered p e) \<and>
     (\<forall>s e. fmlookup (sessions p) s = Some e \<longrightarrow> registered p e) \<and>
     (\<forall>e. registered p e \<longrightarrow> e \<in> X \<or>
        (nc (heap p e) \<noteq> None \<and> (\<exists>b. latest (heap p e) = Some b \<and> b \<in> set (admitted (heap p e))))) \<and>
     (\<forall>c \<in> live p. \<exists>e. registered p e \<and> nc (heap p e) = Some c)"

lemma tidyD:
  assumes "tidy X p"
  shows tidy_admitted: "registered p e \<Longrightarrow> b \<in> set (admitted (heap p e)) \<Longrightarrow> fmlookup (byBearer p) b = Some e"
    and tidy_byBearer: "fmlookup (byBearer p) b = Some e \<Longrightarrow> registered p e"
    and tidy_sessions: "fmlookup (sessions p) s = Some e \<Longrightarrow> registered p e"
    and tidy_built: "registered p e \<Longrightarrow> e \<notin> X \<Longrightarrow>
          nc (heap p e) \<noteq> None \<and> (\<exists>b. latest (heap p e) = Some b \<and> b \<in> set (admitted (heap p e)))"
    and tidy_live: "c \<in> live p \<Longrightarrow> \<exists>e. registered p e \<and> nc (heap p e) = Some c"
  using assms unfolding tidy_def by blast+

lemma tidyI:
  assumes "\<And>e b. registered p e \<Longrightarrow> b \<in> set (admitted (heap p e)) \<Longrightarrow> fmlookup (byBearer p) b = Some e"
    "\<And>b e. fmlookup (byBearer p) b = Some e \<Longrightarrow> registered p e"
    "\<And>s e. fmlookup (sessions p) s = Some e \<Longrightarrow> registered p e"
    "\<And>e. registered p e \<Longrightarrow> e \<notin> X \<Longrightarrow>
        nc (heap p e) \<noteq> None \<and> (\<exists>b. latest (heap p e) = Some b \<and> b \<in> set (admitted (heap p e)))"
    "\<And>c. c \<in> live p \<Longrightarrow> \<exists>e. registered p e \<and> nc (heap p e) = Some c"
  shows "tidy X p"
  using assms unfolding tidy_def by blast

lemma registered_cong: "entries q = entries p \<Longrightarrow> registered q e = registered p e"
  by (simp add: registered_def)

lemma tidy_cong:
  assumes "tidy X p" "entries q = entries p" "byBearer q = byBearer p" "sessions q = sessions p"
    "heap q = heap p" "live q \<subseteq> live p"
  shows "tidy X q"
  using assms(1,6) unfolding tidy_def registered_cong [OF assms(2)] assms(3-5) by blast

lemma tidy_newPool [simp]: "tidy {} (newPool c)"
  by (simp add: tidy_def registered_def newPool_def)

lemma tidy_close_pool:
  assumes "core_inv E cf p" "tidy X p"
  shows "tidy {} (close_pool p)" "live (close_pool p) = {}"
proof -
  show l: "live (close_pool p) = {}"
  proof -
    have "\<exists>e. e |\<in>| fmran (entries p) \<and> conn_of (heap p e) = Some c" if c: "c \<in> live p" for c
    proof -
      obtain e k where e: "fmlookup (entries p) k = Some e" "nc (heap p e) = Some c"
        using tidy_live [OF assms(2) c] by (auto simp: registered_def)
      have "e < next_eid p" using core_entries [OF assms(1) e(1)] by blast
      then show ?thesis
        using e entry_ok_conn_of [OF core_entry [OF assms(1)]] by (metis fmranI)
    qed
    then show ?thesis by (force simp: close_pool_def)
  qed
  show "tidy {} (close_pool p)"
    using l by (simp add: tidy_def registered_def) (simp add: close_pool_def)
qed

section \<open>What each operation does to them\<close>

lemma registered_evict:
  assumes "core_inv E cf p"
  shows "registered (evictLocked e p) f \<longleftrightarrow> registered p f \<and> f \<noteq> e"
proof -
  have "k \<in> set (keys (heap p e))" if "fmlookup (entries p) k = Some e" for k
    using core_entries [OF assms that] by simp
  then have "fmlookup (entries (evictLocked e p)) k = Some f \<longleftrightarrow> fmlookup (entries p) k = Some f \<and> f \<noteq> e" for k
    by (auto simp: fmlookup_drop_if)
  then show ?thesis unfolding registered_def by blast
qed

lemma tidy_evict:
  assumes inv: "core_inv E cf p" and e: "e < next_eid p" and t: "tidy X p"
  shows "tidy (X - {e}) (evictLocked e p)"
proof (rule tidyI)
  note R = registered_evict [OF inv]
  fix f b
  assume "registered (evictLocked e p) f" "b \<in> set (admitted (heap (evictLocked e p) f))"
  then show "fmlookup (byBearer (evictLocked e p)) b = Some f"
    using tidy_admitted [OF t, of f b] by (simp add: R fmlookup_drop_if)
next
  fix f b
  assume "fmlookup (byBearer (evictLocked e p)) b = Some f"
  then show "registered (evictLocked e p) f"
    using tidy_byBearer [OF t, of b f] core_byBearer [OF inv, of b f]
    by (auto simp: registered_evict [OF inv] fmlookup_drop_if split: if_splits)
next
  fix f s
  assume "fmlookup (sessions (evictLocked e p)) s = Some f"
  then show "registered (evictLocked e p) f"
    using tidy_sessions [OF t, of s f] by (auto simp: registered_evict [OF inv] split: option.splits if_splits)
next
  fix f
  assume "registered (evictLocked e p) f" "f \<notin> X - {e}"
  then show "nc (heap (evictLocked e p) f) \<noteq> None \<and>
     (\<exists>b. latest (heap (evictLocked e p) f) = Some b \<and> b \<in> set (admitted (heap (evictLocked e p) f)))"
    using tidy_built [OF t, of f] by (simp add: registered_evict [OF inv])
next
  fix c
  assume "c \<in> live (evictLocked e p)"
  then have c: "c \<in> live p" "nc (heap p e) \<noteq> Some c"
    using entry_ok_conn_of [OF core_entry [OF inv e]] by simp_all
  then show "\<exists>f. registered (evictLocked e p) f \<and> nc (heap (evictLocked e p) f) = Some c"
    using tidy_live [OF t c(1)] by (auto simp: registered_evict [OF inv])
qed

lemma registered_new:
  "fmlookup (entries p) k = None \<Longrightarrow>
   registered (snd (newEntryLocked k b p)) f \<longleftrightarrow> registered p f \<or> f = next_eid p"
  by (auto simp: registered_def) (metis option.distinct(1))

lemma registered_bound: "core_inv E cf p \<Longrightarrow> registered p e \<Longrightarrow> e < next_eid p"
  using core_entries unfolding registered_def by blast

lemma tidy_new:
  assumes inv: "core_inv E cf p" and k: "fmlookup (entries p) k = None" and t: "tidy X p"
  shows "tidy (insert (next_eid p) X) (snd (newEntryLocked k b p))"
proof -
  note R = registered_new [OF k, of b] and L = registered_bound [OF inv]
  have n: "f \<noteq> next_eid p" if "registered p f" for f using L [OF that] by simp
  let ?q = "snd (newEntryLocked k b p)"
  show ?thesis
  proof (rule tidyI)
    fix f a
    assume "registered ?q f" "a \<in> set (admitted (heap ?q f))"
    then show "fmlookup (byBearer ?q) a = Some f"
      using tidy_admitted [OF t, of f a] by (auto simp: R split: if_splits)
  next
    fix c
    assume "c \<in> live ?q"
    then obtain f where "registered p f" "nc (heap p f) = Some c" using tidy_live [OF t, of c] by auto
    then show "\<exists>f. registered ?q f \<and> nc (heap ?q f) = Some c" using n by (auto simp: R)
  next
    fix f
    assume "registered ?q f" "f \<notin> insert (next_eid p) X"
    then show "nc (heap ?q f) \<noteq> None \<and> (\<exists>b. latest (heap ?q f) = Some b \<and> b \<in> set (admitted (heap ?q f)))"
      using tidy_built [OF t, of f] by (auto simp: R)
  qed (use tidy_byBearer [OF t] tidy_sessions [OF t] in \<open>simp_all add: R\<close>)
qed

lemma tidy_bind:
  assumes "tidy X p" "registered p e"
  shows "tidy X (bindLocked s e p)"
proof -
  have R: "registered (bindLocked s e p) f = registered p f" for f by (rule registered_cong) simp
  have "registered p f" if "fmlookup (sessions (bindLocked s e p)) s' = Some f" for s' f
    using that assms tidy_sessions [OF assms(1)] by (auto simp: bindLocked_sessions split: if_splits)
  then show ?thesis using assms(1) unfolding tidy_def R bindLocked_fields by blast
qed

lemma tidy_adopt:
  assumes t: "tidy X p" and e: "nc (heap p e) \<noteq> None" "b \<in> set (admitted (heap p e))"
  shows "tidy (X - {e}) (adopt e b p)"
proof -
  have R: "registered (adopt e b p) f = registered p f" for f by (rule registered_cong) simp
  show ?thesis
  proof (rule tidyI)
    fix f a
    assume "registered (adopt e b p) f" "a \<in> set (admitted (heap (adopt e b p) f))"
    then show "fmlookup (byBearer (adopt e b p)) a = Some f"
      using tidy_admitted [OF t, of f a] by (auto simp: R split: if_splits)
  next
    fix f
    assume "registered (adopt e b p) f" "f \<notin> X - {e}"
    then show "nc (heap (adopt e b p) f) \<noteq> None \<and>
        (\<exists>b'. latest (heap (adopt e b p) f) = Some b' \<and> b' \<in> set (admitted (heap (adopt e b p) f)))"
      using tidy_built [OF t, of f] e by (auto simp: R)
  next
    fix c
    assume "c \<in> live (adopt e b p)"
    then obtain f where "registered p f" "nc (heap p f) = Some c" using tidy_live [OF t, of c] by auto
    then show "\<exists>f. registered (adopt e b p) f \<and> nc (heap (adopt e b p) f) = Some c" by (auto simp: R)
  qed (use tidy_byBearer [OF t] tidy_sessions [OF t] in \<open>simp_all add: R\<close>)
qed

text \<open>Admitting a bearer that no other entry has admitted.\<close>

lemma tidy_admit:
  assumes inv: "core_inv E cf p" and t: "tidy X p" and e: "registered p e"
    and b: "fmlookup (byBearer p) b = None \<or> fmlookup (byBearer p) b = Some e"
  shows "tidy (insert e X) (admitLocked e b p)"
proof (cases "b \<in> set (admitted (heap p e))")
  case True
  then have q: "admitLocked e b p = p" by (simp add: admitLocked_def isAdmittedLocked_def)
  show ?thesis unfolding q using t unfolding tidy_def by blast
next
  case False
  let ?q = "admitLocked e b p" and ?l = "admitted (heap p e)"
  have R: "registered ?q f = registered p f" for f by (rule registered_cong) simp
  have d: "distinct ?l"
    using entry_ok_distinct [OF core_entry [OF inv registered_bound [OF inv e]]] by blast
  note B = admitLocked_byBearer [OF d, of b] and H = admitLocked_heap [of e b p]
  show ?thesis
  proof (rule tidyI)
    fix f a
    assume f: "registered ?q f" "a \<in> set (admitted (heap ?q f))"
    show "fmlookup (byBearer ?q) a = Some f"
    proof (cases "f = e")
      case True
      then have a: "a \<in> set (admitted_after ?l b)" using f(2) False H by simp
      then have "a = b \<or> a \<in> set ?l" using admitted_after_subset [of ?l b] by blast
      then show ?thesis
        using B False True aged_out_disjoint [OF d False a] tidy_admitted [OF t e, of a] by auto
    next
      case n: False
      then have a: "a \<in> set (admitted (heap p f))" using f(2) H by (auto split: if_splits)
      then have "fmlookup (byBearer p) a = Some f" using tidy_admitted [OF t _ a] f(1) R by blast
      then show ?thesis using B False n b by auto
    qed
  next
    fix a f
    assume "fmlookup (byBearer ?q) a = Some f"
    then show "registered ?q f" using B False e tidy_byBearer [OF t, of a f] R by (auto split: if_splits)
  next
    fix f
    assume "registered ?q f" "f \<notin> insert e X"
    then show "nc (heap ?q f) \<noteq> None \<and> (\<exists>b. latest (heap ?q f) = Some b \<and> b \<in> set (admitted (heap ?q f)))"
      using tidy_built [OF t, of f] R H by auto
  next
    fix c
    assume "c \<in> live ?q"
    then obtain f where "registered p f" "nc (heap p f) = Some c" using tidy_live [OF t, of c] by auto
    then show "\<exists>f. registered ?q f \<and> nc (heap ?q f) = Some c" using R H by (intro exI [of _ f]) auto
  qed (use tidy_sessions [OF t] R in simp_all)
qed

lemma tidy_done:
  "tidy X p \<Longrightarrow> nc (heap p e) \<noteq> None \<Longrightarrow> latest (heap p e) = Some b \<Longrightarrow> b \<in> set (admitted (heap p e)) \<Longrightarrow>
   tidy (X - {e}) p"
  unfolding tidy_def by blast

text \<open>Admit, bind and adopt: the entry is in order whatever was pending of it.\<close>

lemma tidy_admit_adopt:
  assumes inv: "core_inv E cf p" and t: "tidy {e} p" and e: "registered p e" "nc (heap p e) \<noteq> None"
    and b: "fmlookup (byBearer p) b = None \<or> fmlookup (byBearer p) b = Some e"
  shows "tidy {} (adopt e b (admit_bind e b s p))" "tidy {} (adopt e b (admitLocked e b p))"
    "latest (heap p e) = Some b \<Longrightarrow> tidy {} (admit_bind e b s p)"
proof -
  let ?a = "admitLocked e b p"
  have a: "tidy {e} ?a" using tidy_admit [OF inv t e(1) b] by simp
  have R: "registered ?a e" using e(1) registered_cong [of ?a p] by simp
  have bd: "tidy {e} (admit_bind e b s p)"
    unfolding admit_bind_def by (rule tidy_bind [OF a R])
  have m: "nc (heap ?a e) \<noteq> None" "b \<in> set (admitted (heap ?a e))"
    using e(2) by (auto simp: admitLocked_heap)
  have h: "heap (admit_bind e b s p) = heap ?a" by (simp add: admit_bind_def)
  show "tidy {} (adopt e b ?a)" using tidy_adopt [OF a m] by simp
  show "tidy {} (adopt e b (admit_bind e b s p))" using tidy_adopt [OF bd, of e b] m h by simp
  assume "latest (heap p e) = Some b"
  then have "latest (heap (admit_bind e b s p) e) = Some b" using h by (simp add: admitLocked_heap)
  then show "tidy {} (admit_bind e b s p)"
    using tidy_done [OF bd, of e b] m h by simp
qed

section \<open>A build by a lone request\<close>

lemma connect_finish_result:
  assumes "dial_ok E p e d" "nc (heap p e) = None" "err (heap p e) = None"
  shows "(\<exists>c. fst (snd d) = Some c \<and> nc (heap (connect_finish E e d p) e) = Some c \<and>
            err (heap (connect_finish E e d p) e) = None \<and> live (connect_finish E e d p) = live p) \<or>
         (\<exists>x. nc (heap (connect_finish E e d p) e) = None \<and>
            err (heap (connect_finish E e d p) e) = Some x \<and>
            live (connect_finish E e d p) = (case fst (snd d) of Some c \<Rightarrow> live p - {c} | None \<Rightarrow> live p))"
  using assms
  by (auto simp: dial_ok_def connect_finish_def fail_build_def Let_def split: prod.splits option.splits res.splits)

lemma build_Do_result:
  assumes inv: "core_inv E cf p" and sane: "sane_edge E cf" and idle: "no_build_running p"
    and e: "e < next_eid p" and d: "build_Do E e p = (q, pan)"
  shows "\<not> pan" "core_inv E cf q" "\<And>f. f \<noteq> e \<Longrightarrow> heap q f = heap p f"
    "keys (heap q e) = keys (heap p e)" "latest (heap q e) = latest (heap p e)"
    "admitted (heap q e) = admitted (heap p e)" "entries q = entries p" "byBearer q = byBearer p"
    "sessions q = sessions p" "next_eid q = next_eid p"
    "err (heap q e) = None \<Longrightarrow> \<exists>c. nc (heap q e) = Some c \<and> live p \<subseteq> live q \<and> live q \<subseteq> insert c (live p)"
    "err (heap q e) = None \<Longrightarrow> aliveLocked p e \<Longrightarrow> aliveLocked q e"
    "err (heap q e) \<noteq> None \<Longrightarrow> live q = live p \<and> nc (heap q e) = None"
proof -
  have ok: "entry_ok (set (granted p)) (next_conn p) (heap p e)" by (rule core_entry [OF inv e])
  have "\<not> pan \<and> core_inv E cf q \<and> (\<forall>f. f \<noteq> e \<longrightarrow> heap q f = heap p f) \<and>
    keys (heap q e) = keys (heap p e) \<and> latest (heap q e) = latest (heap p e) \<and>
    admitted (heap q e) = admitted (heap p e) \<and> entries q = entries p \<and> byBearer q = byBearer p \<and>
    sessions q = sessions p \<and> next_eid q = next_eid p \<and>
    (err (heap q e) = None \<longrightarrow>
       (\<exists>c. nc (heap q e) = Some c \<and> live p \<subseteq> live q \<and> live q \<subseteq> insert c (live p)) \<and>
       (aliveLocked p e \<longrightarrow> aliveLocked q e)) \<and>
    (err (heap q e) \<noteq> None \<longrightarrow> live q = live p \<and> nc (heap q e) = None)"
  proof (cases "build (heap p e) = OnceFresh")
    case False
    then have q: "q = p" "\<not> pan" using d by (auto simp: build_Do_def)
    have "build (heap p e) = OnceDone" using False idle by (cases "build (heap p e)") (auto simp: no_build_running_def)
    then show ?thesis
      using q inv entry_ok_built(4) [OF ok] entry_ok_unbuilt(6) [OF ok] by (cases "nc (heap p e)") auto
  next
    case True
    have n: "nc (heap p e) = None" "err (heap p e) = None"
      using True entry_ok_built(3) [OF ok] entry_ok_unbuilt(6) [OF ok] by (cases "nc (heap p e)"; auto)+
    let ?p0 = "start_build e p" and ?b = "token_of p e"
    obtain p1 r where r: "dial E ?b ?p0 = (p1, r)" by (metis surj_pair)
    have q: "q = connect_finish E e r p1" "pan = panicked r" using d True r by (auto simp: build_Do_def)
    have inv0: "core_inv E cf ?p0" by (rule core_inv_start_build [OF inv e True])
    have l: "latest (heap ?p0 e) = Some ?b"
      using entry_ok_unbuilt(5) [OF ok n(1)] by (auto simp: token_of_def)
    have inv1: "core_inv E cf p1" and dl: "dial_ok E p1 e r"
      using core_inv_dial [OF inv0, of ?b] dial_ok_dial [OF inv0 sane l] r by simp_all
    have f1: "heap p1 = heap ?p0" "entries p1 = entries p" "byBearer p1 = byBearer p" "sessions p1 = sessions p"
      "next_eid p1 = next_eid p" using dial_fields [of E ?b ?p0] r by simp_all
    have h1: "nc (heap p1 e) = None" "err (heap p1 e) = None" "e < next_eid p1" using n e f1 by simp_all
    obtain t co rr where rr: "r = (t, co, rr)" by (metis prod_cases3)
    have lv: "live p1 = (case fst (snd r) of Some c \<Rightarrow> insert c (live p) | None \<Rightarrow> live p)"
      "\<And>c. fst (snd r) = Some c \<Longrightarrow> c = next_conn p"
      using dial_result [of E ?b ?p0 p1 t co rr] r rr by (auto split: option.splits)
    have fresh: "next_conn p \<notin> live p" using core_live [OF inv] by blast
    have fin: "core_inv E cf q" using core_inv_finish [OF inv1 sane h1(3,1,2) dl] q by simp
    have other: "\<forall>f. f \<noteq> e \<longrightarrow> heap q f = heap p f" using connect_finish_other f1 q by simp
    have same: "keys (heap q e) = keys (heap p e)" "latest (heap q e) = latest (heap p e)"
      "admitted (heap q e) = admitted (heap p e)"
      using connect_finish_entry(1-3) [of E e r p1] f1 q by simp_all
    have res: "(err (heap q e) = None \<longrightarrow>
       (\<exists>c. nc (heap q e) = Some c \<and> live p \<subseteq> live q \<and> live q \<subseteq> insert c (live p)) \<and> aliveLocked q e) \<and>
      (err (heap q e) \<noteq> None \<longrightarrow> live q = live p \<and> nc (heap q e) = None)"
      using connect_finish_result [OF dl h1(1,2)]
    proof (elim disjE exE conjE)
      fix c
      assume "fst (snd r) = Some c" "nc (heap (connect_finish E e r p1) e) = Some c"
        "err (heap (connect_finish E e r p1) e) = None" "live (connect_finish E e r p1) = live p1"
      then show ?thesis using lv(1) q by (auto simp: aliveLocked_def)
    next
      fix x
      assume "nc (heap (connect_finish E e r p1) e) = None" "err (heap (connect_finish E e r p1) e) = Some x"
        "live (connect_finish E e r p1) = (case fst (snd r) of Some c \<Rightarrow> live p1 - {c} | None \<Rightarrow> live p1)"
      then show ?thesis using lv fresh q by (auto split: option.splits)
    qed
    then show ?thesis
      using dial_ok_not_panicked [OF dl] fin other same f1 q by auto
  qed
  then show "\<not> pan" "core_inv E cf q" "\<And>f. f \<noteq> e \<Longrightarrow> heap q f = heap p f"
    "keys (heap q e) = keys (heap p e)" "latest (heap q e) = latest (heap p e)"
    "admitted (heap q e) = admitted (heap p e)" "entries q = entries p" "byBearer q = byBearer p"
    "sessions q = sessions p" "next_eid q = next_eid p"
    "err (heap q e) = None \<Longrightarrow> \<exists>c. nc (heap q e) = Some c \<and> live p \<subseteq> live q \<and> live q \<subseteq> insert c (live p)"
    "err (heap q e) = None \<Longrightarrow> aliveLocked p e \<Longrightarrow> aliveLocked q e"
    "err (heap q e) \<noteq> None \<Longrightarrow> live q = live p \<and> nc (heap q e) = None"
    by blast+
qed

section \<open>resolve keeps the maps in agreement\<close>

text \<open>What a request that is served leaves behind.\<close>

definition served :: "pool \<Rightarrow> bearer \<Rightarrow> eid \<Rightarrow> bool" where
  "served q b e \<longleftrightarrow> tidy {} q \<and> registered q e \<and> b \<in> set (admitted (heap q e)) \<and> aliveLocked q e"

lemma alive_frame [simp]:
  "aliveLocked (bindLocked s f p) e = aliveLocked p e"
  "aliveLocked (admitLocked f b p) e = aliveLocked p e"
  "aliveLocked (adopt f b p) e = aliveLocked p e"
  "aliveLocked (log_line l p) e = aliveLocked p e"
  "aliveLocked (logf v pr p) e = aliveLocked p e"
  "aliveLocked (logRefused h x p) e = aliveLocked p e"
  by (auto simp: aliveLocked_def admitLocked_heap split: option.splits)

lemma tidy_log [simp]:
  "tidy X p \<Longrightarrow> tidy X (logf v pr p)" "tidy X p \<Longrightarrow> tidy X (logRefused h x p)"
  by (erule tidy_cong; simp)+

text \<open>What the first critical section hands over.\<close>

fun route_tidy :: "bearer \<Rightarrow> pool \<Rightarrow> route \<Rightarrow> bool" where
  "route_tidy b q (ServeAdopt e) \<longleftrightarrow> tidy {} q \<and> registered q e \<and> b \<in> set (admitted (heap q e)) \<and> aliveLocked q e"
| "route_tidy b q RefuseMismatch \<longleftrightarrow> tidy {} q"
| "route_tidy b q (ProbeForBound e) \<longleftrightarrow> tidy {} q \<and> registered q e \<and> aliveLocked q e \<and>
     (fmlookup (byBearer q) b = None \<or> fmlookup (byBearer q) b = Some e)"
| "route_tidy b q (BuildEntry e h) \<longleftrightarrow> tidy {e} q \<and> registered q e \<and> aliveLocked q e \<and>
     latest (heap q e) = Some b \<and> nc (heap q e) = None \<and> fmlookup (byBearer q) b = None"
| "route_tidy b q (ProbeCandidate e) \<longleftrightarrow> tidy {} q \<and> registered q e \<and> aliveLocked q e \<and>
     fmlookup (byBearer q) b = None"

lemma new_alive: "aliveLocked (snd (newEntryLocked k b p)) (next_eid p)"
  by (simp add: aliveLocked_def)

lemma evict_key_free:
  assumes "core_inv E cf p" "fmlookup (entries p) k = Some f"
  shows "fmlookup (entries (evictLocked f p)) k = None"
  using core_entries [OF assms] assms(2) by (simp add: fmlookup_drop_if)

lemma routeByHint_tidy:
  assumes inv: "core_inv E cf p" and t: "tidy {} p" and b: "fmlookup (byBearer p) b = None"
    and r: "routeByHint b p = (q, r)"
  shows "route_tidy b q r"
proof -
  have fresh: "route_tidy b q r"
    if "core_inv E cf p'" "tidy {} p'" "fmlookup (byBearer p') b = None"
      "fmlookup (entries p') (routeHint b) = None" "q = snd (newEntryLocked (routeHint b) b p')"
      "r = BuildEntry (next_eid p') (routeHint b)" for p'
    using tidy_new [OF that(1,4,2), of b] that registered_new [OF that(4)] new_alive by simp
  show ?thesis
  proof (cases "fmlookup (entries p) (routeHint b)")
    case None
    then show ?thesis
      using r inv t b by (intro fresh [of p]) (auto simp: routeByHint_def Let_def newEntryLocked_def sameLatest_def)
  next
    case (Some f)
    have f: "f < next_eid p" using core_entries [OF inv Some] by blast
    show ?thesis
    proof (cases "aliveLocked p f")
      case True
      have rf: "registered p f" using Some by (auto simp: registered_def)
      have "\<not> sameLatest p f b"
        using tidy_built [OF t rf] tidy_admitted [OF t rf, of b] b by (auto simp: sameLatest_def)
      then show ?thesis using r Some True t b rf by (auto simp: routeByHint_def Let_def)
    next
      case False
      have "tidy {} (evictLocked f p)" using tidy_evict [OF inv f t] by simp
      moreover have "fmlookup (byBearer (evictLocked f p)) b = None" using b by (simp add: fmlookup_drop_if)
      ultimately show ?thesis
        using r Some False inv evict_key_free [OF inv Some]
        by (intro fresh [of "evictLocked f p"]) (auto simp: routeByHint_def Let_def newEntryLocked_def sameLatest_def)
    qed
  qed
qed

lemma routeByBearer_tidy:
  assumes inv: "core_inv E cf p" and t: "tidy {} p" and r: "routeByBearer b s p = (q, r)"
  shows "route_tidy b q r"
proof (cases "fmlookup (byBearer p) b")
  case None
  then show ?thesis using routeByHint_tidy [OF inv t None] r by (simp add: routeByBearer_def)
next
  case (Some e)
  have e: "e < next_eid p" "b \<in> set (admitted (heap p e))" using core_byBearer [OF inv Some] by blast+
  have re: "registered p e" by (rule tidy_byBearer [OF t Some])
  show ?thesis
  proof (cases "aliveLocked p e")
    case True
    then have "q = bindLocked s e p" "r = ServeAdopt e" using r Some by (auto simp: routeByBearer_def)
    then show ?thesis
      using tidy_bind [OF t re, of s] re e True registered_cong [of "bindLocked s e p" p] by simp
  next
    case False
    have "fmlookup (byBearer (evictLocked e p)) b = None" using Some e(2) by (simp add: fmlookup_drop_if)
    then show ?thesis
      using routeByHint_tidy [OF core_inv_evict [OF inv]] tidy_evict [OF inv e(1) t] r Some False
      by (simp add: routeByBearer_def)
  qed
qed

lemma resolve_locked_tidy:
  assumes inv: "core_inv E cf p" and t: "tidy {} p" and r: "resolve_locked b s p = (q, r)"
  shows "route_tidy b q r"
proof (cases "if s = [] then None else fmlookup (sessions p) s")
  case None
  then show ?thesis using routeByBearer_tidy [OF inv t] r by (simp add: resolve_locked_def)
next
  case (Some e)
  then have se: "fmlookup (sessions p) s = Some e" by (auto split: if_splits)
  have e: "e < next_eid p" using core_sessions [OF inv se] by blast
  have re: "registered p e" by (rule tidy_sessions [OF t se])
  show ?thesis
  proof (cases "aliveLocked p e")
    case True
    then show ?thesis
      using r Some t re by (auto simp: resolve_locked_def isAdmittedLocked_def split: option.splits if_splits)
  next
    case False
    then show ?thesis
      using routeByBearer_tidy [OF core_inv_evict [OF inv], of e b s q r] tidy_evict [OF inv e t] r Some
      by (simp add: resolve_locked_def)
  qed
qed

lemma tidy_mono: "tidy X p \<Longrightarrow> X \<subseteq> Y \<Longrightarrow> tidy Y p"
  unfolding tidy_def by blast

lemma build_Do_tidy:
  assumes inv: "core_inv E cf p" and sane: "sane_edge E cf" and idle: "no_build_running p"
    and t: "tidy {e} p" and re: "registered p e" and d: "build_Do E e p = (q, pan)"
  shows "tidy {e} q" "registered q e"
proof -
  have e: "e < next_eid p" by (rule registered_bound [OF inv re])
  note B = build_Do_result [OF inv sane idle e d]
  have R: "registered q f = registered p f" for f by (rule registered_cong [OF B(7)])
  show "registered q e" using re R by simp
  have keep_nc: "nc (heap q f) = Some c" if "nc (heap p f) = Some c" for f c
  proof (cases "f = e")
    case True
    then have "build (heap p e) = OnceDone" using entry_ok_built(3) [OF core_entry [OF inv e]] that by simp
    then have "q = p" using d by (simp add: build_Do_def)
    then show ?thesis using that by simp
  qed (use B(3) that in simp)
  show "tidy {e} q"
  proof (rule tidyI)
    fix f b
    assume f: "registered q f" "b \<in> set (admitted (heap q f))"
    then have "b \<in> set (admitted (heap p f))" using B(3) [of f] B(6) by (cases "f = e") auto
    then show "fmlookup (byBearer q) b = Some f" using tidy_admitted [OF t] f(1) R B(8) by simp
  next
    fix f
    assume "registered q f" "f \<notin> {e}"
    then show "nc (heap q f) \<noteq> None \<and> (\<exists>b. latest (heap q f) = Some b \<and> b \<in> set (admitted (heap q f)))"
      using tidy_built [OF t, of f] R B(3) [of f] by simp
  next
    fix c
    assume c: "c \<in> live q"
    consider "c \<in> live p" | "nc (heap q e) = Some c"
      using c B(11,13) by (cases "err (heap q e)") auto
    then show "\<exists>f. registered q f \<and> nc (heap q f) = Some c"
    proof cases
      case 1
      then show ?thesis using tidy_live [OF t] keep_nc R by blast
    qed (use re R in blast)
  qed (use tidy_byBearer [OF t] tidy_sessions [OF t] R B(8,9) in simp_all)
qed

text \<open>A failed build leaves the maps in agreement, without the entry.\<close>

lemma build_failed_tidy:
  assumes inv: "core_inv E cf q" and t: "tidy {e} q" and re: "registered q e"
  shows "tidy {} (build_failed e h x q)"
  using tidy_evict [OF inv registered_bound [OF inv re] t] by (simp add: build_failed_def)

lemma served_admit:
  assumes inv: "core_inv E cf p" and t: "tidy {e} p" and re: "registered p e" "nc (heap p e) \<noteq> None" "aliveLocked p e"
    and b: "fmlookup (byBearer p) b = None \<or> fmlookup (byBearer p) b = Some e"
  shows "served (adopt e b (admit_bind e b s p)) b e" "served (adopt e b (admitLocked e b p)) b e"
    "latest (heap p e) = Some b \<Longrightarrow> served (admit_bind e b s p) b e"
proof -
  note T = tidy_admit_adopt [OF inv t re(1,2) b]
  have R: "registered (adopt e b (admit_bind e b s p)) e" "registered (adopt e b (admitLocked e b p)) e"
    "registered (admit_bind e b s p) e"
    using re(1) by (simp_all add: registered_def admit_bind_def)
  have m: "b \<in> set (admitted (heap (admitLocked e b p) e))" by (auto simp: admitLocked_heap)
  show "served (adopt e b (admit_bind e b s p)) b e" "served (adopt e b (admitLocked e b p)) b e"
    "latest (heap p e) = Some b \<Longrightarrow> served (admit_bind e b s p) b e"
    using T R m re(3) by (simp_all add: served_def admit_bind_def)
qed

lemma served_log: "served q b e \<Longrightarrow> served (logf v pr q) b e"
  by (simp add: served_def registered_def)

definition outcome_tidy :: "pool \<Rightarrow> bearer \<Rightarrow> (node_error, eid) res \<Rightarrow> bool" where
  "outcome_tidy q b r \<longleftrightarrow> (case r of Ok e \<Rightarrow> served q b e | _ \<Rightarrow> tidy {} q)"

lemma serve_built_tidy:
  assumes inv: "core_inv E cf p" and sane: "sane_edge E cf" and idle: "no_build_running p"
    and rt: "route_tidy b p (BuildEntry e h)" and r: "serve_built E b s e h p = (q, r)"
  shows "outcome_tidy q b r"
proof -
  have t: "tidy {e} p" "registered p e" "aliveLocked p e" "latest (heap p e) = Some b" "fmlookup (byBearer p) b = None"
    using rt by simp_all
  have e: "e < next_eid p" by (rule registered_bound [OF inv t(2)])
  obtain p1 pan where d: "build_Do E e p = (p1, pan)" by fastforce
  note B = build_Do_result [OF inv sane idle e d] and T = build_Do_tidy [OF inv sane idle t(1,2) d]
  show ?thesis
  proof (cases "err (heap p1 e)")
    case None
    then have "served (admit_bind e b s p1) b e"
      using served_admit(3) [OF B(2) T(1,2)] B t by fastforce
    then show ?thesis using r d B(1) None by (auto simp: serve_built_def outcome_tidy_def)
  next
    case (Some x)
    then show ?thesis
      using r d B(1) build_failed_tidy [OF B(2) T] by (auto simp: serve_built_def outcome_tidy_def)
  qed
qed

lemma ensure_locked_tidy:
  assumes inv: "core_inv E cf p" and t: "tidy {} p" and b: "fmlookup (byBearer p) b = None"
    and r: "ensure_locked b pr p = (own, q)"
  shows "tidy {own} q \<and> registered q own \<and> aliveLocked q own \<and> fmlookup (byBearer q) b = None"
proof -
  let ?k = "principal_key pr"
  have fresh: ?thesis
    if "core_inv E cf p'" "tidy {} p'" "fmlookup (byBearer p') b = None" "fmlookup (entries p') ?k = None"
      "(own, q) = newEntryLocked ?k b p'" for p'
  proof -
    have q: "q = snd (newEntryLocked ?k b p')" "own = next_eid p'"
      using that(5) by (metis snd_conv, metis fst_conv newEntryLocked_fields(1))
    then show ?thesis
      using tidy_new [OF that(1,4,2), of b] that registered_new [OF that(4)] new_alive by simp
  qed
  show ?thesis
  proof (cases "fmlookup (entries p) ?k")
    case None
    then show ?thesis using r by (intro fresh [OF inv t b]) (simp_all add: ensure_locked_def)
  next
    case (Some f)
    have f: "f < next_eid p" using core_entries [OF inv Some] by blast
    show ?thesis
    proof (cases "aliveLocked p f")
      case True
      have "tidy {f} p" by (rule tidy_mono [OF t]) simp
      then show ?thesis using r Some True b by (auto simp: ensure_locked_def registered_def)
    next
      case False
      have "tidy {} (evictLocked f p)" using tidy_evict [OF inv f t] by simp
      moreover have "fmlookup (byBearer (evictLocked f p)) b = None" using b by (simp add: fmlookup_drop_if)
      ultimately show ?thesis
        using r Some False evict_key_free [OF inv Some]
        by (intro fresh [OF core_inv_evict [OF inv, of f]]) (simp_all add: ensure_locked_def)
    qed
  qed
qed

text \<open>A probe changes neither the maps nor the open connections.\<close>

lemma probe_frame:
  assumes "core_inv E cf p" "probe E b p = (q, r)"
  shows "heap q = heap p" "entries q = entries p" "byBearer q = byBearer p" "sessions q = sessions p"
    "live q = live p" "core_inv E cf q" "tidy X q = tidy X p" "aliveLocked q e = aliveLocked p e"
    "registered q e = registered p e"
proof -
  show f: "heap q = heap p" "entries q = entries p" "byBearer q = byBearer p" "sessions q = sessions p"
    "live q = live p" "core_inv E cf q"
    using probe_fields [of E b p] probe_live [OF assms(1), of b] core_inv_probe [OF assms(1), of b] assms(2)
    by simp_all
  show "aliveLocked q e = aliveLocked p e" "registered q e = registered p e"
    by (simp_all only: aliveLocked_def registered_def f)
  show "tidy X q = tidy X p" by (simp add: tidy_def registered_def f)
qed

lemma candidate_tidy:
  assumes inv: "core_inv E cf p" and sane: "sane_edge E cf" and idle: "no_build_running p"
    and rt: "route_tidy b p (ProbeCandidate e)" and r: "candidate E b s e p = (q, r)"
  shows "outcome_tidy q b r"
proof -
  obtain p1 pr where pr: "probe E b p = (p1, pr)" by fastforce
  note F = probe_frame [OF inv pr]
  have t: "tidy {} p1" "registered p1 e" "aliveLocked p1 e" "fmlookup (byBearer p1) b = None"
    using rt F by simp_all
  show ?thesis
  proof (cases pr)
    case (Ok u)
    show ?thesis
    proof (cases "u = principal_of (heap p1 e)")
      case True
      have "nc (heap p1 e) \<noteq> None" using tidy_built [OF t(1,2)] by simp
      then have "served (adopt e b (admit_bind e b s p1)) b e"
        using served_admit(1) [OF F(6) tidy_mono [OF t(1)] t(2) _ t(3)] t(4) by simp
      then show ?thesis using r pr Ok True by (auto simp: candidate_def outcome_tidy_def intro: served_log)
    next
      case False
      let ?p2 = "logf ''probe diverted colliding hint'' u p1"
      obtain own p3 where en: "ensure_locked b u ?p2 = (own, p3)" by fastforce
      have i2: "core_inv E cf ?p2" "tidy {} ?p2" "fmlookup (byBearer ?p2) b = None" using F(6) t by simp_all
      have g: "(b, u) \<in> set (granted ?p2)" using probe_Ok(1) pr Ok by simp
      have i3: "core_inv E cf p3" using ensure_locked_ok [OF i2(1) sane g en] by blast
      have t3: "tidy {own} p3" "registered p3 own" "aliveLocked p3 own" "fmlookup (byBearer p3) b = None"
        using ensure_locked_tidy [OF i2 en] by blast+
      have idle3: "no_build_running p3"
        using idle_ensure_locked [OF en] idle_probe [OF pr idle] by simp
      obtain p4 pan where d: "build_Do E own p3 = (p4, pan)" by fastforce
      note B = build_Do_result [OF i3 sane idle3 registered_bound [OF i3 t3(2)] d]
        and T = build_Do_tidy [OF i3 sane idle3 t3(1,2) d]
      show ?thesis
      proof (cases "err (heap p4 own)")
        case None
        then have "served (adopt own b (admit_bind own b s p4)) b own"
          using served_admit(1) [OF B(2) T] B t3 by fastforce
        then show ?thesis
          using r pr Ok False en d B(1) None by (auto simp: candidate_def ensurePrincipal_def outcome_tidy_def)
      next
        case (Some x)
        then show ?thesis
          using r pr Ok False en d B(1) build_failed_tidy [OF B(2) T]
          by (auto simp: candidate_def ensurePrincipal_def outcome_tidy_def)
      qed
    qed
  qed (use r pr t in \<open>auto simp: candidate_def outcome_tidy_def\<close>)
qed

lemma candidateForBound_tidy:
  assumes inv: "core_inv E cf p" and rt: "route_tidy b p (ProbeForBound e)"
    and r: "candidateForBound E b e p = (q, r)"
  shows "outcome_tidy q b r"
proof -
  obtain p1 pr where pr: "probe E b p = (p1, pr)" by fastforce
  note F = probe_frame [OF inv pr]
  have t: "tidy {} p1" "registered p1 e" "aliveLocked p1 e"
    "fmlookup (byBearer p1) b = None \<or> fmlookup (byBearer p1) b = Some e"
    using rt F by simp_all
  show ?thesis
  proof (cases pr)
    case (Ok u)
    have "nc (heap p1 e) \<noteq> None" using tidy_built [OF t(1,2)] by simp
    then have "served (adopt e b (admitLocked e b p1)) b e"
      using served_admit(2) [OF F(6) tidy_mono [OF t(1)] t(2) _ t(3,4)] by simp
    then show ?thesis
      using r pr Ok t(1) by (auto simp: candidateForBound_def outcome_tidy_def intro: served_log split: if_splits)
  qed (use r pr t in \<open>auto simp: candidateForBound_def outcome_tidy_def\<close>)
qed

lemma resolve_tidy:
  assumes inv: "core_inv E cf p" and sane: "sane_edge E cf" and idle: "no_build_running p"
    and t: "tidy {} p" and r: "resolve E b s p = (q, r)"
  shows "outcome_tidy q b r"
proof -
  obtain p1 rt where l: "resolve_locked b s p = (p1, rt)" by fastforce
  have i1: "core_inv E cf p1" using resolve_locked_ok [OF inv l] by blast
  note idle1 = idle_resolve_locked [OF l idle] and T = resolve_locked_tidy [OF inv t l]
  have fr: "follow_route E b s (p1, rt) = (q, r)" using r l by (simp add: resolve_def)
  show ?thesis
  proof (cases rt)
    case (ServeAdopt e)
    then have e: "tidy {} p1" "registered p1 e" "b \<in> set (admitted (heap p1 e))" "aliveLocked p1 e"
      using T by simp_all
    have "nc (heap p1 e) \<noteq> None" using tidy_built [OF e(1,2)] by simp
    then have "served (adopt e b p1) b e"
      using tidy_adopt [OF e(1) _ e(3)] e registered_cong [of "adopt e b p1" p1] by (simp add: served_def)
    then show ?thesis using fr ServeAdopt by (auto simp: follow_route_def outcome_tidy_def)
  next
    case RefuseMismatch
    then show ?thesis using fr T by (auto simp: follow_route_def outcome_tidy_def)
  next
    case (ProbeForBound e)
    have "candidateForBound E b e p1 = (q, r)" using fr ProbeForBound by (simp add: follow_route_def)
    then show ?thesis using candidateForBound_tidy [OF i1 T [unfolded ProbeForBound]] by blast
  next
    case (BuildEntry e h)
    have "serve_built E b s e h p1 = (q, r)" using fr BuildEntry by (simp add: follow_route_def)
    then show ?thesis using serve_built_tidy [OF i1 sane idle1 T [unfolded BuildEntry]] by blast
  next
    case (ProbeCandidate e)
    have "candidate E b s e p1 = (q, r)" using fr ProbeCandidate by (simp add: follow_route_def)
    then show ?thesis using candidate_tidy [OF i1 sane idle1 T [unfolded ProbeCandidate]] by blast
  qed
qed

section \<open>Histories of requests that run one after the other\<close>

inductive quiet :: "edge \<Rightarrow> config \<Rightarrow> pool \<Rightarrow> bool" for E cf where
  start: "quiet E cf (newPool cf)"
| request: "quiet E cf p \<Longrightarrow> b \<noteq> [] \<Longrightarrow> resolve E b s p = (q, r) \<Longrightarrow> quiet E cf q"
| minted: "quiet E cf p \<Longrightarrow> b \<noteq> [] \<Longrightarrow> resolve E b [] p = (q, Ok e) \<Longrightarrow> quiet E cf (bindSession s e q)"
| conn_lost: "quiet E cf p \<Longrightarrow> quiet E cf (close_conn c p)"
| close: "quiet E cf p \<Longrightarrow> quiet E cf (close_pool p)"

lemma quiet_inv:
  assumes "quiet E cf p" "sane_edge E cf"
  shows "core_inv E cf p \<and> no_build_running p \<and> tidy {} p"
  using assms(1)
proof induction
  case start
  then show ?case by (simp add: core_inv_newPool ex_idle)
next
  case (request p b s q r)
  then show ?case
    using resolve_ok [OF assms(2) _ _ request.hyps(3)] resolve_tidy [OF _ assms(2) _ _ request.hyps(3)]
    by (auto simp: outcome_tidy_def served_def split: res.splits)
next
  case (minted p b q e s)
  have I: "core_inv E cf q" "no_build_running q" "trusted q b e"
    using resolve_ok [OF assms(2) _ _ minted.hyps(3)] minted.IH by blast+
  have "served q b e" using resolve_tidy [OF _ assms(2) _ _ minted.hyps(3)] minted.IH by (simp add: outcome_tidy_def)
  then show ?case
    using I core_inv_bind [OF I(1)] trustedD [OF I(3)] tidy_bind [of "{}" q e s]
    by (simp add: bindSession_def served_def)
next
  case (conn_lost p c)
  have "no_build_running (close_conn c p)" using conn_lost.IH idle_heap [of "close_conn c p" p] by simp
  moreover have "tidy {} (close_conn c p)"
    using conn_lost.IH tidy_cong [of "{}" p "close_conn c p"] by (simp add: subset_eq)
  ultimately show ?case using conn_lost.IH by simp
next
  case (close p)
  have "no_build_running (close_pool p)"
    using close.IH idle_heap [of "close_pool p" p] by (simp add: close_pool_def)
  then show ?case using close.IH tidy_close_pool(1) core_inv_close_pool by blast
qed

end
