(* ===== verification/PoolProps.thy ===== *)
theory PoolProps
  imports PoolSeq
begin

text \<open>
  The properties of the pool under concurrent requests, over every reachable state of the
  system, each with an instance on the example deployment.
\<close>

section \<open>The example with a request under way\<close>

text \<open>Alice has been served; Bob's request, with the forged JWT, is about to take the lock.\<close>

definition ex_sys1 :: sys where
  "ex_sys1 = \<lparr>pl = ex_p1, threads =
     [\<lparr>t_bearer = jwt_alice, t_sid = ''s1'', t_pc = Returned (Ok 0)\<rparr>,
      \<lparr>t_bearer = jwt_forged, t_sid = ''s2'', t_pc = AtLock\<rparr>]\<rparr>"

lemma ex_reachable1: "reachable ex_edge ex_cfg ex_sys1"
proof -
  let ?S1 = "\<lparr>pl = ex_p1, threads = [\<lparr>t_bearer = jwt_alice, t_sid = ''s1'', t_pc = Returned (Ok 0)\<rparr>]\<rparr>"
  have "reachable ex_edge ex_cfg (start_sys ex_cfg)" by (simp add: reachable_def)
  then have "reachable ex_edge ex_cfg ?S1"
    using reachable_request [of ex_edge ex_cfg "start_sys ex_cfg" jwt_alice "''s1''" ex_p1 "Ok 0"] ex_step1
    by (simp add: start_sys_def ex_idle)
  moreover have "sys_step ex_edge ?S1 ex_sys1"
    using sys_step.request [of jwt_forged ex_edge ?S1 "''s2''"] by (simp add: ex_sys1_def)
  ultimately show ?thesis unfolding reachable_def by (rule rtranclp.rtrancl_into_rtrancl)
qed

lemma ex_healthy: "healthy ex_p1 0"
  by (simp add: healthy_def built_entry_def aliveLocked_def ex_p1_def ex_alice_def blank_entry_def)

section \<open>Properties\<close>



text \<open>
  C11: the server that the MCP handler obtains for a bearer is that of an entry whose principal
  the bearer was admitted as, and its connection was not closed.
\<close>

theorem serverFor_admitted:
  assumes "sane_edge E cf" "reachable E cf S" "serverFor b (pl S) = Some srv"
  shows "\<exists>e c t. fmlookup (byBearer (pl S)) b = Some e \<and> srv = Server c (persona (heap (pl S) e)) \<and>
           c \<in> live (pl S) \<and> natsConnect E t b = None \<and>
           principalOf E t b (root (Segment E) cf) = Ok (principal_of (heap (pl S) e))"
proof -
  note inv = sys_inv_parts(2) [OF reachable_inv [OF assms(1,2)]]
  obtain e where e: "fmlookup (byBearer (pl S)) b = Some e" "aliveLocked (pl S) e" "server (heap (pl S) e) = Some srv"
    using assms(3) by (auto simp: serverFor_def split: option.splits if_splits)
  have t: "trusted (pl S) b e" using core_byBearer [OF inv e(1)] admitted_trusted [OF inv] by blast
  then obtain c where c: "nc (heap (pl S) e) = Some c" using trustedD by blast
  have ok: "entry_ok (set (granted (pl S))) (next_conn (pl S)) (heap (pl S) e)"
    using core_entry [OF inv] t trustedD by blast
  have "srv = Server c (persona (heap (pl S) e))" "c \<in> live (pl S)"
    using e entry_ok_built(2) [OF ok c] alive_built [OF ok c] by auto
  then show ?thesis using e(1) core_granted [OF inv] t trustedD by blast
qed

theorem serverFor_admitted_witness:
  "\<exists>e c t. fmlookup (byBearer (pl ex_sys)) jwt_alice = Some e \<and> Server 0 ''alice'' = Server c (persona (heap (pl ex_sys) e)) \<and>
           c \<in> live (pl ex_sys) \<and> natsConnect ex_edge t jwt_alice = None \<and>
           principalOf ex_edge t jwt_alice (root (Segment ex_edge) ex_cfg) = Ok (principal_of (heap (pl ex_sys) e))"
  by (rule serverFor_admitted [OF ex_sane ex_reachable])
    (simp add: serverFor_def ex_sys_def ex_p2_def aliveLocked_def ex_alice_def blank_entry_def)

text \<open>
  C2: the trust rule. No step of a request whose bearer the edge never admits as the principal
  of a built entry changes that entry, whatever the bearer, its routing hint and the session id.
\<close>

theorem foreign_entries_untouched:
  assumes "sane_edge E cf" "reachable E cf S" "th \<in> set (threads S)" "built_entry (pl S) e"
    and "thread_step E (t_bearer th) (t_sid th) (pl S) (t_pc th) = Some (q, pc')"
    and "\<And>t. principalOf E t (t_bearer th) (root (Segment E) cf) \<noteq> Ok (principal_of (heap (pl S) e))"
  shows "heap q e = heap (pl S) e"
proof -
  note I = sys_inv_parts [OF reachable_inv [OF assms(1,2)]]
  have ok: "thread_ok E (pl S) (t_bearer th) (t_pc th)" using I(3) assms(3) by (simp add: threads_ok_def)
  show ?thesis
    using touch_needs_admission [OF I(2) ok assms(5), of e] assms(4,6) core_granted [OF I(2)]
    unfolding built_entry_def by blast
qed

theorem foreign_entries_untouched_witness:
  "\<exists>q pc'. thread_step ex_edge jwt_forged ''s2'' ex_p1 AtLock = Some (q, pc') \<and> heap q 0 = ex_alice"
proof -
  obtain q pc' where st: "thread_step ex_edge jwt_forged ''s2'' ex_p1 AtLock = Some (q, pc')"
    by (cases "resolve_locked jwt_forged ''s2'' ex_p1") simp
  have "heap q 0 = heap (pl ex_sys1) 0"
    by (rule foreign_entries_untouched [OF ex_sane ex_reachable1, of "threads ex_sys1 ! 1"])
      (use st ex_healthy in \<open>simp_all add: ex_sys1_def healthy_def ex_root ex_principalOf
         ex_p1_def ex_alice_def principal_of_def\<close>)
  then show ?thesis using st by (auto simp: ex_sys1_def ex_p1_def)
qed

text \<open>
  C5: no step of any request takes a healthy entry (built, no error, connection open) out of the
  pool: it keeps its connection, principal and server, its place under its routing key, and every
  session bound to it.
\<close>

theorem healthy_entries_kept:
  assumes "sane_edge E cf" "reachable E cf S" "th \<in> set (threads S)" "healthy (pl S) e"
    and "thread_step E (t_bearer th) (t_sid th) (pl S) (t_pc th) = Some (q, pc')"
  shows "healthy q e \<and> principal_of (heap q e) = principal_of (heap (pl S) e) \<and>
    server (heap q e) = server (heap (pl S) e) \<and>
    (\<forall>k. fmlookup (entries (pl S)) k = Some e \<longrightarrow> fmlookup (entries q) k = Some e) \<and>
    (\<forall>s. fmlookup (sessions (pl S)) s = Some e \<longrightarrow> fmlookup (sessions q) s = Some e)"
proof -
  note I = sys_inv_parts [OF reachable_inv [OF assms(1,2)]]
  have ok: "thread_ok E (pl S) (t_bearer th) (t_pc th)" using I(3) assms(3) by (simp add: threads_ok_def)
  note ts = thread_step_ok [OF I(2) I(1) ok assms(5)]
  have k: "keeps (pl S) q" by (rule keeps_step [OF I(2) ok assms(5)])
  have e: "e < next_eid (pl S)" "nc (heap (pl S) e) \<noteq> None"
    using assms(4) by (simp_all add: healthy_def built_entry_def)
  have id: "same_identity (pl S) q e" by (rule same_identity_step [OF I(2) I(1) ok assms(5) e])
  obtain c where c: "nc (heap (pl S) e) = Some c" using e by blast
  have "server (heap q e) = server (heap (pl S) e)"
    using entry_ok_built(2) [OF core_entry [OF I(2) e(1)] c] id c
      entry_ok_built(2) [OF core_entry [OF conjunct1 [OF ts]], of e c]
    by (simp add: same_identity_def principal_of_def)
  then show ?thesis using k id assms(4) unfolding keeps_def same_identity_def by blast
qed

theorem healthy_entries_kept_witness:
  "\<exists>q pc'. thread_step ex_edge jwt_forged ''s2'' ex_p1 AtLock = Some (q, pc') \<and> healthy q 0 \<and>
     fmlookup (sessions q) ''s1'' = Some 0"
proof -
  obtain q pc' where st: "thread_step ex_edge jwt_forged ''s2'' ex_p1 AtLock = Some (q, pc')"
    by (cases "resolve_locked jwt_forged ''s2'' ex_p1") simp
  have "healthy q 0 \<and> (\<forall>s. fmlookup (sessions (pl ex_sys1)) s = Some 0 \<longrightarrow> fmlookup (sessions q) s = Some 0)"
    using healthy_entries_kept [OF ex_sane ex_reachable1, of "threads ex_sys1 ! 1" 0 q pc'] st ex_healthy
    by (simp add: ex_sys1_def)
  then show ?thesis using st by (auto simp: ex_sys1_def ex_p1_def)
qed

text \<open>
  C8: requests finish. However the scheduler interleaves them, the requests under way can take
  only a bounded number of steps (at most twelve each), and they never block each other: as long
  as one has not returned, one of them can step, although callers wait for a build in progress.
\<close>

theorem requests_finish:
  assumes "sane_edge E cf" "reachable E cf S" "(run_step E ^^ k) S T"
  shows "k \<le> 12 * length (threads S) \<and>
    ((\<forall>th \<in> set (threads T). returned (t_pc th)) \<or> (\<exists>U. run_step E T U))"
proof -
  have "rank pc \<le> 12" for pc by (cases pc) auto
  then have "work S \<le> 12 * length (threads S)"
    using sum_list_mono [of "threads S" "\<lambda>th. rank (t_pc th)" "\<lambda>_. 12"]
    by (simp add: work_def sum_list_triv mult.commute)
  then have "k \<le> 12 * length (threads S)" using run_steps_work [OF assms(3)] by simp
  moreover have "(\<forall>th \<in> set (threads T). returned (t_pc th)) \<or> (\<exists>U. run_step E T U)"
    using can_run [OF run_steps_inv [OF assms(3) reachable_inv [OF assms(1,2)]]] by blast
  ultimately show ?thesis by blast
qed

theorem requests_finish_witness: "\<exists>U. run_step ex_edge ex_sys1 U"
  using requests_finish [OF ex_sane ex_reachable1, of 0 ex_sys1]
  by (simp add: ex_sys1_def returned_def)

lemma reachable_sys_step: "reachable E cf S \<Longrightarrow> sys_step E S S' \<Longrightarrow> reachable E cf S'"
  unfolding reachable_def by simp

text \<open>A reachable state in which the first request is inside \<open>build.Do\<close>.\<close>

lemma ex_running:
  "\<exists>S. reachable ex_edge ex_cfg S \<and> 0 < next_eid (pl S) \<and> build (heap (pl S) 0) = OnceRunning"
proof -
  let ?th = "\<lambda>c. \<lparr>t_bearer = ''b1'', t_sid = [], t_pc = c\<rparr>"
  let ?p0 = "newPool ex_cfg"
  obtain p1 where p1: "resolve_locked ''b1'' [] ?p0 = (p1, BuildEntry 0 ''tok:b1'')"
      "build (heap p1 0) = OnceFresh" "next_eid p1 = 1"
    by (simp add: ex_run)
  let ?S1 = "\<lparr>pl = ?p0, threads = [?th AtLock]\<rparr>"
  let ?S2 = "\<lparr>pl = p1, threads = [?th (AtBuild 0 ''tok:b1'' FromResolve)]\<rparr>"
  let ?S3 = "\<lparr>pl = start_build 0 p1, threads = [?th (AtDial 0 ''tok:b1'' FromResolve)]\<rparr>"
  have "reachable ex_edge ex_cfg ?S1"
    using reachable_sys_step [of ex_edge ex_cfg "start_sys ex_cfg", OF _ sys_step.request [of "''b1''" ex_edge "start_sys ex_cfg" "[]"]]
    by (simp add: reachable_def start_sys_def)
  moreover have "sys_step ex_edge ?S1 ?S2"
    using sys_step.run [of 0 ?S1 "?th AtLock" ex_edge p1 "AtBuild 0 ''tok:b1'' FromResolve"] p1
    by (simp add: route_pc_def)
  moreover have "sys_step ex_edge ?S2 ?S3"
    using sys_step.run [of 0 ?S2 "?th (AtBuild 0 ''tok:b1'' FromResolve)" ex_edge "start_build 0 p1" "AtDial 0 ''tok:b1'' FromResolve"] p1
    by simp
  ultimately have "reachable ex_edge ex_cfg ?S3" by (blast intro: reachable_sys_step)
  then show ?thesis using p1 by (intro exI [of _ ?S3]) (simp add: start_build_def upd_entry_def)
qed

text \<open>
  C18: \<open>build.Do\<close> runs \<open>connect\<close> once. While an entry's build is under way exactly one request
  runs it; once it is done no request ever runs it again.
\<close>

theorem build_runs_once:
  assumes "sane_edge E cf" "reachable E cf S" "e < next_eid (pl S)"
  shows "(build (heap (pl S) e) = OnceRunning \<longrightarrow>
            (\<exists>!i. i < length (threads S) \<and> owns (t_pc (threads S ! i)) = Some e)) \<and>
         (build (heap (pl S) e) \<noteq> OnceRunning \<longrightarrow> (\<forall>th \<in> set (threads S). owns (t_pc th) \<noteq> Some e))"
proof (intro conjI impI)
  note I = sys_inv_parts [OF reachable_inv [OF assms(1,2)]]
  { assume "build (heap (pl S) e) = OnceRunning"
    then have "building (pl S) e" using assms(3) by (simp add: building_def)
    then obtain i where i: "i < length (threads S)" "owns (t_pc (threads S ! i)) = Some e"
      using I(6) unfolding running_owned_def by (metis in_set_conv_nth)
    show "\<exists>!i. i < length (threads S) \<and> owns (t_pc (threads S ! i)) = Some e"
      using i apartD [OF I(4) [unfolded owners_apart_def]] by blast }
  { assume n: "build (heap (pl S) e) \<noteq> OnceRunning"
    show "\<forall>th \<in> set (threads S). owns (t_pc th) \<noteq> Some e"
      using I(3) owns_building n unfolding threads_ok_def building_def by blast }
qed

theorem build_runs_once_witness:
  "\<exists>S. reachable ex_edge ex_cfg S \<and> build (heap (pl S) 0) = OnceRunning \<and>
     (\<exists>!i. i < length (threads S) \<and> owns (t_pc (threads S ! i)) = Some 0)"
proof -
  obtain S where S: "reachable ex_edge ex_cfg S" "0 < next_eid (pl S)" "build (heap (pl S) 0) = OnceRunning"
    using ex_running by blast
  then show ?thesis using build_runs_once [OF ex_sane S(1,2)] by blast
qed



end
