(* ===== verification/SeqProps.thy ===== *)
theory SeqProps
  imports PoolQuiet PoolProps
begin

text \<open>
  The properties of the pool for requests that run one after the other: sessions, refusals,
  diverted bearers, the hook of the MCP handler, eviction and closing.
\<close>

section \<open>Requests that add nothing\<close>

text \<open>What a request that is refused may do to the maps and connections: drop dead ones.\<close>

definition shrinks :: "pool \<Rightarrow> pool \<Rightarrow> bool" where
  "shrinks p q \<longleftrightarrow>
     (\<forall>k e. fmlookup (entries q) k = Some e \<longrightarrow> fmlookup (entries p) k = Some e) \<and>
     (\<forall>b e. fmlookup (byBearer q) b = Some e \<longrightarrow> fmlookup (byBearer p) b = Some e) \<and>
     (\<forall>s e. fmlookup (sessions q) s = Some e \<longrightarrow> fmlookup (sessions p) s = Some e) \<and>
     live q \<subseteq> live p"

lemma shrinks_refl [simp]: "shrinks p p"
  by (simp add: shrinks_def)

lemma shrinks_trans: "shrinks p q \<Longrightarrow> shrinks q r \<Longrightarrow> shrinks p r"
  unfolding shrinks_def by blast

lemma shrinks_evict [simp]: "shrinks p (evictLocked e p)"
  by (auto simp: shrinks_def fmlookup_drop_if split: if_splits option.splits)

lemma shrinks_same:
  "entries q = entries p \<Longrightarrow> byBearer q = byBearer p \<Longrightarrow> sessions q = sessions p \<Longrightarrow> live q \<subseteq> live p \<Longrightarrow>
   shrinks p q"
  by (simp add: shrinks_def)

lemma shrinks_log [simp]: "shrinks p (logRefused h x p)" "shrinks p (logf v pr p)"
  by (rule shrinks_same; simp)+

lemma shrinks_probe: "core_inv E cf p \<Longrightarrow> probe E b p = (q, r) \<Longrightarrow> shrinks p q"
  using probe_frame [of E cf p b q r] by (intro shrinks_same) auto

text \<open>A new entry whose build fails is gone again.\<close>

lemma shrinks_failed_new:
  assumes "core_inv E cf p" "sane_edge E cf" "no_build_running p"
    and k: "fmlookup (entries p) k = None"
      "core_inv E cf (snd (newEntryLocked k b p))"
    and d: "build_Do E (next_eid p) (snd (newEntryLocked k b p)) = (q, pan)" "err (heap q (next_eid p)) = Some x"
  shows "shrinks p (build_failed (next_eid p) h x q)"
proof -
  let ?n = "snd (newEntryLocked k b p)" and ?e = "next_eid p"
  have idle: "no_build_running ?n" using assms(3) by simp
  note B = build_Do_result [OF k(2) assms(2) idle _ d(1)]
  have lt: "?e < next_eid ?n" by simp
  have "live q = live p" "keys (heap q ?e) = [k]" using B(13,4) [OF lt] d(2) by simp_all
  moreover have "entries q = fmupd k ?e (entries p)" "byBearer q = byBearer p" "sessions q = sessions p"
    using B(7-9) [OF lt] by simp_all
  ultimately show ?thesis
    by (auto simp: shrinks_def build_failed_def fmlookup_drop_if split: if_splits option.splits)
qed

text \<open>The entry that a request is about to build was allocated by it, under a free key.\<close>

definition allocated :: "edge \<Rightarrow> config \<Rightarrow> bearer \<Rightarrow> string \<Rightarrow> pool \<Rightarrow> pool \<Rightarrow> eid \<Rightarrow> bool" where
  "allocated E cf b k p q e \<longleftrightarrow>
     (\<exists>p'. shrinks p p' \<and> core_inv E cf p' \<and> no_build_running p' \<and> fmlookup (entries p') k = None \<and>
        e = next_eid p' \<and> q = snd (newEntryLocked k b p'))"

lemma allocated_failed:
  assumes "allocated E cf b k p q e" "sane_edge E cf" "core_inv E cf q"
    "build_Do E e q = (q', pan)" "err (heap q' e) = Some x"
  shows "shrinks p (build_failed e h x q')"
proof -
  obtain p' where p': "shrinks p p'" "core_inv E cf p'" "no_build_running p'" "fmlookup (entries p') k = None"
    "e = next_eid p'" "q = snd (newEntryLocked k b p')"
    using assms(1) unfolding allocated_def by blast
  show ?thesis
    using shrinks_failed_new [OF p'(2) assms(2) p'(3,4)] assms(3-5) p'(5,6) shrinks_trans [OF p'(1)] by blast
qed

fun route_shrinks :: "edge \<Rightarrow> config \<Rightarrow> bearer \<Rightarrow> pool \<Rightarrow> pool \<Rightarrow> route \<Rightarrow> bool" where
  "route_shrinks E cf b p q (BuildEntry e h) = allocated E cf b h p q e"
| "route_shrinks E cf b p q (ServeAdopt e) = True"
| "route_shrinks E cf b p q r = shrinks p q"

lemma route_shrinks_trans: "route_shrinks E cf b p' q r \<Longrightarrow> shrinks p p' \<Longrightarrow> route_shrinks E cf b p q r"
  by (cases r) (auto simp: allocated_def intro: shrinks_trans)

lemma routeByHint_shrinks:
  assumes inv: "core_inv E cf p" and idle: "no_build_running p" and t: "tidy {} p"
    and b: "fmlookup (byBearer p) b = None" and r: "routeByHint b p = (q, r)"
  shows "route_shrinks E cf b p q r"
proof (cases "fmlookup (entries p) (routeHint b)")
  case None
  then have "q = snd (newEntryLocked (routeHint b) b p)" "r = BuildEntry (next_eid p) (routeHint b)"
    using r by (auto simp: routeByHint_def Let_def newEntryLocked_def sameLatest_def)
  then show ?thesis using None inv idle by (auto simp: allocated_def intro!: exI [of _ p])
next
  case (Some f)
  show ?thesis
  proof (cases "aliveLocked p f")
    case True
    have rf: "registered p f" using Some by (auto simp: registered_def)
    have "\<not> sameLatest p f b"
      using tidy_built [OF t rf] tidy_admitted [OF t rf, of b] b by (auto simp: sameLatest_def)
    then show ?thesis using r Some True by (auto simp: routeByHint_def Let_def)
  next
    case False
    let ?p = "evictLocked f p"
    have "q = snd (newEntryLocked (routeHint b) b ?p)" "r = BuildEntry (next_eid ?p) (routeHint b)"
      using r Some False by (auto simp: routeByHint_def Let_def newEntryLocked_def sameLatest_def)
    then show ?thesis
      using evict_key_free [OF inv Some] inv idle by (auto simp: allocated_def intro!: exI [of _ ?p])
  qed
qed

lemma routeByBearer_shrinks:
  assumes inv: "core_inv E cf p" and idle: "no_build_running p" and t: "tidy {} p"
    and r: "routeByBearer b s p = (q, r)"
  shows "route_shrinks E cf b p q r"
proof (cases "fmlookup (byBearer p) b")
  case None
  then show ?thesis using routeByHint_shrinks [OF inv idle t None] r by (simp add: routeByBearer_def)
next
  case (Some e)
  have e: "e < next_eid p" "b \<in> set (admitted (heap p e))" using core_byBearer [OF inv Some] by blast+
  show ?thesis
  proof (cases "aliveLocked p e")
    case True
    then show ?thesis using r Some by (auto simp: routeByBearer_def)
  next
    case False
    have "fmlookup (byBearer (evictLocked e p)) b = None" using Some e(2) by (simp add: fmlookup_drop_if)
    then show ?thesis
      using routeByHint_shrinks [OF core_inv_evict [OF inv, of e] idle_evict [OF idle]]
        tidy_evict [OF inv e(1) t] r Some False route_shrinks_trans [OF _ shrinks_evict [of p e]]
      by (simp add: routeByBearer_def)
  qed
qed

lemma resolve_locked_shrinks:
  assumes inv: "core_inv E cf p" and idle: "no_build_running p" and t: "tidy {} p"
    and r: "resolve_locked b s p = (q, r)"
  shows "route_shrinks E cf b p q r"
proof (cases "if s = [] then None else fmlookup (sessions p) s")
  case None
  then show ?thesis using routeByBearer_shrinks [OF inv idle t] r by (simp add: resolve_locked_def)
next
  case (Some e)
  then have e: "e < next_eid p" using core_sessions [OF inv, of s e] by (auto split: if_splits)
  show ?thesis
  proof (cases "aliveLocked p e")
    case True
    then show ?thesis using r Some by (auto simp: resolve_locked_def split: option.splits if_splits)
  next
    case False
    then show ?thesis
      using routeByBearer_shrinks [OF core_inv_evict [OF inv, of e] idle_evict [OF idle], of b s q r]
        tidy_evict [OF inv e t] r Some route_shrinks_trans [OF _ shrinks_evict [of p e]]
      by (simp add: resolve_locked_def)
  qed
qed

lemma ensurePrincipal_shrinks:
  assumes inv: "core_inv E cf p" and sane: "sane_edge E cf" and idle: "no_build_running p" and t: "tidy {} p"
    and g: "(b, pr) \<in> set (granted p)" and r: "ensurePrincipal E b pr p = (q, Err x)"
  shows "shrinks p q"
proof -
  let ?k = "principal_key pr"
  obtain own p1 where en: "ensure_locked b pr p = (own, p1)" by fastforce
  have i1: "core_inv E cf p1" using ensure_locked_ok [OF inv sane g en] by blast
  obtain p2 pan where d: "build_Do E own p1 = (p2, pan)" by fastforce
  have fail: "shrinks p q" if "allocated E cf b ?k p p1 own"
    using allocated_failed [OF that sane i1 d] r en d
    by (auto simp: ensurePrincipal_def split: bool.splits option.splits)
  have new: "allocated E cf b ?k p p1 own"
    if "shrinks p p'" "core_inv E cf p'" "no_build_running p'" "fmlookup (entries p') ?k = None"
      "(own, p1) = newEntryLocked ?k b p'" for p'
    unfolding allocated_def using that
    by (intro exI [of _ p']) (metis fst_conv newEntryLocked_fields(1) snd_conv)
  show ?thesis
  proof (cases "fmlookup (entries p) ?k")
    case None
    then show ?thesis using en inv idle by (intro fail new [of p]) (simp_all add: ensure_locked_def)
  next
    case (Some f)
    show ?thesis
    proof (cases "aliveLocked p f")
      case True
      then have o: "own = f" "p1 = p" using en Some by (simp_all add: ensure_locked_def)
      have rf: "registered p f" using Some by (auto simp: registered_def)
      have "nc (heap p f) \<noteq> None" using tidy_built [OF t rf] by simp
      then have "build (heap p f) = OnceDone" "err (heap p f) = None"
        using entry_ok_built(3,4) [OF core_entry [OF inv registered_bound [OF inv rf]]] by auto
      then have "p2 = p" "\<not> pan" "err (heap p2 f) = None" using d o by (auto simp: build_Do_def)
      then show ?thesis using r en d o by (auto simp: ensurePrincipal_def)
    next
      case False
      then show ?thesis
        using en Some inv idle evict_key_free [OF inv Some]
        by (intro fail new [of "evictLocked f p"]) (simp_all add: ensure_locked_def)
    qed
  qed
qed

lemma refused_shrinks:
  assumes inv: "core_inv E cf p" and sane: "sane_edge E cf" and idle: "no_build_running p" and t: "tidy {} p"
    and r: "resolve E b s p = (q, Err x)"
  shows "shrinks p q"
proof -
  obtain p1 rt where l: "resolve_locked b s p = (p1, rt)" by fastforce
  have i1: "core_inv E cf p1" using resolve_locked_ok [OF inv l] by blast
  note idle1 = idle_resolve_locked [OF l idle] and S = resolve_locked_shrinks [OF inv idle t l]
    and T = resolve_locked_tidy [OF inv t l]
  have fr: "follow_route E b s (p1, rt) = (q, Err x)" using r l by (simp add: resolve_def)
  obtain p2 pr where pr: "probe E b p1 = (p2, pr)" by fastforce
  note F = probe_frame [OF i1 pr] and sp = shrinks_probe [OF i1 pr]
  show ?thesis
  proof (cases rt)
    case (ServeAdopt e)
    then show ?thesis using fr by (auto simp: follow_route_def)
  next
    case RefuseMismatch
    then show ?thesis using fr S by (auto simp: follow_route_def)
  next
    case (ProbeForBound e)
    then have sh: "shrinks p p2" using S sp by (auto intro: shrinks_trans)
    then show ?thesis
      using fr ProbeForBound pr shrinks_trans [OF sh shrinks_log(1)]
      by (cases pr) (auto simp: follow_route_def candidateForBound_def split: if_splits)
  next
    case (BuildEntry e h)
    obtain p3 pan where d: "build_Do E e p1 = (p3, pan)" by fastforce
    have "allocated E cf b h p p1 e" using S BuildEntry by simp
    then show ?thesis
      using fr BuildEntry d allocated_failed [OF _ sane i1 d]
      by (auto simp: follow_route_def serve_built_def split: bool.splits option.splits)
  next
    case (ProbeCandidate e)
    then have sh: "shrinks p p2" using S sp by (auto intro: shrinks_trans)
    show ?thesis
    proof (cases pr)
      case (Ok u)
      let ?p3 = "logf ''probe diverted colliding hint'' u p2"
      have en: "ensurePrincipal E b u ?p3 = (q, Err x)"
        using fr ProbeCandidate pr Ok by (auto simp: follow_route_def candidate_def split: if_splits prod.splits res.splits)
      have "shrinks ?p3 q"
        using ensurePrincipal_shrinks [OF _ sane _ _ _ en] F(6) idle_probe [OF pr idle1] probe_Ok(1) pr Ok T ProbeCandidate F(7)
        by simp
      then show ?thesis using shrinks_trans [OF sh shrinks_trans [OF shrinks_log(2)]] by blast
    qed (use fr ProbeCandidate pr shrinks_trans [OF sh shrinks_log(1)] in \<open>auto simp: follow_route_def candidate_def\<close>)
  qed
qed

section \<open>A bound session\<close>

lemma resolve_bound:
  assumes "s \<noteq> []" "fmlookup (sessions p) s = Some e" "aliveLocked p e" "resolve E b s p = (q, r)"
  shows "(r = Ok e \<and> b \<in> set (admitted (heap p e)) \<and> q = adopt e b p) \<or>
    (r = Err SessionPrincipalMismatch \<and> q = p) \<or> candidateForBound E b e p = (q, r)"
  using assms
  by (auto simp: resolve_def resolve_locked_def follow_route_def isAdmittedLocked_def split: if_splits option.splits)

text \<open>
  C7: an established session is served by the entry that it was bound to or not at all, and only
  with a bearer that was admitted as that entry's principal; a refusal changes neither the
  entries nor the maps nor the open connections.
\<close>

theorem bound_session_served_by_its_entry:
  assumes "sane_edge E cf" "settled E cf p" "s \<noteq> []" "fmlookup (sessions p) s = Some e" "aliveLocked p e"
    and "resolve E b s p = (q, r)"
  shows "fmlookup (sessions q) s = Some e \<and>
    ((r = Ok e \<and> (\<exists>t. natsConnect E t b = None \<and>
        principalOf E t b (root (Segment E) cf) = Ok (principal_of (heap p e)))) \<or>
     (\<exists>x. r = Err x \<and> heap q = heap p \<and> entries q = entries p \<and> byBearer q = byBearer p \<and>
        sessions q = sessions p \<and> live q = live p))"
proof -
  note I = settledD [OF assms(2,1)]
  have e: "e < next_eid p" using core_sessions [OF I(1) assms(4)] by blast
  obtain p1 pr where pr: "probe E b p = (p1, pr)" by fastforce
  note F = probe_frame [OF I(1) pr]
  consider (adm) "r = Ok e" "b \<in> set (admitted (heap p e))" "q = adopt e b p"
    | (mis) "r = Err SessionPrincipalMismatch" "q = p" | (cand) "candidateForBound E b e p = (q, r)"
    using resolve_bound [OF assms(3-6)] by blast
  then show ?thesis
  proof cases
    case adm
    then have "(b, principal_of (heap p e)) \<in> set (granted p)"
      using admitted_trusted [OF I(1) e] trustedD by blast
    then show ?thesis using adm core_granted [OF I(1)] assms(4) by simp
  next
    case cand
    show ?thesis
    proof (cases pr)
      case (Ok u)
      have g: "\<exists>t. natsConnect E t b = None \<and> principalOf E t b (root (Segment E) cf) = Ok u"
        using probe_Ok(2,3) [of E b p p1 u] pr Ok core_cfg [OF I(1)] by metis
      then show ?thesis
        using cand pr Ok F assms(4) by (auto simp: candidateForBound_def split: if_splits)
    next
      case Panic
      then show ?thesis using resolve_ok(5) [OF assms(1) I assms(6)] cand pr by (auto simp: candidateForBound_def)
    qed (use cand pr F assms(4) in \<open>auto simp: candidateForBound_def\<close>)
  qed (use assms(4) in auto)
qed

theorem bound_session_served_by_its_entry_witness:
  "fmlookup (sessions (fst (resolve ex_edge ''b1'' ''s1'' ex_p1))) ''s1'' = Some 0 \<and>
   snd (resolve ex_edge ''b1'' ''s1'' ex_p1) = Err SessionPrincipalMismatch"
proof -
  obtain q r where r: "resolve ex_edge ''b1'' ''s1'' ex_p1 = (q, r)" by fastforce
  have "r = Err SessionPrincipalMismatch"
    using r by (simp add: ex_run ex_p1_def ex_alice_def)
  moreover have "fmlookup (sessions q) ''s1'' = Some 0"
    using bound_session_served_by_its_entry [OF ex_sane ex_settled(1) _ _ _ r]
    by (simp add: ex_p1_def aliveLocked_def ex_alice_def blank_entry_def)
  ultimately show ?thesis using r by simp
qed

section \<open>Requests in sequence\<close>

lemma ex_quiet: "quiet ex_edge ex_cfg ex_p1" "quiet ex_edge ex_cfg ex_p2"
proof -
  show 1: "quiet ex_edge ex_cfg ex_p1" using quiet.request [OF quiet.start _ ex_step1] by simp
  show "quiet ex_edge ex_cfg ex_p2" using quiet.request [OF 1 _ ex_step2] by simp
qed

text \<open>A token the edge does not know.\<close>

lemma ex_unknown: "snd (resolve ex_edge ''x'' [] ex_p1) = Err (AdmissionRefused ''authorization violation'')"
  by (simp add: ex_run ex_p1_def ex_alice_def fail_build_def)

text \<open>
  C14: a refusal leaves no trace: after a request is refused, every registration, admitted bearer,
  bound session and open connection was there before it, and every healthy entry is still there.
  So refusals are not sticky: the entry of a failed build is gone, and the next request builds
  afresh.
\<close>

theorem refusal_leaves_no_trace:
  assumes "sane_edge E cf" "quiet E cf p" "resolve E b s p = (q, Err x)"
  shows "(\<forall>k e. fmlookup (entries q) k = Some e \<longrightarrow> fmlookup (entries p) k = Some e) \<and>
    (\<forall>a e. fmlookup (byBearer q) a = Some e \<longrightarrow> fmlookup (byBearer p) a = Some e) \<and>
    (\<forall>i e. fmlookup (sessions q) i = Some e \<longrightarrow> fmlookup (sessions p) i = Some e) \<and>
    live q \<subseteq> live p \<and>
    (\<forall>k e. fmlookup (entries p) k = Some e \<and> healthy p e \<longrightarrow> fmlookup (entries q) k = Some e \<and> healthy q e)"
proof -
  have I: "core_inv E cf p" "no_build_running p" "tidy {} p" using quiet_inv [OF assms(2,1)] by blast+
  have "shrinks p q" by (rule refused_shrinks [OF I(1) assms(1) I(2,3) assms(3)])
  moreover have "keeps p q"
    using resolve_ok(3) [OF assms(1) I(1,2) assms(3)] by (simp add: harmless_def)
  ultimately show ?thesis unfolding shrinks_def keeps_def by blast
qed

theorem refusal_leaves_no_trace_witness:
  "\<exists>q. resolve ex_edge ''x'' [] ex_p1 = (q, Err (AdmissionRefused ''authorization violation'')) \<and>
     fmlookup (entries q) ''oidc:i:x'' = Some 0 \<and> healthy q 0"
proof -
  obtain q where q: "resolve ex_edge ''x'' [] ex_p1 = (q, Err (AdmissionRefused ''authorization violation''))"
    using ex_unknown by (metis prod.collapse)
  have "\<forall>k e. fmlookup (entries ex_p1) k = Some e \<and> healthy ex_p1 e \<longrightarrow> fmlookup (entries q) k = Some e \<and> healthy q e"
    using refusal_leaves_no_trace [OF ex_sane ex_quiet(1) q] by blast
  then have "fmlookup (entries q) ''oidc:i:x'' = Some 0 \<and> healthy q 0"
    using ex_healthy by (simp add: ex_p1_def)
  then show ?thesis using q by blast
qed

text \<open>
  The hook of the MCP handler agrees with \<open>resolve\<close>: right after a bearer is served, the
  hook hands out the server of the very entry that \<open>resolve\<close> returned.
\<close>

lemma serverFor_agrees:
  assumes "sane_edge E cf" "quiet E cf p" "resolve E b s p = (q, Ok e)"
  shows "serverFor b q = server (heap q e) \<and> serverFor b q \<noteq> None"
proof -
  have I: "core_inv E cf p" "no_build_running p" "tidy {} p" using quiet_inv [OF assms(2,1)] by blast+
  note R = resolve_ok [OF assms(1) I(1,2) assms(3)]
  have "served q b e" using resolve_tidy [OF I(1) assms(1) I(2,3) assms(3)] by (simp add: outcome_tidy_def)
  then have s: "fmlookup (byBearer q) b = Some e" "aliveLocked q e"
    using tidy_admitted by (auto simp: served_def)
  have "e < next_eid q" "nc (heap q e) \<noteq> None" using trustedD [OF R(4)] by auto
  then show ?thesis
    using s entry_ok_built(2) [OF core_entry [OF R(1)]] by (auto simp: serverFor_def)
qed

lemma serverFor_agrees_example: "serverFor jwt_forged ex_p2 = Some (Server 2 ''bob'')"
  using serverFor_agrees [OF ex_sane ex_quiet(1) ex_step2] by (simp add: ex_p2_def ex_bob_def)

text \<open>
  C15: no connection is leaked: every connection the pool holds open belongs to an entry of the
  map, and \<open>close\<close> leaves none open and all maps empty.
\<close>

theorem no_connection_leak:
  assumes "sane_edge E cf" "quiet E cf p"
  shows "(\<forall>c \<in> live p. \<exists>k e. fmlookup (entries p) k = Some e \<and> nc (heap p e) = Some c) \<and>
    live (close_pool p) = {} \<and> entries (close_pool p) = fmempty \<and> byBearer (close_pool p) = fmempty \<and>
    sessions (close_pool p) = fmempty"
proof -
  have I: "core_inv E cf p" "tidy {} p" using quiet_inv [OF assms(2,1)] by blast+
  have "\<forall>c \<in> live p. \<exists>k e. fmlookup (entries p) k = Some e \<and> nc (heap p e) = Some c"
    using tidy_live [OF I(2)] unfolding registered_def by blast
  then show ?thesis using tidy_close_pool(2) [OF I] by (simp add: close_pool_def)
qed

theorem no_connection_leak_witness: "live (close_pool ex_p2) = {} \<and> live ex_p2 = {0, 2}"
  using no_connection_leak [OF ex_sane ex_quiet(2)] by (auto simp: ex_p2_def)

section \<open>A forged or colliding hint\<close>

lemma candidate_Ok_cases:
  assumes "candidate E b s e p = (q, Ok own)"
  obtains pr p1 where "probe E b p = (p1, Ok pr)" "pr = principal_of (heap p1 e)" "own = e"
  | pr p1 p2 where "probe E b p = (p1, Ok pr)" "pr \<noteq> principal_of (heap p1 e)"
      "ensurePrincipal E b pr (logf ''probe diverted colliding hint'' pr p1) = (p2, Ok own)"
      "q = adopt own b (admit_bind own b s p2)"
  using assms by (auto simp: candidate_def split: prod.splits res.splits if_splits)

lemma ensurePrincipal_key:
  assumes "core_inv E cf p" "sane_edge E cf" "no_build_running p" "(b, pr) \<in> set (granted p)"
    "ensurePrincipal E b pr p = (q, Ok own)"
  shows "keys (heap q own) = [principal_key pr] \<and> own < next_eid q"
proof -
  obtain e p1 where en: "ensure_locked b pr p = (e, p1)" by fastforce
  note L = ensure_locked_ok [OF assms(1,2,4) en]
  obtain p2 pan where d: "build_Do E e p1 = (p2, pan)" by fastforce
  have idle: "no_build_running p1" by (rule idle_ensure_locked [OF en assms(3)])
  note B = build_Do_result [OF conjunct1 [OF L] assms(2) idle _ d]
  have "own = e" "q = p2"
    using assms(5) en d by (auto simp: ensurePrincipal_def split: bool.splits option.splits)
  then show ?thesis using B(4,10) L by simp
qed

text \<open>
  C6: a bearer whose unverified claims collide with another principal's routing hint gets an
  entry of its own, filed under its principal; the entry it collided with is not changed.
\<close>

theorem colliding_hint_diverted:
  assumes "sane_edge E cf" "quiet E cf p" "fmlookup (byBearer p) b = None"
    and "s = [] \<or> fmlookup (sessions p) s = None"
    and "fmlookup (entries p) (routeHint b) = Some e" "aliveLocked p e"
    and "principalOf E t b (root (Segment E) cf) = Ok pr" "pr \<noteq> principal_of (heap p e)"
    and "resolve E b s p = (q, Ok own)"
  shows "own \<noteq> e \<and> principal_of (heap q own) = pr \<and> keys (heap q own) = [principal_key pr] \<and>
    heap q e = heap p e \<and> healthy q e"
proof -
  have I: "core_inv E cf p" "no_build_running p" "tidy {} p" using quiet_inv [OF assms(2,1)] by blast+
  note R = resolve_ok [OF assms(1) I(1,2) assms(9)]
  have re: "registered p e" using assms(5) by (auto simp: registered_def)
  have nl: "\<not> sameLatest p e b"
    using tidy_built [OF I(3) re] tidy_admitted [OF I(3) re, of b] assms(3) by (auto simp: sameLatest_def)
  have c: "candidate E b s e p = (q, Ok own)"
    using assms(3-6,9) nl
    by (auto simp: resolve_def resolve_locked_def routeByBearer_def routeByHint_def follow_route_def Let_def split: if_splits)
  have be: "built_entry p e" using tidy_built [OF I(3) re] registered_bound [OF I(1) re] by (simp add: built_entry_def)
  have uniq: "pr' = pr" if "principalOf E t' b (root (Segment E) cf) = Ok pr'" for t' pr'
    using sane_edge_stable [OF assms(1) assms(7) that] by simp
  have pq: "principal_of (heap q own) = pr"
    using core_granted [OF R(1)] trustedD [OF R(4) [OF refl]] uniq by blast
  have id: "same_identity p q e" and h: "heap q e = heap p e"
    using R(3) be core_granted [OF R(1)] uniq assms(8) unfolding harmless_def by metis+
  have hq: "healthy q e" using R(3) be assms(6) unfolding harmless_def keeps_def healthy_def by blast
  have ne: "own \<noteq> e" using pq h assms(8) by metis
  have "keys (heap q own) = [principal_key pr]"
    using c
  proof (cases rule: candidate_Ok_cases)
    case (2 u p1 p2)
    note F = probe_frame [OF I(1) 2(1)]
    let ?p = "logf ''probe diverted colliding hint'' u p1"
    have u: "u = pr" using probe_Ok(2) [OF 2(1)] core_cfg [OF I(1)] uniq by metis
    have "keys (heap p2 own) = [principal_key u]"
      using ensurePrincipal_key [OF _ assms(1) _ _ 2(3)] F(6) idle_probe [OF 2(1) I(2)] probe_Ok(1) [OF 2(1)] by simp
    then show ?thesis using 2(4) u by (simp add: admit_bind_def admitLocked_heap)
  qed (use ne in simp)
  then show ?thesis using pq h hq ne by blast
qed

theorem colliding_hint_diverted_witness:
  "principal_of (heap ex_p2 1) = (''bob'', ''AC'') \<and> heap ex_p2 0 = ex_alice \<and> healthy ex_p2 0"
  using colliding_hint_diverted [OF ex_sane ex_quiet(1) _ _ _ _ _ _ ex_step2, of 0 0 "(''bob'', ''AC'')"] ex_healthy
  by (simp add: ex_p1_def ex_root ex_principalOf ex_alice_def principal_of_def healthy_def)

text \<open>
  C19: eviction removes every reference to the entry and closes its connection, and touches
  nothing else: no other entry's registration, bearers, sessions or connection.
\<close>

theorem evict_removes_exactly:
  assumes "sane_edge E cf" "reachable E cf S" "e < next_eid (pl S)"
  defines "q \<equiv> evictLocked e (pl S)"
  shows "(\<forall>k. fmlookup (entries q) k = (if fmlookup (entries (pl S)) k = Some e then None else fmlookup (entries (pl S)) k)) \<and>
    (\<forall>b. fmlookup (byBearer q) b = (if fmlookup (byBearer (pl S)) b = Some e then None else fmlookup (byBearer (pl S)) b)) \<and>
    (\<forall>s. fmlookup (sessions q) s = (if fmlookup (sessions (pl S)) s = Some e then None else fmlookup (sessions (pl S)) s)) \<and>
    live q = {c \<in> live (pl S). nc (heap (pl S) e) \<noteq> Some c} \<and> heap q = heap (pl S)"
proof -
  note inv = sys_inv_parts(2) [OF reachable_inv [OF assms(1,2)]]
  have "k \<in> set (keys (heap (pl S) e))" if "fmlookup (entries (pl S)) k = Some e" for k
    using core_entries [OF inv that] by simp
  moreover have "b \<in> set (admitted (heap (pl S) e))" if "fmlookup (byBearer (pl S)) b = Some e" for b
    using core_byBearer [OF inv that] by simp
  ultimately show ?thesis
    using entry_ok_conn_of [OF core_entry [OF inv assms(3)]]
    by (auto simp: q_def fmlookup_drop_if split: option.splits)
qed

theorem evict_removes_exactly_witness:
  "fmlookup (sessions (evictLocked 0 ex_p2)) ''s1'' = None \<and>
   fmlookup (sessions (evictLocked 0 ex_p2)) ''s2'' = Some 1 \<and> live (evictLocked 0 ex_p2) = {2}"
  using evict_removes_exactly [OF ex_sane ex_reachable, of 0]
  by (auto simp: ex_sys_def ex_p2_def ex_alice_def)

text \<open>
  C20: the pool remembers at most two bearers of an entry, all of them admitted as its principal;
  the bearer map never holds more for it, however many requests run.
\<close>

theorem remembered_bearers_bounded:
  assumes "sane_edge E cf" "reachable E cf S" "e < next_eid (pl S)"
  shows "card {b. fmlookup (byBearer (pl S)) b = Some e} \<le> 2 \<and>
    {b. fmlookup (byBearer (pl S)) b = Some e} \<subseteq> set (admitted (heap (pl S) e)) \<and>
    (\<forall>b \<in> set (admitted (heap (pl S) e)). \<exists>t. natsConnect E t b = None \<and>
        principalOf E t b (root (Segment E) cf) = Ok (principal_of (heap (pl S) e)))"
proof -
  note inv = sys_inv_parts(2) [OF reachable_inv [OF assms(1,2)]]
  let ?l = "admitted (heap (pl S) e)"
  have s: "{b. fmlookup (byBearer (pl S)) b = Some e} \<subseteq> set ?l" using core_byBearer [OF inv] by blast
  have "length ?l \<le> keep" using entry_ok_distinct [OF core_entry [OF inv assms(3)]] by blast
  then have "card {b. fmlookup (byBearer (pl S)) b = Some e} \<le> 2"
    using card_mono [OF _ s] card_length [of ?l] by (simp add: keep_def)
  moreover have "\<exists>t. natsConnect E t b = None \<and> principalOf E t b (root (Segment E) cf) = Ok (principal_of (heap (pl S) e))"
    if "b \<in> set ?l" for b
    using admitted_trusted [OF inv assms(3) that] core_granted [OF inv] trustedD by blast
  ultimately show ?thesis using s by blast
qed

theorem remembered_bearers_bounded_witness: "card {b. fmlookup (byBearer ex_p2) b = Some 1} \<le> 2"
  using remembered_bearers_bounded [OF ex_sane ex_reachable, of 1] by (simp add: ex_sys_def ex_p2_def)

end
