(* ===== verification/Node.thy ===== *)
theory Node
  imports OAuth SeqProps
begin

text \<open>
  \<open>node.go\<close>: the front door. A request is answered with metadata, with the 401 challenge, or by
  the streamable MCP handler of the SDK, which is a parameter: what it does to its response
  writer, given the hook that looks up the server of a request. The front door reaches the pool
  through three operations, so it is defined over them and \<open>ServeHTTP\<close> is its use on the pool.
\<close>

definition sessionHeader :: string where
  "sessionHeader = ''Mcp-Session-Id''"

text \<open>The SDK's handler: its DNS-rebinding option, the server hook, the request.\<close>

type_synonym sdk = "bool \<Rightarrow> (http_request \<Rightarrow> server option) \<Rightarrow> http_request \<Rightarrow> wop list"

section \<open>Capturing the session id\<close>

definition capture :: "(sid \<Rightarrow> 'k \<Rightarrow> 'p \<Rightarrow> 'p) \<Rightarrow> 'k \<Rightarrow> 'p \<times> writer \<times> bool \<Rightarrow> 'p \<times> writer \<times> bool" where
  "capture bind k st =
     (case st of (p, w, cdone) \<Rightarrow>
        if cdone then (p, w, cdone)
        else (let s = Get (w_header w) sessionHeader
              in (if s \<noteq> [] then bind s k p else p, w, True)))"

text \<open>
  The operations of \<open>sessionCapture\<close>: \<open>WriteHeader\<close> and \<open>Write\<close> capture first; \<open>Flush\<close> and the
  header map go to the wrapped writer.
\<close>

fun capture_step :: "(sid \<Rightarrow> 'k \<Rightarrow> 'p \<Rightarrow> 'p) \<Rightarrow> 'k \<Rightarrow> wop \<Rightarrow> 'p \<times> writer \<times> bool \<Rightarrow> 'p \<times> writer \<times> bool" where
  "capture_step bind k (WriteHeader code) st =
     (case capture bind k st of (p, w, d) \<Rightarrow> (p, wstep (WriteHeader code) w, d))"
| "capture_step bind k (Write b) st =
     (case capture bind k st of (p, w, d) \<Rightarrow> (p, wstep (Write b) w, d))"
| "capture_step bind k x (p, w, d) = (p, wstep x w, d)"

definition capture_run :: "(sid \<Rightarrow> 'k \<Rightarrow> 'p \<Rightarrow> 'p) \<Rightarrow> 'k \<Rightarrow> wop list \<Rightarrow> 'p \<Rightarrow> writer \<Rightarrow> 'p \<times> writer" where
  "capture_run bind k ops p w = (case fold (capture_step bind k) ops (p, w, False) of (q, v, _) \<Rightarrow> (q, v))"

section \<open>The front door\<close>

text \<open>The hook that \<open>New\<close> gives the SDK: the server of the request's bearer.\<close>

definition request_hook :: "(bearer \<Rightarrow> 'p \<Rightarrow> server option) \<Rightarrow> 'p \<Rightarrow> http_request \<Rightarrow> server option" where
  "request_hook hook p r = hook (bearerFrom (Authorization r)) p"

text \<open>
  The result is the pool, the writer, and whether the handler panicked (the server then drops
  the connection).
\<close>

definition front_door ::
  "(bearer \<Rightarrow> sid \<Rightarrow> 'p \<Rightarrow> 'p \<times> ('e, 'k) res) \<Rightarrow> (bearer \<Rightarrow> 'p \<Rightarrow> server option) \<Rightarrow> (sid \<Rightarrow> 'k \<Rightarrow> 'p \<Rightarrow> 'p) \<Rightarrow>
   (nat \<Rightarrow> bool) \<Rightarrow> sdk \<Rightarrow> config \<Rightarrow> http_request \<Rightarrow> 'p \<Rightarrow> 'p \<times> writer \<times> bool" where
  "front_door res hook bind P inner c r p =
     (let public = (PublicURL c \<noteq> []); w = new_writer;
          serve = (\<lambda>p'. (p', wrun (inner public (request_hook hook p') r) w, False)) in
      if public \<and> Path r = wellKnownPath then (p, serveMetadata c w, False)
      else (let bearer = bearerFrom (Authorization r) in
        if bearer = [] then
          (if public then (p, unauthorized P c [] w, False) else serve p)
        else (case res bearer (Session r) p of
            (q, Panic) \<Rightarrow> (q, w, True)
          | (q, Err _) \<Rightarrow>
              (if public then (q, unauthorized P c ''invalid_token'' w, False) else serve q)
          | (q, Ok k) \<Rightarrow>
              (if Session r = [] then
                 (case capture_run bind k (inner public (request_hook hook q) r) q w of (q', w') \<Rightarrow> (q', w', False))
               else serve q))))"

record node =
  n_cfg :: config
  n_pool :: pool

definition New :: "config \<Rightarrow> (config_error, node) res" where
  "New c =
     (let c' = (case Logger c of None \<Rightarrow> c\<lparr>Logger := Some StderrText\<rparr> | Some _ \<Rightarrow> c) in
      case validate c' of
        Some x \<Rightarrow> Err x
      | None \<Rightarrow> Ok \<lparr>n_cfg = c', n_pool = newPool c'\<rparr>)"

definition ServeHTTP :: "edge \<Rightarrow> (nat \<Rightarrow> bool) \<Rightarrow> sdk \<Rightarrow> http_request \<Rightarrow> node \<Rightarrow> node \<times> writer \<times> bool" where
  "ServeHTTP E P inner r n =
     (case front_door (resolve E) serverFor bindSession P inner (n_cfg n) r (n_pool n) of
        (q, w, b) \<Rightarrow> (n\<lparr>n_pool := q\<rparr>, w, b))"

definition Close :: "node \<Rightarrow> node" where
  "Close n = n\<lparr>n_pool := close_pool (n_pool n)\<rparr>"

section \<open>Capturing is transparent and binds once\<close>

text \<open>The session header at the moment the handler first writes the status or the body.\<close>

fun commits :: "wop \<Rightarrow> bool" where
  "commits (WriteHeader _) = True"
| "commits (Write _) = True"
| "commits _ = False"

definition minted_session :: "wop list \<Rightarrow> writer \<Rightarrow> string" where
  "minted_session ops w =
     (if list_ex commits ops then Get (w_header (wrun (takeWhile (\<lambda>x. \<not> commits x) ops) w)) sessionHeader else [])"

lemma capture_step_done: "fold (capture_step bind k) ops (p, w, True) = (p, wrun ops w, True)"
proof (induction ops arbitrary: w)
  case (Cons x xs)
  then show ?case by (cases x) (simp_all add: capture_def)
qed simp

lemma capture_fold:
  "fold (capture_step bind k) ops (p, w, False) =
     ((if minted_session ops w \<noteq> [] then bind (minted_session ops w) k p else p), wrun ops w, list_ex commits ops)"
proof (induction ops arbitrary: w)
  case (Cons x xs)
  show ?case
  proof (cases "commits x")
    case True
    then show ?thesis
      by (cases x) (simp_all add: capture_def Let_def minted_session_def capture_step_done)
  next
    case False
    then show ?thesis using Cons by (cases x) (simp_all add: minted_session_def)
  qed
qed (simp add: minted_session_def)

lemma capture_run:
  "capture_run bind k ops p w =
     ((if minted_session ops w \<noteq> [] then bind (minted_session ops w) k p else p), wrun ops w)"
  by (simp add: capture_run_def capture_fold)

section \<open>The contract of the pool\<close>

text \<open>
  What the front door relies on: resolving and binding keep the pool in order; a bearer that is
  served is entitled to its entry and finds that entry's server through the hook; a session
  bound to an entry in use answers only to bearers that are entitled to the entry.
\<close>

locale admission_pool =
  fixes res :: "bearer \<Rightarrow> sid \<Rightarrow> 'p \<Rightarrow> 'p \<times> ('e, 'k) res"
    and hook :: "bearer \<Rightarrow> 'p \<Rightarrow> server option"
    and bind :: "sid \<Rightarrow> 'k \<Rightarrow> 'p \<Rightarrow> 'p"
    and ok :: "'p \<Rightarrow> bool"
    and bound :: "'p \<Rightarrow> sid \<Rightarrow> 'k option"
    and usable :: "'p \<Rightarrow> 'k \<Rightarrow> bool"
    and entitled :: "'p \<Rightarrow> bearer \<Rightarrow> 'k \<Rightarrow> bool"
    and srv :: "'p \<Rightarrow> 'k \<Rightarrow> server"
  assumes res_ok: "ok p \<Longrightarrow> b \<noteq> [] \<Longrightarrow> res b s p = (q, r) \<Longrightarrow> ok q"
    and res_no_panic: "ok p \<Longrightarrow> res b s p = (q, r) \<Longrightarrow> r \<noteq> Panic"
    and res_served: "ok p \<Longrightarrow> res b s p = (q, Ok k) \<Longrightarrow>
      usable q k \<and> entitled q b k \<and> hook b q = Some (srv q k)"
    and bind_ok: "ok p \<Longrightarrow> b \<noteq> [] \<Longrightarrow> res b [] p = (q, Ok k) \<Longrightarrow> ok (bind s k q)"
    and bind_bound: "s \<noteq> [] \<Longrightarrow> bound p s = None \<Longrightarrow> bound (bind s k p) s = Some k"
    and bind_usable: "usable (bind s k p) j = usable p j"
    and bind_entitled: "entitled (bind s k p) b j = entitled p b j"
    and bound_refuses: "ok p \<Longrightarrow> s \<noteq> [] \<Longrightarrow> bound p s = Some k \<Longrightarrow> usable p k \<Longrightarrow> \<not> entitled p b k \<Longrightarrow>
      \<exists>q x. res b s p = (q, Err x)"
begin

lemma front_door_ok:
  assumes "ok p" "front_door res hook bind P inner c r p = (q, w, b)"
  shows "ok q \<and> \<not> b"
proof (cases "PublicURL c \<noteq> [] \<and> Path r = wellKnownPath")
  case True
  then show ?thesis using assms by (auto simp: front_door_def Let_def)
next
  case False
  let ?b = "bearerFrom (Authorization r)"
  show ?thesis
  proof (cases "?b = []")
    case True
    then show ?thesis using assms False by (auto simp: front_door_def Let_def split: if_splits)
  next
    case nb: False
    obtain p1 x where x: "res ?b (Session r) p = (p1, x)" by fastforce
    note I = res_ok [OF assms(1) nb x] and N = res_no_panic [OF assms(1) x]
    have "ok (bind s k p1)" if "x = Ok k" "Session r = []" for s k
      using bind_ok [OF assms(1) nb] x that by simp
    then show ?thesis
      using assms(2) False nb x I N
      by (cases x) (auto simp: front_door_def Let_def capture_run split: if_splits)
  qed
qed

text \<open>Public mode: without a bearer, or with one that is refused, the handler is not consulted.\<close>

lemma front_door_refuses:
  assumes "ok p" "PublicURL c \<noteq> []" "Path r \<noteq> wellKnownPath"
    and "bearerFrom (Authorization r) = [] \<or> (\<exists>x. snd (res (bearerFrom (Authorization r)) (Session r) p) = Err x)"
  shows "\<exists>q. front_door res hook bind P inner c r p =
     (q, unauthorized P c (if bearerFrom (Authorization r) = [] then [] else ''invalid_token'') new_writer, False)"
  using assms(2-4) by (auto simp: front_door_def Let_def split: prod.splits)

text \<open>A request that is served reaches the handler, whose hook answers with the entry's server.\<close>

lemma front_door_serves:
  fixes inner :: sdk and r :: http_request
  assumes "ok p" "PublicURL c \<noteq> [] \<Longrightarrow> Path r \<noteq> wellKnownPath" "bearerFrom (Authorization r) = b" "b \<noteq> []"
    and "res b (Session r) p = (q, Ok k)"
  defines "ops \<equiv> inner (PublicURL c \<noteq> []) (request_hook hook q) r"
  shows "front_door res hook bind P inner c r p =
     (if Session r = [] \<and> minted_session ops new_writer \<noteq> [] then bind (minted_session ops new_writer) k q else q,
      wrun ops new_writer, False)"
    "request_hook hook q r = Some (srv q k)" "entitled q b k"
proof -
  show "request_hook hook q r = Some (srv q k)" "entitled q b k"
    using res_served [OF assms(1,5)] assms(3) by (auto simp: request_hook_def)
  show "front_door res hook bind P inner c r p =
     (if Session r = [] \<and> minted_session ops new_writer \<noteq> [] then bind (minted_session ops new_writer) k q else q,
      wrun ops new_writer, False)"
    using assms(2-5) by (auto simp: ops_def front_door_def Let_def capture_run)
qed

text \<open>
  In public mode a session minted for one bearer answers 401 to every bearer that is not
  entitled to the entry.
\<close>

lemma minted_session_guarded:
  fixes inner :: sdk
  assumes "ok p" "PublicURL c \<noteq> []" "bearerFrom (Authorization r1) = b1" "b1 \<noteq> []" "Session r1 = []"
    and "Path r1 \<noteq> wellKnownPath" "Path r2 \<noteq> wellKnownPath"
    and "res b1 [] p = (q, Ok k)" "bound q s = None"
    and "minted_session (inner True (request_hook hook q) r1) new_writer = s"
    and "s \<noteq> []" "Session r2 = s" "bearerFrom (Authorization r2) = b2" "b2 \<noteq> []" "\<not> entitled q b2 k"
    and "front_door res hook bind P inner c r1 p = (p1, w1, x1)"
    and "front_door res hook bind P inner2 c r2 p1 = (p2, w2, x2)"
  shows "w2 = unauthorized P c ''invalid_token'' new_writer"
proof -
  have p1: "p1 = bind s k q"
    using front_door_serves(1) [OF assms(1) _ assms(3,4), of c q k P inner] assms(2,5,6,8,10,11,16) by auto
  have o: "ok p1" using bind_ok [OF assms(1,4) assms(8)] p1 by simp
  have "usable q k" using res_served [OF assms(1,8)] by blast
  then have "\<exists>q x. res b2 s p1 = (q, Err x)"
    using bound_refuses [OF o assms(11)] bind_bound [OF assms(11,9)] assms(15)
    by (simp add: p1 bind_usable bind_entitled)
  then show ?thesis
    using front_door_refuses [OF o assms(2,7), of P inner2] assms(12-14,17) by auto
qed

end

section \<open>The pool keeps the contract\<close>

text \<open>A bearer is entitled to an entry when some admission of it names the entry's principal.\<close>

definition entitled :: "edge \<Rightarrow> config \<Rightarrow> pool \<Rightarrow> bearer \<Rightarrow> eid \<Rightarrow> bool" where
  "entitled E cf p b e \<longleftrightarrow> (\<exists>t. natsConnect E t b = None \<and>
     principalOf E t b (root (Segment E) cf) = Ok (principal_of (heap p e)))"

definition server_at :: "pool \<Rightarrow> eid \<Rightarrow> server" where
  "server_at p e = (case server (heap p e) of Some v \<Rightarrow> v | None \<Rightarrow> Server 0 [])"

definition in_order :: "edge \<Rightarrow> config \<Rightarrow> pool \<Rightarrow> bool" where
  "in_order E cf p \<longleftrightarrow> sane_edge E cf \<and> quiet E cf p"

lemma quiet_settled_core:
  assumes "in_order E cf p"
  shows "sane_edge E cf" "core_inv E cf p" "no_build_running p" "tidy {} p"
  using assms quiet_inv unfolding in_order_def by blast+

lemma bound_refuses_pool:
  assumes "in_order E cf p" "s \<noteq> []" "fmlookup (sessions p) s = Some e" "aliveLocked p e" "\<not> entitled E cf p b e"
  shows "\<exists>q x. resolve E b s p = (q, Err x)"
proof -
  note I = quiet_settled_core [OF assms(1)]
  obtain q r where r: "resolve E b s p = (q, r)" by fastforce
  note R = resolve_ok [OF I(1-3) r]
  have e: "e < next_eid p" "nc (heap p e) \<noteq> None" using core_sessions [OF I(2) assms(3)] by blast+
  have "r \<noteq> Ok f" for f
  proof
    assume f: "r = Ok f"
    have be: "built_entry p e" using e by (simp add: built_entry_def)
    have fe: "f = e"
      using resolve_bound [OF assms(2-4) r] f by (auto simp: candidateForBound_def split: prod.splits res.splits if_splits)
    have "principal_of (heap q e) = principal_of (heap p e)"
      using R(3) be unfolding harmless_def same_identity_def by blast
    then have "entitled E cf p b e"
      using R(4) [OF f] core_granted [OF R(1)] fe unfolding entitled_def trusted_def by metis
    then show False using assms(5) by simp
  qed
  then show ?thesis using R(5) r by (cases r) auto
qed

interpretation node_pool: admission_pool "resolve E" serverFor bindSession "in_order E cf"
  "\<lambda>p s. fmlookup (sessions p) s" aliveLocked "entitled E cf" server_at for E cf
proof unfold_locales
  fix p b s q r
  assume p: "in_order E cf p" and b: "b \<noteq> []" and r: "resolve E b s p = (q, r)"
  show "in_order E cf q" using p quiet.request [OF _ b r] by (simp add: in_order_def)
next
  fix p b s q r
  assume p: "in_order E cf p" and r: "resolve E b s p = (q, r)"
  show "r \<noteq> Panic" using resolve_ok(5) [OF quiet_settled_core(1-3) [OF p] r] .
next
  fix p b s q k
  assume p: "in_order E cf p" and r: "resolve E b s p = (q, Ok k)"
  note I = quiet_settled_core [OF p]
  note R = resolve_ok [OF I(1-3) r]
  have t: "k < next_eid q" "nc (heap q k) \<noteq> None" "(b, principal_of (heap q k)) \<in> set (granted q)"
    using trustedD [OF R(4) [OF refl]] by blast+
  have sv: "served q b k" using resolve_tidy [OF I(2,1,3,4) r] by (simp add: outcome_tidy_def)
  then have "fmlookup (byBearer q) b = Some k" "aliveLocked q k"
    using tidy_admitted by (auto simp: served_def)
  moreover have "server (heap q k) = Some (server_at q k)"
    using entry_ok_built(2) [OF core_entry [OF R(1) t(1)]] t(2) by (auto simp: server_at_def)
  ultimately show "aliveLocked q k \<and> entitled E cf q b k \<and> serverFor b q = Some (server_at q k)"
    using core_granted [OF R(1) t(3)] by (simp add: serverFor_def entitled_def)
next
  fix p b q k s
  assume "in_order E cf p" "b \<noteq> []" "resolve E b [] p = (q, Ok k)"
  then show "in_order E cf (bindSession s k q)" using quiet.minted [of E cf p b q k s] by (simp add: in_order_def)
next
  fix s k and p :: pool
  assume "s \<noteq> []" "fmlookup (sessions p) s = None"
  then show "fmlookup (sessions (bindSession s k p)) s = Some k"
    by (simp add: bindSession_def bindLocked_sessions)
next
  fix s k p j b
  show "aliveLocked (bindSession s k p) j = aliveLocked p j" by (simp add: bindSession_def)
  show "entitled E cf (bindSession s k p) b j = entitled E cf p b j"
    by (simp add: bindSession_def entitled_def)
qed (rule bound_refuses_pool)

section \<open>Properties of the front door\<close>

text \<open>
  C9: the gate of public mode. Without a bearer, or with one that the pool refuses, the answer
  is 401 with the challenge, the body is generic, and the MCP handler plays no part in it.
\<close>

theorem public_mode_gate:
  assumes "in_order E cf (n_pool n)" "PublicURL (n_cfg n) \<noteq> []" "Path r \<noteq> wellKnownPath"
    and "bearerFrom (Authorization r) = b"
    and "b = [] \<or> (\<exists>x. snd (resolve E b (Session r) (n_pool n)) = Err x)"
    and "ServeHTTP E P inner r n = (n', w, panic)"
  shows "status w = 401 \<and> w_body w = ''unauthorized'' @ [CHR 0x0A] \<and> \<not> panic \<and>
    sent_header w ''WWW-Authenticate'' = challenge P (n_cfg n) (if b = [] then [] else ''invalid_token'') \<and>
    (\<forall>inner'. ServeHTTP E P inner' r n = (n', w, panic))"
proof -
  let ?w = "unauthorized P (n_cfg n) (if b = [] then [] else ''invalid_token'') new_writer"
  have F: "\<exists>q. front_door (resolve E) serverFor bindSession P inner' (n_cfg n) r (n_pool n) = (q, ?w, False)" for inner'
    using node_pool.front_door_refuses [OF assms(1-3), of P inner'] assms(4,5) by simp
  have Q: "fst (front_door (resolve E) serverFor bindSession P inner' (n_cfg n) r (n_pool n)) =
      (if b = [] then n_pool n else fst (resolve E b (Session r) (n_pool n)))" for inner'
    using assms(2-5) by (auto simp: front_door_def Let_def split: prod.splits)
  have "front_door (resolve E) serverFor bindSession P inner' (n_cfg n) r (n_pool n) =
      ((if b = [] then n_pool n else fst (resolve E b (Session r) (n_pool n))), ?w, False)" for inner'
    using F [of inner'] Q [of inner']
    by (cases "front_door (resolve E) serverFor bindSession P inner' (n_cfg n) r (n_pool n)") simp
  then have S: "ServeHTTP E P inner' r n =
      (n\<lparr>n_pool := (if b = [] then n_pool n else fst (resolve E b (Session r) (n_pool n)))\<rparr>, ?w, False)" for inner'
    by (simp add: ServeHTTP_def)
  have w: "w = ?w" "\<not> panic" using assms(6) S [of inner] by simp_all
  have "ServeHTTP E P inner' r n = (n', w, panic)" for inner'
    using assms(6) S [of inner'] S [of inner] by simp
  moreover have "w_sent new_writer = None" "w_body new_writer = []" by (simp_all add: new_writer_def)
  ultimately show ?thesis
    using w(2) unauthorized_result [of new_writer P "n_cfg n"] by (simp add: w(1))
qed

definition ex_node :: node where
  "ex_node = \<lparr>n_cfg = ex_cfg, n_pool = ex_p1\<rparr>"

definition ex_request :: "bearer \<Rightarrow> sid \<Rightarrow> http_request" where
  "ex_request b s = \<lparr>Path = ''/mcp'', Authorization = ''Bearer '' @ b, Session = s, Rest = []\<rparr>"

text \<open>A handler that answers every request, minting session \<open>s9\<close>.\<close>

definition ex_sdk :: sdk where
  "ex_sdk public hk r = [HeaderSet sessionHeader ''s9'', WriteHeader 200, Write ''ok'']"

lemma ex_in_order: "in_order ex_edge ex_cfg ex_p1"
  by (simp add: in_order_def ex_sane ex_quiet)

lemma ex_request [simp]:
  "bearerFrom (Authorization (ex_request b s)) = b" "Session (ex_request b s) = s"
  "Path (ex_request b s) \<noteq> wellKnownPath"
  using bearerFrom_Bearer [of b] by (simp_all add: ex_request_def wellKnownPath_def)

lemma ex_node [simp]: "n_pool ex_node = ex_p1" "n_cfg ex_node = ex_cfg" "PublicURL ex_cfg \<noteq> []"
  by (simp_all add: ex_node_def ex_cfg_def)

theorem public_mode_gate_witness:
  "\<exists>n' w. ServeHTTP ex_edge (\<lambda>_. True) ex_sdk (ex_request ''x'' []) ex_node = (n', w, False) \<and> status w = 401"
proof -
  obtain n' w panic where s: "ServeHTTP ex_edge (\<lambda>_. True) ex_sdk (ex_request ''x'' []) ex_node = (n', w, panic)"
    by (metis prod_cases3)
  show ?thesis
    using public_mode_gate [OF _ _ _ refl _ s, of ex_cfg] s ex_in_order ex_unknown by auto
qed

text \<open>
  C10: a request that is served reaches the MCP handler with the server of its own principal: the
  hook answers with the server of the entry, which signs as a persona that some admission of the
  bearer named; the response is what the handler wrote, and nothing panics.
\<close>

theorem served_request_gets_own_server:
  assumes "in_order E cf (n_pool n)" "PublicURL (n_cfg n) = [] \<or> Path r \<noteq> wellKnownPath"
    and "bearerFrom (Authorization r) = b" "b \<noteq> []"
    and "resolve E b (Session r) (n_pool n) = (q, Ok e)"
    and "ServeHTTP E P inner r n = (n', w, panic)"
  shows "\<exists>c t. request_hook serverFor q r = Some (Server c (persona (heap q e))) \<and>
      principalOf E t b (root (Segment E) cf) = Ok (principal_of (heap q e)) \<and>
      w = wrun (inner (PublicURL (n_cfg n) \<noteq> []) (request_hook serverFor q) r) new_writer \<and> \<not> panic"
proof -
  note I = quiet_settled_core [OF assms(1)]
  note R = resolve_ok [OF I(1-3) assms(5)]
  have pub: "PublicURL (n_cfg n) \<noteq> [] \<Longrightarrow> Path r \<noteq> wellKnownPath" using assms(2) by blast
  let ?ops = "inner (PublicURL (n_cfg n) \<noteq> []) (request_hook serverFor q) r"
  have F: "front_door (resolve E) serverFor bindSession P inner (n_cfg n) r (n_pool n) =
      (if Session r = [] \<and> minted_session ?ops new_writer \<noteq> [] then bindSession (minted_session ?ops new_writer) e q else q,
       wrun ?ops new_writer, False)"
    "request_hook serverFor q r = Some (server_at q e)" "entitled E cf q b e"
    by (rule node_pool.front_door_serves [OF assms(1) pub assms(3,4,5)]; assumption)+
  have t: "e < next_eid q" "nc (heap q e) \<noteq> None" using trustedD [OF R(4) [OF refl]] by blast+
  then obtain c where c: "server (heap q e) = Some (Server c (persona (heap q e)))"
    using entry_ok_built(2) [OF core_entry [OF R(1) t(1)]] by blast
  have "w = wrun (inner (PublicURL (n_cfg n) \<noteq> []) (request_hook serverFor q) r) new_writer" "\<not> panic"
    using assms(6) F(1) by (auto simp: ServeHTTP_def)
  then show ?thesis using F(2,3) c by (auto simp: entitled_def server_at_def)
qed

theorem served_request_gets_own_server_witness:
  "\<exists>c. serverFor jwt_forged ex_p2 = Some (Server c ''bob'')"
proof -
  obtain n' w panic where s: "ServeHTTP ex_edge (\<lambda>_. True) ex_sdk (ex_request jwt_forged ''s2'') ex_node = (n', w, panic)"
    by (metis prod_cases3)
  have "\<exists>c t. request_hook serverFor ex_p2 (ex_request jwt_forged ''s2'') = Some (Server c (persona (heap ex_p2 1)))"
    using served_request_gets_own_server [OF _ _ refl _ _ s, of ex_cfg ex_p2 1] ex_in_order ex_step2 by simp
  then show ?thesis by (simp add: request_hook_def ex_p2_def ex_bob_def)
qed

text \<open>
  C4: sessions cannot be hijacked in public mode. After a bearer is served on a request without
  session id and the handler mints one, a request with that session id and the bearer of another
  principal is answered 401, whatever the handler would do with it.
\<close>

theorem minted_session_answers_its_principal:
  assumes "in_order E cf (n_pool n)" "PublicURL (n_cfg n) \<noteq> []"
    and "bearerFrom (Authorization r1) = b1" "b1 \<noteq> []" "Session r1 = []"
    and "Path r1 \<noteq> wellKnownPath" "Path r2 \<noteq> wellKnownPath"
    and "resolve E b1 [] (n_pool n) = (q, Ok e)" "fmlookup (sessions q) s = None"
    and "minted_session (inner True (request_hook serverFor q) r1) new_writer = s" "s \<noteq> []"
    and "Session r2 = s" "bearerFrom (Authorization r2) = b2" "b2 \<noteq> []"
    and "\<And>t. principalOf E t b2 (root (Segment E) cf) \<noteq> Ok (principal_of (heap q e))"
    and "ServeHTTP E P inner r1 n = (n1, w1, x1)" "ServeHTTP E P inner2 r2 n1 = (n2, w2, x2)"
  shows "status w2 = 401 \<and> w_body w2 = ''unauthorized'' @ [CHR 0x0A]"
proof -
  obtain p1 where f1: "front_door (resolve E) serverFor bindSession P inner (n_cfg n) r1 (n_pool n) = (p1, w1, x1)"
    "n1 = n\<lparr>n_pool := p1\<rparr>"
    using assms(16) by (auto simp: ServeHTTP_def split: prod.splits)
  obtain p2 where f2: "front_door (resolve E) serverFor bindSession P inner2 (n_cfg n) r2 p1 = (p2, w2, x2)"
    using assms(17) f1(2) by (auto simp: ServeHTTP_def split: prod.splits)
  have "\<not> entitled E cf q b2 e" using assms(15) by (simp add: entitled_def)
  then have "w2 = unauthorized P (n_cfg n) ''invalid_token'' new_writer"
    by (rule node_pool.minted_session_guarded [OF assms(1-14) _ f1(1) f2])
  then show ?thesis
    using unauthorized_result [of new_writer P "n_cfg n"] by (simp add: new_writer_def)
qed

theorem minted_session_answers_its_principal_witness:
  "\<exists>n1 w1 x1 n2 w2 x2.
     ServeHTTP ex_edge (\<lambda>_. True) ex_sdk (ex_request jwt_alice []) ex_node = (n1, w1, x1) \<and>
     ServeHTTP ex_edge (\<lambda>_. True) ex_sdk (ex_request ''b1'' ''s9'') n1 = (n2, w2, x2) \<and> status w2 = 401"
proof -
  obtain n1 w1 x1 where s1: "ServeHTTP ex_edge (\<lambda>_. True) ex_sdk (ex_request jwt_alice []) ex_node = (n1, w1, x1)"
    by (metis prod_cases3)
  obtain n2 w2 x2 where s2: "ServeHTTP ex_edge (\<lambda>_. True) ex_sdk (ex_request ''b1'' ''s9'') n1 = (n2, w2, x2)"
    by (metis prod_cases3)
  have r: "resolve ex_edge jwt_alice [] ex_p1 = (adopt 0 jwt_alice ex_p1, Ok 0)"
    by (simp add: ex_run ex_p1_def ex_alice_def)
  have m: "minted_session (ex_sdk True hk x) new_writer = ''s9''" for hk x
    by (simp add: ex_sdk_def minted_session_def Get_Set sessionHeader_def)
  have "status w2 = 401 \<and> w_body w2 = ''unauthorized'' @ [CHR 0x0A]"
    by (rule minted_session_answers_its_principal [OF _ _ refl _ _ _ _ _ _ m _ _ refl _ _ s1 s2, of ex_cfg "adopt 0 jwt_alice ex_p1" 0])
      (use r ex_in_order in \<open>simp_all add: ex_root ex_principalOf ex_p1_def ex_alice_def principal_of_def\<close>)
  then show ?thesis using s1 s2 by blast
qed

text \<open>
  C35: the discovery document. In public mode the well-known path answers 200 with the JSON that
  names the public URL as the resource and the configured issuer as the authorization server; a
  client that parses it reads back exactly these, and the pool is not touched.
\<close>

theorem metadata_document:
  assumes "PublicURL (n_cfg n) \<noteq> []" "Path r = wellKnownPath"
    and "ascii (PublicURL (n_cfg n))" "ascii (AuthIssuer (n_cfg n))"
    and "ServeHTTP E P inner r n = (n', w, panic)"
  shows "n' = n \<and> \<not> panic \<and> status w = 200 \<and> sent_header w ''Content-Type'' = ''application/json'' \<and>
    parse_json (w_body w) = Some (JObj
      [(''authorization_servers'', JArr [JStr (AuthIssuer (n_cfg n))]),
       (''bearer_methods_supported'', JArr [JStr ''header'']),
       (''resource'', JStr (PublicURL (n_cfg n)))])"
proof -
  have w: "n' = n" "w = serveMetadata (n_cfg n) new_writer" "\<not> panic"
    using assms(1,2,5) by (auto simp: ServeHTTP_def front_door_def Let_def)
  have "parse_json (encode_line (metadata (n_cfg n))) = Some (metadata (n_cfg n))"
    by (rule metadata_parses [OF assms(3,4)])
  then show ?thesis
    unfolding metadata_members [symmetric] w(2)
    by (simp add: w(1,3) serveMetadata_def new_writer_def write_header_def status_def sent_header_def Let_def
        Get_def Set_def header_names)
qed

theorem metadata_document_witness:
  "\<exists>w. ServeHTTP ex_edge (\<lambda>_. True) ex_sdk ((ex_request [] [])\<lparr>Path := wellKnownPath\<rparr>) ex_node = (ex_node, w, False) \<and>
     status w = 200 \<and> parse_json (w_body w) = Some (JObj
      [(''authorization_servers'', JArr [JStr ''https://i'']),
       (''bearer_methods_supported'', JArr [JStr ''header'']), (''resource'', JStr ''https://n'')])"
proof -
  obtain n w x where s: "ServeHTTP ex_edge (\<lambda>_. True) ex_sdk ((ex_request [] [])\<lparr>Path := wellKnownPath\<rparr>) ex_node = (n, w, x)"
    by (metis prod_cases3)
  have u: "PublicURL ex_cfg = ''https://n''" "AuthIssuer ex_cfg = ''https://i''" by (simp_all add: ex_cfg_def)
  have a: "ascii ''https://n''" "ascii ''https://i''" by code_simp+
  have "n = ex_node \<and> \<not> x \<and> status w = 200 \<and> sent_header w ''Content-Type'' = ''application/json'' \<and>
    parse_json (w_body w) = Some (JObj
      [(''authorization_servers'', JArr [JStr (AuthIssuer (n_cfg ex_node))]),
       (''bearer_methods_supported'', JArr [JStr ''header'']),
       (''resource'', JStr (PublicURL (n_cfg ex_node)))])"
    by (rule metadata_document [OF _ _ _ _ s]) (use a u in \<open>simp_all del: ascii_simps\<close>)
  then show ?thesis using s by (simp add: u)
qed

text \<open>
  C36: the challenge of public mode names the metadata document: reading its quoted string back
  gives the public URL followed by the well-known path, for every printable URL.
\<close>

theorem challenge_names_metadata:
  assumes "printable (PublicURL c)"
  shows "\<exists>u rest. challenge P c code = ''Bearer resource_metadata='' @ u @ rest \<and>
    unquote_header u = Some (PublicURL c @ wellKnownPath) \<and> (code = [] \<longrightarrow> rest = [])"
proof -
  have "unquote_header (go_quote P (PublicURL c @ wellKnownPath)) = Some (PublicURL c @ wellKnownPath)"
    using assms printable_wellKnown(1) by (intro quoted.dec_enc) simp
  then show ?thesis by (auto simp: challenge_def)
qed

theorem challenge_names_metadata_witness:
  "\<exists>u rest. challenge (\<lambda>_. True) ex_cfg [] = ''Bearer resource_metadata='' @ u @ rest \<and>
    unquote_header u = Some (PublicURL ex_cfg @ wellKnownPath) \<and> rest = []"
proof -
  have "printable (PublicURL ex_cfg)" by code_simp
  then show ?thesis using challenge_names_metadata [of ex_cfg "\<lambda>_. True" "[]"] by simp
qed

text \<open>
  \<open>New\<close> returns a node exactly for the configurations that can work: it needs an address, a
  realm and a NATS URL, and an issuer exactly with a public URL, which may not end in a slash.
\<close>

lemma New_validates:
  "(\<exists>n. New c = Ok n) \<longleftrightarrow>
     Listen c \<noteq> [] \<and> Realm c \<noteq> [] \<and> NATSURL c \<noteq> [] \<and> (PublicURL c \<noteq> [] \<longleftrightarrow> AuthIssuer c \<noteq> []) \<and>
     take 1 (rev (PublicURL c)) \<noteq> ''/''"
proof -
  let ?c = "case Logger c of None \<Rightarrow> c\<lparr>Logger := Some StderrText\<rparr> | Some _ \<Rightarrow> c"
  have "validate ?c = validate c" by (simp split: option.splits)
  then have "(\<exists>n. New c = Ok n) \<longleftrightarrow> validate c = None"
    by (auto simp: New_def Let_def split: option.splits)
  moreover have "take 1 (rev u) \<noteq> ''/'' \<longleftrightarrow> (u \<noteq> [] \<longrightarrow> last u \<noteq> CHR ''/'')" for u :: string
    by (cases u rule: rev_cases) simp_all
  ultimately show ?thesis by (simp add: validate_None_iff public_mode_def)
qed

text \<open>
  C34: capturing the session id is transparent. The handler's writes reach the client as without
  the wrapper, and the pool binds at most one session: the one in the header when the handler
  first writes the status or the body, to the entry that was served.
\<close>

theorem capture_transparent:
  "capture_run bindSession e ops p w =
     ((if minted_session ops w = [] then p
       else (case fmlookup (sessions p) (minted_session ops w) of
               None \<Rightarrow> p\<lparr>sessions := fmupd (minted_session ops w) e (sessions p)\<rparr>
             | Some _ \<Rightarrow> p)), wrun ops w)"
  by (simp add: capture_run bindSession_def bindLocked_def split: option.splits)



end
