(* ===== verification/GoFlag.thy ===== *)
theory GoFlag
  imports GoFmt
begin

text \<open>
  Go's package \<open>flag\<close> as the three commands use it: a flag set of string and boolean flags,
  parsed with \<open>ExitOnError\<close>. The values are kept as strings, those of boolean flags as
  \<open>true\<close> or \<open>false\<close>. The usage text is left out.
\<close>

datatype flag_kind = StringFlag | BoolFlag

datatype flag_error =
    BadSyntax string
  | NotDefined string
  | InvalidBool string string
  | NeedsArgument string
  | ErrHelp

text \<open>\<open>strconv.ParseBool\<close>.\<close>

definition ParseBool :: "string \<Rightarrow> bool option" where
  "ParseBool s =
     (if s \<in> {''1'', ''t'', ''T'', ''TRUE'', ''true'', ''True''} then Some True
      else if s \<in> {''0'', ''f'', ''F'', ''FALSE'', ''false'', ''False''} then Some False
      else None)"

text \<open>The name of a flag argument and its value after the first \<open>=\<close>, which is not its first byte.\<close>

fun cut_eq :: "string \<Rightarrow> string \<times> string option" where
  "cut_eq [] = ([], None)"
| "cut_eq (c # cs) =
     (if c = CHR ''='' then ([], Some cs)
      else (case cut_eq cs of (n, v) \<Rightarrow> (c # n, v)))"

definition split_flag :: "string \<Rightarrow> string \<times> string option" where
  "split_flag name = (case name of [] \<Rightarrow> ([], None)
     | c # cs \<Rightarrow> (case cut_eq cs of (n, v) \<Rightarrow> (c # n, v)))"

type_synonym flag_values = "string \<Rightarrow> string"

text \<open>
  \<open>FlagSet.Parse\<close>: the values after the arguments that are flags, and the arguments left over.
\<close>

fun parse_flags ::
  "(string \<Rightarrow> flag_kind option) \<Rightarrow> string list \<Rightarrow> flag_values \<Rightarrow> (flag_error, flag_values \<times> string list) res"
where
  "parse_flags K [] vs = Ok (vs, [])"
| "parse_flags K (s # args) vs =
     (if length s < 2 \<or> hd s \<noteq> CHR ''-'' then Ok (vs, s # args)
      else if s = ''--'' then Ok (vs, args)
      else
        (let name = (if s ! 1 = CHR ''-'' then drop 2 s else drop 1 s) in
         if name = [] \<or> hd name = CHR ''-'' \<or> hd name = CHR ''='' then Err (BadSyntax s)
         else
           (case split_flag name of (n, v) \<Rightarrow>
             (case K n of
                None \<Rightarrow> Err (if n = ''help'' \<or> n = ''h'' then ErrHelp else NotDefined n)
              | Some BoolFlag \<Rightarrow>
                  (case v of
                     None \<Rightarrow> parse_flags K args (vs(n := ''true''))
                   | Some x \<Rightarrow>
                      (case ParseBool x of
                         None \<Rightarrow> Err (InvalidBool x n)
                       | Some b \<Rightarrow> parse_flags K args (vs(n := if b then ''true'' else ''false''))))
              | Some StringFlag \<Rightarrow>
                  (case v of
                     Some x \<Rightarrow> parse_flags K args (vs(n := x))
                   | None \<Rightarrow>
                      (case args of
                         [] \<Rightarrow> Err (NeedsArgument n)
                       | x # args' \<Rightarrow> parse_flags K args' (vs(n := x))))))))"

declare parse_flags.simps(2) [simp del]

text \<open>The status of \<open>os.Exit\<close> on a parse error under \<open>ExitOnError\<close>.\<close>

definition flag_exit :: "flag_error \<Rightarrow> nat" where
  "flag_exit e = (if e = ErrHelp then 0 else 2)"

section \<open>Arguments written for the flags\<close>

text \<open>One flag in each of the two forms \<open>--name=value\<close> and \<open>--name value\<close>.\<close>

definition flag_name :: "string \<Rightarrow> bool" where
  "flag_name n = (n \<noteq> [] \<and> CHR ''='' \<notin> set n \<and> hd n \<noteq> CHR ''-'')"

definition eq_form :: "string \<Rightarrow> string \<Rightarrow> string list" where
  "eq_form n v = [''--'' @ n @ ''='' @ v]"

definition two_form :: "string \<Rightarrow> string \<Rightarrow> string list" where
  "two_form n v = [''--'' @ n, v]"

lemma cut_eq_append: "CHR ''='' \<notin> set n \<Longrightarrow> cut_eq (n @ CHR ''='' # v) = (n, Some v)"
  by (induction n) auto

lemma cut_eq_plain: "CHR ''='' \<notin> set n \<Longrightarrow> cut_eq n = (n, None)"
  by (induction n) auto

lemma split_flag_forms:
  assumes "flag_name n"
  shows "split_flag (n @ CHR ''='' # v) = (n, Some v)" "split_flag n = (n, None)"
  using assms by (cases n; simp add: split_flag_def flag_name_def cut_eq_append cut_eq_plain)+

lemma parse_eq_form:
  assumes "flag_name n" "K n = Some StringFlag"
  shows "parse_flags K (eq_form n v @ args) vs = parse_flags K args (vs(n := v))"
proof -
  obtain c cs where n: "n = c # cs" "c \<noteq> CHR ''-''" "c \<noteq> CHR ''=''"
    using assms(1) by (cases n) (auto simp: flag_name_def)
  then show ?thesis
    using split_flag_forms(1) [OF assms(1), of v] assms(2)
    by (simp add: eq_form_def parse_flags.simps(2) Let_def)
qed

lemma parse_two_form:
  assumes "flag_name n" "K n = Some StringFlag"
  shows "parse_flags K (two_form n v @ args) vs = parse_flags K args (vs(n := v))"
proof -
  obtain c cs where n: "n = c # cs" "c \<noteq> CHR ''-''" "c \<noteq> CHR ''=''"
    using assms(1) by (cases n) (auto simp: flag_name_def)
  then show ?thesis
    using split_flag_forms(2) [OF assms(1)] assms(2)
    by (simp add: two_form_def parse_flags.simps(2) Let_def)
qed

text \<open>A command line of such flags, in whichever form each is written.\<close>

definition command_line :: "(bool \<times> string \<times> string) list \<Rightarrow> string list" where
  "command_line fs = concat (map (\<lambda>(eq, n, v). if eq then eq_form n v else two_form n v) fs)"

definition assigned :: "(bool \<times> string \<times> string) list \<Rightarrow> flag_values \<Rightarrow> flag_values" where
  "assigned fs vs = fold (\<lambda>(_, n, v) f. f(n := v)) fs vs"

lemma parse_command_line:
  assumes "list_all (\<lambda>(_, n, _). flag_name n \<and> K n = Some StringFlag) fs"
  shows "parse_flags K (command_line fs) vs = Ok (assigned fs vs, [])"
  using assms
proof (induction fs arbitrary: vs)
  case Nil
  show ?case by (simp add: command_line_def assigned_def)
next
  case (Cons f fs)
  obtain e n v where f: "f = (e, n, v)" by (cases f)
  have n: "flag_name n" "K n = Some StringFlag" using Cons.prems f by simp_all
  have IH: "parse_flags K (command_line fs) vs' = Ok (assigned fs vs', [])" for vs'
    using Cons by simp
  show ?case
    using parse_eq_form [of n K v "command_line fs" vs] parse_two_form [of n K v "command_line fs" vs] n IH f
    by (cases e) (simp_all add: command_line_def assigned_def)
qed

text \<open>The last setting of a flag wins; a flag that is not given keeps its default.\<close>

lemma assigned_lookup:
  "assigned fs vs n = (case map_of (rev (map snd fs)) n of Some v \<Rightarrow> v | None \<Rightarrow> vs n)"
proof (induction fs arbitrary: vs)
  case (Cons f fs)
  obtain e m v where f: "f = (e, m, v)" by (cases f)
  have "assigned (f # fs) vs n = assigned fs (vs(m := v)) n" by (simp add: assigned_def f)
  also have "\<dots> = (case map_of (rev (map snd fs)) n of Some v' \<Rightarrow> v' | None \<Rightarrow> (vs(m := v)) n)"
    by (rule Cons)
  finally show ?case by (auto simp: f map_add_def split: option.splits)
qed (simp add: assigned_def)

end
