(* ===== verification/GoMain.thy ===== *)
theory GoMain
  imports GoFlag
begin

text \<open>
  Commands: a Go \<open>main\<close> as a function on the process. What other services do is a world of an
  arbitrary type that their operations transform; the process adds its output and the files it
  wrote. A command ends with a value, exits with a status (\<open>os.Exit\<close>, \<open>log.Fatal\<close>), or panics.
\<close>

datatype line = Stdout string | Stderr string | FlagUsage flag_error

record 'w process =
  world :: 'w
  printed :: "line list"
  files :: "(string \<times> string \<times> nat) list"    \<comment> \<open>path, contents and mode, in writing order\<close>

type_synonym ('w, 'a) cmd = "'w process \<Rightarrow> (nat, 'a) res \<times> 'w process"

definition ret :: "'a \<Rightarrow> ('w, 'a) cmd" where
  "ret a p = (Ok a, p)"

definition andThen :: "('w, 'a) cmd \<Rightarrow> ('a \<Rightarrow> ('w, 'b) cmd) \<Rightarrow> ('w, 'b) cmd" where
  "andThen m f p =
     (case m p of (Ok a, q) \<Rightarrow> f a q | (Err n, q) \<Rightarrow> (Err n, q) | (Panic, q) \<Rightarrow> (Panic, q))"

definition exit_with :: "nat \<Rightarrow> ('w, 'a) cmd" where
  "exit_with n p = (Err n, p)"

definition emit :: "line \<Rightarrow> ('w, unit) cmd" where
  "emit l p = (Ok (), p\<lparr>printed := printed p @ [l]\<rparr>)"

text \<open>\<open>log.Print\<close> and \<open>log.Fatal\<close>; the time stamp of the log line is left out.\<close>

definition log_Print :: "string \<Rightarrow> ('w, unit) cmd" where
  "log_Print s = emit (Stderr s)"

definition log_Fatal :: "string \<Rightarrow> ('w, 'a) cmd" where
  "log_Fatal s = andThen (log_Print s) (\<lambda>_. exit_with 1)"

text \<open>An operation of the world: its answer and the world after it.\<close>

definition call :: "('w \<Rightarrow> 'a \<times> 'w) \<Rightarrow> ('w, 'a) cmd" where
  "call f p = (case f (world p) of (r, w) \<Rightarrow> (Ok r, p\<lparr>world := w\<rparr>))"

definition write_file :: "string \<Rightarrow> string \<Rightarrow> nat \<Rightarrow> ('w, unit) cmd" where
  "write_file path contents mode p = (Ok (), p\<lparr>files := files p @ [(path, contents, mode)]\<rparr>)"

text \<open>Parsing a flag set with \<open>ExitOnError\<close>.\<close>

definition parse_or_exit ::
  "(string \<Rightarrow> flag_kind option) \<Rightarrow> string list \<Rightarrow> flag_values \<Rightarrow> ('w, flag_values) cmd" where
  "parse_or_exit K args vs =
     (case parse_flags K args vs of
        Ok (vs', _) \<Rightarrow> ret vs'
      | Err e \<Rightarrow> andThen (emit (FlagUsage e)) (\<lambda>_. exit_with (flag_exit e))
      | Panic \<Rightarrow> (\<lambda>p. (Panic, p)))"

text \<open>A \<open>for range\<close> loop with an accumulator.\<close>

fun for_each :: "('a \<Rightarrow> 's \<Rightarrow> ('w, 's) cmd) \<Rightarrow> 'a list \<Rightarrow> 's \<Rightarrow> ('w, 's) cmd" where
  "for_each f [] s = ret s"
| "for_each f (x # xs) s = andThen (f x s) (for_each f xs)"

section \<open>Running commands\<close>

named_theorems cmd_simps \<open>how the basic commands run\<close>

lemma cmd_runs [cmd_simps]:
  "ret a p = (Ok a, p)" "exit_with n p = (Err n, p)"
  "emit l p = (Ok (), p\<lparr>printed := printed p @ [l]\<rparr>)"
  "log_Print s p = (Ok (), p\<lparr>printed := printed p @ [Stderr s]\<rparr>)"
  "log_Fatal s p = (Err 1, p\<lparr>printed := printed p @ [Stderr s]\<rparr>)"
  "write_file path c m p = (Ok (), p\<lparr>files := files p @ [(path, c, m)]\<rparr>)"
  by (simp_all add: ret_def exit_with_def emit_def log_Print_def log_Fatal_def andThen_def write_file_def)

lemma log_then: "andThen (log_Print t) f p = f () (p\<lparr>printed := printed p @ [Stderr t]\<rparr>)"
  by (simp add: andThen_def cmd_simps)

lemma andThen_Ok:
  "andThen m f p = (Ok b, q) \<longleftrightarrow> (\<exists>a r. m p = (Ok a, r) \<and> f a r = (Ok b, q))"
  by (auto simp: andThen_def split: prod.splits res.splits)

lemma ret_Ok: "ret a p = (Ok b, q) \<longleftrightarrow> b = a \<and> q = p"
  by (auto simp: ret_def)

lemma andThen_Err:
  "andThen m f p = (Err n, q) \<longleftrightarrow> m p = (Err n, q) \<or> (\<exists>a r. m p = (Ok a, r) \<and> f a r = (Err n, q))"
  by (auto simp: andThen_def split: prod.splits res.splits)

lemma andThen_run [cmd_simps]:
  "m p = (Ok a, q) \<Longrightarrow> andThen m f p = f a q"
  "m p = (Err n, q) \<Longrightarrow> andThen m f p = (Err n, q)"
  by (simp_all add: andThen_def)

lemma call_Ok: "call f p = (Ok r, q) \<longleftrightarrow> (\<exists>w. f (world p) = (r, w) \<and> q = p\<lparr>world := w\<rparr>)"
  by (auto simp: call_def split: prod.splits)

lemma call_never_exits [simp]: "call f p \<noteq> (Err n, q)" "call f p \<noteq> (Panic, q)"
  by (simp_all add: call_def split: prod.splits)

text \<open>
  What a command leaves alone: a relation between the processes before and after that sequencing
  and loops compose.
\<close>

definition leaves :: "('w process \<Rightarrow> 'w process \<Rightarrow> bool) \<Rightarrow> ('w, 'a) cmd \<Rightarrow> bool" where
  "leaves R m \<longleftrightarrow> (\<forall>p. R p (snd (m p)))"

lemma leavesD: "leaves R m \<Longrightarrow> m p = (r, q) \<Longrightarrow> R p q"
  unfolding leaves_def by (metis snd_conv)

lemma leavesI: "(\<And>p r q. m p = (r, q) \<Longrightarrow> R p q) \<Longrightarrow> leaves R m"
  unfolding leaves_def by (metis prod.collapse)

locale frame =
  fixes R :: "'w process \<Rightarrow> 'w process \<Rightarrow> bool"
  assumes refl: "R p p" and trans: "R p q \<Longrightarrow> R q r \<Longrightarrow> R p r"
begin

lemma leaves_ret: "leaves R (ret a)"
  by (simp add: leaves_def ret_def refl)

lemma leaves_exit: "leaves R (exit_with n)"
  by (simp add: leaves_def exit_with_def refl)

lemma leaves_andThen: "leaves R m \<Longrightarrow> (\<And>a. leaves R (f a)) \<Longrightarrow> leaves R (andThen m f)"
proof (rule leavesI)
  fix p r q
  assume l: "leaves R m" "\<And>a. leaves R (f a)" and run: "andThen m f p = (r, q)"
  obtain x p' where m: "m p = (x, p')" by fastforce
  show "R p q"
  proof (cases x)
    case (Ok a)
    then have "R p' q" using run m leavesD [OF l(2)] by (simp add: andThen_def)
    then show ?thesis using leavesD [OF l(1) m] trans by blast
  qed (use run m leavesD [OF l(1) m] in \<open>simp_all add: andThen_def\<close>)
qed

lemma leaves_if: "leaves R m \<Longrightarrow> leaves R m' \<Longrightarrow> leaves R (if b then m else m')"
  by simp

lemma leaves_case_option:
  "leaves R m \<Longrightarrow> (\<And>x. leaves R (f x)) \<Longrightarrow> leaves R (case y of None \<Rightarrow> m | Some x \<Rightarrow> f x)"
  by (simp split: option.splits)

lemma leaves_case_sum:
  "(\<And>x. leaves R (f x)) \<Longrightarrow> (\<And>x. leaves R (g x)) \<Longrightarrow> leaves R (case y of Inl x \<Rightarrow> f x | Inr x \<Rightarrow> g x)"
  by (simp split: sum.splits)

lemma leaves_case_prod: "(\<And>x y. leaves R (f x y)) \<Longrightarrow> leaves R (case z of (x, y) \<Rightarrow> f x y)"
  by (simp split: prod.splits)

lemmas leaves_all = leaves_ret leaves_exit leaves_andThen leaves_if leaves_case_option leaves_case_sum leaves_case_prod

lemma leaves_for_each: "(\<And>x s. leaves R (f x s)) \<Longrightarrow> leaves R (for_each f xs s)"
proof (induction xs arbitrary: s)
  case Nil
  show ?case by (simp add: leaves_ret)
next
  case (Cons x xs)
  then show ?case by (simp add: leaves_andThen)
qed

end

text \<open>Neither the world nor the files change: what a command that only reads and logs satisfies.\<close>

definition same_world :: "'w process \<Rightarrow> 'w process \<Rightarrow> bool" where
  "same_world p q \<longleftrightarrow> world q = world p \<and> files q = files p"

interpretation reading: frame same_world
  by unfold_locales (auto simp: same_world_def)

lemma reads_basic:
  "leaves same_world (emit l)" "leaves same_world (log_Print s)" "leaves same_world (log_Fatal s)"
  by (auto simp: leaves_def same_world_def cmd_simps)

lemma reads_call: "(\<And>w. snd (f w) = w) \<Longrightarrow> leaves same_world (call f)"
  by (simp add: leaves_def same_world_def call_def split: prod.splits) (metis snd_conv)

lemma reads_parse: "leaves same_world (parse_or_exit K args vs)"
proof -
  have "parse_flags K args vs \<noteq> Panic \<Longrightarrow> ?thesis"
    by (auto simp: parse_or_exit_def intro: reading.leaves_ret reading.leaves_andThen reading.leaves_exit reads_basic
        split: res.splits)
  moreover have "parse_flags K args vs = Panic \<Longrightarrow> ?thesis"
    by (simp add: parse_or_exit_def leaves_def same_world_def)
  ultimately show ?thesis by blast
qed

lemmas reads = reading.leaves_all reading.leaves_for_each
  reads_basic reads_parse

end
