(* ===== verification/Cli.thy ===== *)
theory Cli
  imports Node GoMain
begin

text \<open>
  \<open>cmd/soulstream-mcp/main.go\<close>: the settings of the node from flags over environment variables
  over defaults, and the exit status. \<open>http.ListenAndServe\<close> is an operation of the world that
  runs the node and ends with an error; the deferred \<open>Close\<close> is a command of the world, so that
  a run that skips it can be seen.
\<close>

definition envOr :: "(string \<Rightarrow> string option) \<Rightarrow> string \<Rightarrow> string \<Rightarrow> string" where
  "envOr LookupEnv key def = (case LookupEnv key of Some v \<Rightarrow> v | None \<Rightarrow> def)"

text \<open>The flags of the set: name, and the variable and default of each string flag.\<close>

definition node_flags :: "(string \<times> string \<times> string) list" where
  "node_flags =
     [(''listen'', ''SOULSTREAM_NODE_LISTEN'', ''127.0.0.1:8080''),
      (''public-url'', ''SOULSTREAM_NODE_PUBLIC_URL'', ''''),
      (''issuer'', ''SOULSTREAM_NODE_ISSUER'', ''''),
      (''realm'', ''SOULSTREAM_NODE_REALM'', ''''),
      (''nats-url'', ''SOULSTREAM_NODE_NATS_URL'', ''''),
      (''sentinel-creds'', ''SOULSTREAM_NODE_SENTINEL_CREDS'', ''''),
      (''prefix'', ''SOULSTREAM_NODE_PREFIX'', '''')]"

definition node_kinds :: "string \<Rightarrow> flag_kind option" where
  "node_kinds n =
     (if n = ''version'' then Some BoolFlag
      else if n \<in> set (map fst node_flags) then Some StringFlag else None)"

definition node_defaults :: "(string \<Rightarrow> string option) \<Rightarrow> flag_values" where
  "node_defaults LookupEnv n =
     (if n = ''version'' then ''false''
      else (case map_of node_flags n of Some (key, def) \<Rightarrow> envOr LookupEnv key def | None \<Rightarrow> []))"

definition node_config :: "flag_values \<Rightarrow> config" where
  "node_config vs =
     \<lparr>Listen = vs ''listen'', PublicURL = vs ''public-url'', AuthIssuer = vs ''issuer'',
      Realm = vs ''realm'', NATSURL = vs ''nats-url'', SentinelPath = vs ''sentinel-creds'',
      Prefix = vs ''prefix'', Logger = None\<rparr>"

text \<open>The texts of the validation errors; \<open>em_dash\<close> is U+2014 in UTF-8, \<open>arrow\<close> U+2192.\<close>

definition em_dash :: string where "em_dash = [CHR 0xE2, CHR 0x80, CHR 0x94]"
definition arrow :: string where "arrow = [CHR 0xE2, CHR 0x86, CHR 0x92]"

fun error_text :: "(nat \<Rightarrow> bool) \<Rightarrow> config_error \<Rightarrow> string" where
  "error_text P ListenRequired = ''node: Listen is required (the HTTP bind address, e.g. 127.0.0.1:8080)''"
| "error_text P RealmRequired = ''node: Realm is required (the realm this node fronts)''"
| "error_text P NATSURLRequired = ''node: NATSURL is required (the realm's NATS server)''"
| "error_text P AuthIssuerRequired =
     ''node: public mode (PublicURL set) requires AuthIssuer '' @ em_dash @
     '' the resource metadata must name the authorization server hosted clients sign in against''"
| "error_text P (PublicURLTrailingSlash u) =
     ''node: PublicURL '' @ go_quote P u @ '' must not end in a slash '' @ em_dash @
     '' it is the canonical resource identifier''"
| "error_text P AuthIssuerWithoutPublicURL =
     ''node: AuthIssuer without PublicURL '' @ em_dash @
     '' the OAuth edge only exists in public mode; set PublicURL or drop AuthIssuer''"

definition banner :: "(nat \<Rightarrow> bool) \<Rightarrow> string \<Rightarrow> flag_values \<Rightarrow> string" where
  "banner P version vs =
     (let mode = (if vs ''public-url'' \<noteq> []
                  then ''public ('' @ vs ''public-url'' @ '' '' @ arrow @ '' '' @ vs ''issuer'' @ '')''
                  else ''local (static bearers only)'')
      in ''soulstream-mcp '' @ version @ '': realm '' @ go_quote P (vs ''realm'') @ '' on '' @ vs ''nats-url'' @
         '', '' @ mode @ '', listening on '' @ vs ''listen'')"

text \<open>
  The world: serving an address with a node gives the error it ends with, if any; closing the
  node is what \<open>defer n.Close()\<close> does when \<open>main\<close> returns.
\<close>

record 'w host =
  ListenAndServe :: "string \<Rightarrow> node \<Rightarrow> 'w \<Rightarrow> string option \<times> 'w"
  CloseNode :: "node \<Rightarrow> 'w \<Rightarrow> 'w"

definition main ::
  "(nat \<Rightarrow> bool) \<Rightarrow> string \<Rightarrow> 'w host \<Rightarrow> (string \<Rightarrow> string option) \<Rightarrow> string list \<Rightarrow> ('w, unit) cmd"
where
  "main P version H LookupEnv args =
     andThen (parse_or_exit node_kinds args (node_defaults LookupEnv)) (\<lambda>vs.
     if vs ''version'' = ''true'' then emit (Stdout version)
     else
       (case New (node_config vs) of
          Err x \<Rightarrow> andThen (emit (Stderr (error_text P x))) (\<lambda>_. exit_with 2)
        | Panic \<Rightarrow> (\<lambda>p. (Panic, p))
        | Ok n \<Rightarrow>
            andThen (emit (Stderr (banner P version vs))) (\<lambda>_.
            andThen (call (ListenAndServe H (vs ''listen'') n)) (\<lambda>r.
            case r of
              Some e \<Rightarrow> andThen (emit (Stderr e)) (\<lambda>_. exit_with 1)
            | None \<Rightarrow> (\<lambda>p. (Ok (), p\<lparr>world := CloseNode H n (world p)\<rparr>))))))"

section \<open>What a start of the node does\<close>

lemma New_no_panic: "New c \<noteq> Panic"
  by (simp add: New_def Let_def split: option.splits)

lemma New_logger: "New (node_config vs) = Ok n \<Longrightarrow> n_cfg n = (node_config vs)\<lparr>Logger := Some StderrText\<rparr>
    \<and> n_pool n = newPool (n_cfg n)"
  by (auto simp: New_def node_config_def Let_def split: option.splits)

lemma node_flag_names: "list_all (\<lambda>(n, _, _). flag_name n \<and> node_kinds n = Some StringFlag) node_flags"
  by code_simp

text \<open>The settings a command line gives: its own, then the variable's, then the default.\<close>

definition setting :: "(bool \<times> string \<times> string) list \<Rightarrow> (string \<Rightarrow> string option) \<Rightarrow> string \<Rightarrow> string" where
  "setting fs LookupEnv n =
     (case map_of (rev (map snd fs)) n of Some v \<Rightarrow> v | None \<Rightarrow> node_defaults LookupEnv n)"

definition node_line :: "(bool \<times> string \<times> string) list \<Rightarrow> bool" where
  "node_line fs = list_all (\<lambda>(_, n, _). n \<in> set (map fst node_flags)) fs"

lemma node_line_parses:
  assumes "node_line fs"
  shows "parse_flags node_kinds (command_line fs) (node_defaults env) = Ok (setting fs env, [])"
proof -
  have "list_all (\<lambda>(_, n, _). flag_name n \<and> node_kinds n = Some StringFlag) fs"
    using assms node_flag_names unfolding node_line_def by (fastforce simp: list_all_iff)
  then have "parse_flags node_kinds (command_line fs) (node_defaults env) =
      Ok (assigned fs (node_defaults env), [])"
    by (rule parse_command_line)
  moreover have "assigned fs (node_defaults env) = setting fs env"
    by (rule ext) (simp add: assigned_lookup setting_def)
  ultimately show ?thesis by simp
qed

lemma setting_version: "node_line fs \<Longrightarrow> setting fs env ''version'' = ''false''"
proof -
  assume l: "node_line fs"
  have "''version'' \<notin> set (map fst node_flags)" by code_simp
  then have "map_of (rev (map snd fs)) ''version'' = None"
    using l by (force simp: node_line_def list_all_iff map_of_eq_None_iff)
  then show ?thesis by (simp add: setting_def node_defaults_def)
qed


definition ex_env :: "string \<Rightarrow> string option" where
  "ex_env k = (if k = ''SOULSTREAM_NODE_REALM'' then Some ''proof''
               else if k = ''SOULSTREAM_NODE_NATS_URL'' then Some ''nats://n'' else None)"

definition ex_host :: "(string list) host" where
  "ex_host = \<lparr>ListenAndServe = (\<lambda>a n w. (Some ''address in use'', w @ [''serve '' @ a])),
     CloseNode = (\<lambda>n w. w @ [''close''])\<rparr>"

definition ex_args :: "(bool \<times> string \<times> string) list" where
  "ex_args = [(True, ''listen'', '':1''), (False, ''listen'', '':2'')]"

lemma ex_setting:
  "setting ex_args ex_env ''listen'' = '':2''" "setting ex_args ex_env ''realm'' = ''proof''"
  "setting ex_args ex_env ''nats-url'' = ''nats://n''" "setting ex_args ex_env ''public-url'' = []"
  "setting ex_args ex_env ''issuer'' = []" "node_line ex_args"
  by code_simp+


text \<open>
  Nothing listens before the configuration is validated: whatever the arguments and the
  environment, a run that reaches the world did so with a node that \<open>New\<close> accepted.
\<close>

lemma listens_only_when_valid:
  assumes "\<And>a n w. ListenAndServe H a n w = (Some e, add a (n_cfg n) w)"
    and "main P version H env args p = (r, q)" and "world q \<noteq> world p"
  shows "\<exists>a c. validate c = None \<and> world q = add a c (world p) \<and> a = Listen c \<and> r = Err 1"
proof -
  obtain vs p' where p': "parse_or_exit node_kinds args (node_defaults env) p = (Ok vs, p')"
    "world p' = world p"
    "(if vs ''version'' = ''true'' then emit (Stdout version)
     else
       (case New (node_config vs) of
          Err x \<Rightarrow> andThen (emit (Stderr (error_text P x))) (\<lambda>_. exit_with 2)
        | Panic \<Rightarrow> (\<lambda>p. (Panic, p))
        | Ok n \<Rightarrow>
            andThen (emit (Stderr (banner P version vs))) (\<lambda>_.
            andThen (call (ListenAndServe H (vs ''listen'') n)) (\<lambda>r.
            case r of
              Some e \<Rightarrow> andThen (emit (Stderr e)) (\<lambda>_. exit_with 1)
            | None \<Rightarrow> (\<lambda>p. (Ok (), p\<lparr>world := CloseNode H n (world p)\<rparr>)))))) p' = (r, q)"
  proof -
    obtain x p' where x: "parse_or_exit node_kinds args (node_defaults env) p = (x, p')" by fastforce
    have w: "world p' = world p"
      using leavesD [OF reads_parse x] by (simp add: same_world_def)
    show thesis
    proof (cases x)
      case (Ok vs)
      then show ?thesis using assms(2) x w that [of vs p'] by (simp add: main_def andThen_def)
    qed (use assms(2,3) x w in \<open>simp_all add: main_def andThen_def\<close>)
  qed
  have nv: "vs ''version'' \<noteq> ''true''" using p'(2,3) assms(3) by (auto simp: cmd_simps)
  show ?thesis
  proof (cases "New (node_config vs)")
    case (Ok n)
    have v: "n_cfg n = (node_config vs)\<lparr>Logger := Some StderrText\<rparr>" "validate (n_cfg n) = None"
      using New_logger [OF Ok] Ok by (auto simp: New_def Let_def split: option.splits)
    then have "Listen (n_cfg n) = vs ''listen''" by (simp add: node_config_def)
    then show ?thesis
      using p'(2,3) nv Ok v assms(1)
      by (intro exI [of _ "vs ''listen''"] exI [of _ "n_cfg n"])
         (auto simp: andThen_def cmd_simps call_def)
  qed (use p'(2,3) nv assms(3) New_no_panic in \<open>auto simp: andThen_def cmd_simps\<close>)
qed

end
