(* ===== verification/Scope.thy ===== *)
theory Scope
  imports Principal
begin

text \<open>
  The scope of a represented user: the permissions template that \<open>cmd/byon-setup\<close> provisions
  (\<open>userScope\<close>) and the one of the test rig (\<open>scopeTemplate\<close> of \<open>rigtest/rig.go\<close>). The NATS
  server fills the template in for an account and a user; the node reads the principal back
  from the result.
\<close>

record permissions =
  pub_allow :: "string list"
  sub_allow :: "string list"

definition userScope :: permissions where
  "userScope =
     \<lparr>pub_allow =
        [''identity.status'', ''identity.xkey'',
         ''identity.{{account-subject()}}.{{name()}}.sign.record'',
         ''identity.{{account-subject()}}.{{name()}}.keys.public'',
         ''SOULSTREAM.>'', ''$JS.API.>'', ''$KV.>'', ''$O.>'',
         ''$SYS.REQ.USER.INFO''],
      sub_allow = [''_INBOX.>'', ''SOULSTREAM.>'']\<rparr>"

record user_scope =
  Key :: string
  Role :: string
  Template :: permissions

definition scopeTemplate :: "string \<Rightarrow> string \<Rightarrow> user_scope" where
  "scopeTemplate segment acmeSKPub =
     \<lparr>Key = acmeSKPub, Role = ''soulstream-user'',
      Template =
        \<lparr>pub_allow =
           [segment @ ''.status'', segment @ ''.xkey'',
            segment @ ''.{{account-subject()}}.{{name()}}.sign.record'',
            segment @ ''.{{account-subject()}}.{{name()}}.keys.public'',
            ''SOULSTREAM.>'', ''$JS.API.>'', ''$KV.>'', ''$O.>'',
            ''$SYS.REQ.USER.INFO''],
         sub_allow = [''_INBOX.>'', ''SOULSTREAM.>'']\<rparr>\<rparr>"

section \<open>Filling the template in\<close>

text \<open>
  What the NATS server documents of its template functions: text without braces stays as it is,
  and \<open>{{account-subject()}}\<close> and \<open>{{name()}}\<close> become the account's key and the user's name.
\<close>

definition fills_templates :: "(string \<Rightarrow> string) \<Rightarrow> string \<Rightarrow> string \<Rightarrow> bool" where
  "fills_templates expand account user \<longleftrightarrow>
     (\<forall>s. CHR ''{'' \<notin> set s \<longrightarrow> expand s = s) \<and>
     (\<forall>a s. CHR ''{'' \<notin> set a \<longrightarrow> expand (a @ ''{{account-subject()}}'' @ s) = a @ account @ expand s) \<and>
     (\<forall>a s. CHR ''{'' \<notin> set a \<longrightarrow> expand (a @ ''{{name()}}'' @ s) = a @ user @ expand s)"

text \<open>One way to fill templates in, from left to right.\<close>

fun fill :: "string \<Rightarrow> string \<Rightarrow> string \<Rightarrow> string" where
  "fill account user [] = []"
| "fill account user (c # cs) =
     (if HasPrefix (c # cs) ''{{account-subject()}}'' then account @ fill account user (drop 20 cs)
      else if HasPrefix (c # cs) ''{{name()}}'' then user @ fill account user (drop 9 cs)
      else c # fill account user cs)"

lemma fill_plain: "CHR ''{'' \<notin> set a \<Longrightarrow> fill account user (a @ s) = a @ fill account user s"
  by (induction a) (auto simp: HasPrefix_def)

lemma fills_fill: "fills_templates (fill account user) account user"
  unfolding fills_templates_def
proof (intro conjI allI impI)
  fix s :: string assume "CHR ''{'' \<notin> set s"
  then show "fill account user s = s" using fill_plain [of s account user "[]"] by simp
qed (simp_all add: fill_plain HasPrefix_def)

lemma filled:
  assumes "fills_templates expand account user" "CHR ''{'' \<notin> set r" "CHR ''{'' \<notin> set x"
  shows "expand (r @ ''.{{account-subject()}}.{{name()}}.'' @ x) = r @ ''.'' @ account @ ''.'' @ user @ ''.'' @ x"
proof -
  have e: "expand s = s" "expand (a @ ''{{account-subject()}}'' @ s') = a @ account @ expand s'"
    "expand (a @ ''{{name()}}'' @ s') = a @ user @ expand s'"
    if "CHR ''{'' \<notin> set s" "CHR ''{'' \<notin> set a" for s a s'
    using assms(1) that unfolding fills_templates_def by blast+
  have "expand ((r @ ''.'') @ ''{{account-subject()}}'' @ s') = (r @ ''.'') @ account @ expand s'" for s'
    by (rule e(2) [of "[]"]) (use assms(2) in simp_all)
  moreover have "expand (''.'' @ ''{{name()}}'' @ s') = ''.'' @ user @ expand s'" for s'
    by (rule e(3) [of "[]"]) simp_all
  moreover have "expand (''.'' @ x) = ''.'' @ x"
    by (rule e(1) [of _ "[]"]) (use assms(3) in simp_all)
  ultimately have "expand ((r @ ''.'') @ ''{{account-subject()}}'' @ ''.'' @ ''{{name()}}'' @ ''.'' @ x) =
      (r @ ''.'') @ account @ ''.'' @ user @ ''.'' @ x"
    by (simp only:)
  then show ?thesis by simp
qed

section \<open>The principal of a filled-in scope\<close>

lemma principalFromAllows_unique:
  assumes "valid_principal pr" "grant_subject rt pr \<in> set as"
    and "\<And>s. s \<in> set as \<Longrightarrow> \<not> overlapping_subject rt s"
    and "\<And>q. valid_principal q \<Longrightarrow> grant_subject rt q \<in> set as \<Longrightarrow> q = pr"
  shows "principalFromAllows as rt = Ok (Some pr)"
proof -
  have "principalFromAllows as rt \<noteq> Panic"
    using assms(3) by (auto simp: principalFromAllows_Panic_iff)
  moreover have "principalFromAllows as rt \<noteq> Ok None"
    using assms(1,2) unfolding principalFromAllows_None_iff by blast
  ultimately obtain q where q: "principalFromAllows as rt = Ok (Some q)"
    using principalFromAllows_not_Err [of as rt] by (cases "principalFromAllows as rt") auto
  then show ?thesis using principalFromAllows_sound [OF q] assms(4) by blast
qed

text \<open>The subjects of the scope that are not the grant, by how they differ from a grant.\<close>

lemma not_a_grant:
  "\<not> HasSuffix s signRecordSuffix \<Longrightarrow> \<not> overlapping_subject rt s \<and> s \<noteq> grant_subject rt q"
  by (auto simp: overlapping_subject_def grant_subject_def HasSuffix_iff)

lemma HasSuffix_last: "HasSuffix s x \<Longrightarrow> x \<noteq> [] \<Longrightarrow> last s = last x"
  by (auto simp: HasSuffix_iff)

definition filled_scope :: "string \<Rightarrow> string \<Rightarrow> string \<Rightarrow> string list" where
  "filled_scope segment account user =
     [segment @ ''.status'', segment @ ''.xkey'', grant_subject segment (user, account),
      segment @ ''.'' @ account @ ''.'' @ user @ ''.keys.public'',
      ''SOULSTREAM.>'', ''$JS.API.>'', ''$KV.>'', ''$O.>'', ''$SYS.REQ.USER.INFO'']"

lemma filled_scopeTemplate:
  assumes "fills_templates expand account user" "CHR ''{'' \<notin> set segment"
  shows "map expand (pub_allow (Template (scopeTemplate segment k))) = filled_scope segment account user"
proof -
  have p: "expand s = s" if "CHR ''{'' \<notin> set s" for s
    using assms(1) that unfolding fills_templates_def by blast
  show ?thesis
    using filled [OF assms, of "''sign.record''"] filled [OF assms, of "''keys.public''"]
      p [of "segment @ ''.status''"] p [of "segment @ ''.xkey''"] assms(2)
    by (simp add: scopeTemplate_def filled_scope_def grant_subject_def signRecordSuffix_def p)
qed

lemma only_one_grant:
  assumes "s \<in> set (filled_scope segment account user)" "s \<noteq> grant_subject segment (user, account)"
  shows "\<not> HasSuffix s signRecordSuffix"
  using assms HasSuffix_last [of s signRecordSuffix]
  by (auto simp: filled_scope_def signRecordSuffix_def)

lemma filled_scope_names:
  assumes "valid_principal (user, account)" and as: "set allows = set (filled_scope segment account user)"
  shows "principalFromAllows allows segment = Ok (Some (user, account))"
proof (rule principalFromAllows_unique [OF assms(1)])
  show "grant_subject segment (user, account) \<in> set allows" by (simp add: as filled_scope_def)
  show "\<not> overlapping_subject segment s" if "s \<in> set allows" for s
    using that only_one_grant [of s segment account user] not_a_grant [of s segment] grant_not_overlapping as
    by blast
  show "q = (user, account)" if q: "valid_principal q" "grant_subject segment q \<in> set allows" for q
  proof -
    have "HasSuffix (grant_subject segment q) signRecordSuffix"
      by (auto simp: grant_subject_def HasSuffix_iff)
    then have "grant_subject segment q = grant_subject segment (user, account)"
      using only_one_grant q(2) as by blast
    then show ?thesis using grant_subject_unique q(1) assms(1) by blast
  qed
qed

text \<open>
  C22: the scope that the operators provision names its user to the node: whatever list of
  subjects the server reports that has the filled-in template's entries, in any order,
  \<open>principalFromAllows\<close> reads the user and the account back from it.
\<close>

theorem scope_names_principal:
  assumes "fills_templates expand account user" "CHR ''{'' \<notin> set segment"
    and "valid_principal (user, account)"
    and "set allows = set (map expand (pub_allow (Template (scopeTemplate segment k))))"
  shows "principalFromAllows allows segment = Ok (Some (user, account))"
  by (rule filled_scope_names [OF assms(3)]) (simp only: assms(4) filled_scopeTemplate [OF assms(1,2)])

theorem scope_names_principal_witness:
  "principalFromAllows (map (fill ''ACME'' ''daan'') (pub_allow (Template (scopeTemplate ''identity'' ''SK'')))) ''identity'' =
     Ok (Some (''daan'', ''ACME''))"
  by (rule scope_names_principal [OF fills_fill _ _ refl])
     (simp_all add: valid_principal_def subject_token_def)


end
