(* ===== verification/GoPath.thy ===== *)
theory GoPath
  imports GoStrings
begin

text \<open>The part of \<open>path/filepath\<close> that the program uses, on slash-separated paths.\<close>

text \<open>\<open>filepath.Join(dir, name)\<close> with the lexical rules of \<open>Clean\<close>.\<close>

definition clean_step :: "bool \<Rightarrow> string \<Rightarrow> string list \<Rightarrow> string list" where
  "clean_step rooted seg stack =
     (if seg = [] \<or> seg = ''.'' then stack
      else if seg = ''..'' then
        (case stack of
           [] \<Rightarrow> if rooted then [] else [seg]
         | t # ts \<Rightarrow> if t = ''..'' then seg # stack else ts)
      else seg # stack)"

definition Clean :: "string \<Rightarrow> string" where
  "Clean path =
     (if path = [] then ''.''
      else (let rooted = (hd path = CHR ''/'');
                segs = rev (fold (clean_step rooted) (Split path (CHR ''/'')) []);
                joined = Join segs (CHR ''/'')
            in if rooted then CHR ''/'' # joined else if joined = [] then ''.'' else joined))"

definition path_join :: "string \<Rightarrow> string \<Rightarrow> string" where
  "path_join dir name =
     (if dir = [] \<and> name = [] then []
      else if dir = [] then Clean name
      else if name = [] then Clean dir
      else Clean (dir @ ''/'' @ name))"

end
