(* ===== verification/ByonSetup.thy ===== *)
theory ByonSetup
  imports Scope GoMain GoPath
begin

text \<open>
  \<open>cmd/byon-setup/main.go\<close>: choosing the system and the accounts, the three find-or-create
  operations, and the sequence that wires the auth callout. The cloud API is a record of
  operations on a world; the file system answers \<open>MkdirAll\<close> and \<open>WriteFile\<close> with an error or not.
\<close>

section \<open>Strings\<close>

text \<open>
  \<open>strings.ToLower\<close> and \<open>strings.EqualFold\<close> on ASCII strings; on others they follow Unicode
  tables, which are a parameter.
\<close>

record unicode =
  toLower :: "string \<Rightarrow> string"
  equalFold :: "string \<Rightarrow> string \<Rightarrow> bool"

definition lower_char :: "char \<Rightarrow> char" where
  "lower_char c = (if between 65 (byte c) 90 then chr (byte c + 32) else c)"

definition ToLower :: "unicode \<Rightarrow> string \<Rightarrow> string" where
  "ToLower U s = (if ascii s then map lower_char s else toLower U s)"

definition EqualFold :: "unicode \<Rightarrow> string \<Rightarrow> string \<Rightarrow> bool" where
  "EqualFold U s t =
     (if ascii s \<and> ascii t then map lower_char s = map lower_char t else equalFold U s t)"

section \<open>The cloud\<close>

text \<open>Errors: those of the API client carry the body of the reply.\<close>

datatype go_error = PlainError string | APIError string string

definition error_str :: "go_error \<Rightarrow> string" where
  "error_str e = (case e of PlainError t \<Rightarrow> t | APIError t _ \<Rightarrow> t)"

record team_view =
  team_id :: string
  team_name :: string

record system_view =
  sys_id :: string
  sys_name :: string

record account_view =
  acc_id :: string
  acc_name :: string
  AccountPublicKey :: "string option"
  IsSystemAccount :: bool

record sk_group =
  sk_id :: string
  sk_name :: string
  Programmatic :: bool

record nats_user =
  user_id :: string
  user_name :: string

record callout_config =
  callout_id :: string
  ControlAccountId :: string
  XkeyPublic :: "string option"

type_synonym ('w, 'a) api = "'w \<Rightarrow> (go_error + 'a) \<times> 'w"

record 'w cloud =
  ListTeams :: "('w, team_view list) api"
  ListTeamSystems :: "string \<Rightarrow> ('w, system_view list) api"
  ListAccounts :: "string \<Rightarrow> ('w, account_view list) api"
  CreateAccount :: "string \<Rightarrow> string \<Rightarrow> ('w, account_view) api"
  ListAccountSkGroup :: "string \<Rightarrow> ('w, sk_group list) api"
  CreateAccountSkGroup ::
    "string \<Rightarrow> string \<Rightarrow> bool \<Rightarrow> permissions option \<Rightarrow> ('w, sk_group \<times> string option) api"
  EnableAuthCallout :: "string \<Rightarrow> string \<Rightarrow> ('w, unit) api"
  ListAuthCalloutConfigs :: "string \<Rightarrow> ('w, callout_config list) api"
  GetAuthCallout :: "string \<Rightarrow> ('w, nat \<times> nat) api"
  AddAuthCalloutTargetAccount :: "string \<Rightarrow> string \<Rightarrow> string \<Rightarrow> string \<Rightarrow> ('w, unit) api"
  AddAuthCalloutUser :: "string \<Rightarrow> string \<Rightarrow> ('w, unit) api"
  ListUsers :: "string \<Rightarrow> ('w, nats_user list) api"
  CreateUser :: "string \<Rightarrow> string \<Rightarrow> string \<Rightarrow> ('w, nats_user) api"
  DownloadNatsUserCreds :: "string \<Rightarrow> ('w, string) api"
  MkdirAll :: "string \<Rightarrow> nat \<Rightarrow> ('w, unit) api"
  WriteFile :: "string \<Rightarrow> string \<Rightarrow> nat \<Rightarrow> ('w, unit) api"

definition emdash :: string where "emdash = [CHR 0xE2, CHR 0x80, CHR 0x94]"

text \<open>\<open>fatal\<close>: an error ends the command with its text and, from the API, the reply's body.\<close>

definition fatal :: "string \<Rightarrow> go_error + 'a \<Rightarrow> ('w, 'a) cmd" where
  "fatal what r =
     (case r of
        Inr a \<Rightarrow> ret a
      | Inl (APIError t body) \<Rightarrow> log_Fatal (''byon-setup: '' @ what @ '': '' @ t @ '' '' @ emdash @ '' '' @ body)
      | Inl (PlainError t) \<Rightarrow> log_Fatal (''byon-setup: '' @ what @ '': '' @ t))"

text \<open>A call whose error is fatal.\<close>

definition must :: "string \<Rightarrow> ('w, 'a) api \<Rightarrow> ('w, 'a) cmd" where
  "must what f = andThen (call f) (fatal what)"

text \<open>\<open>fatal(what, os.WriteFile(\<dots>))\<close>; the process keeps a record of the files written.\<close>

definition must_write :: "'w cloud \<Rightarrow> string \<Rightarrow> string \<Rightarrow> string \<Rightarrow> nat \<Rightarrow> ('w, unit) cmd" where
  "must_write C what path contents mode =
     andThen (must what (WriteFile C path contents mode)) (\<lambda>_. write_file path contents mode)"

definition bool_str :: "bool \<Rightarrow> string" where
  "bool_str b = (if b then ''true'' else ''false'')"

definition opt_str :: "string option \<Rightarrow> string" where
  "opt_str s = (case s of Some t \<Rightarrow> t | None \<Rightarrow> [])"

section \<open>Find or create\<close>

text \<open>The modes \<open>0o600\<close> and \<open>0o700\<close>.\<close>

definition mode600 :: nat where "mode600 = 384"
definition mode700 :: nat where "mode700 = 448"

definition ensureSkGroup ::
  "(nat \<Rightarrow> bool) \<Rightarrow> 'w cloud \<Rightarrow> string \<Rightarrow> string \<Rightarrow> permissions option \<Rightarrow> string \<Rightarrow> ('w, string) cmd"
where
  "ensureSkGroup P C accountID name scope outDir =
     andThen (must ''list sk groups'' (ListAccountSkGroup C accountID)) (\<lambda>existing.
     case find (\<lambda>g. sk_name g = name) existing of
       Some g \<Rightarrow>
         andThen (log_Print (''sk group '' @ go_quote P name @ '' exists (id '' @ sk_id g @ '') '' @ emdash @
           '' reusing; its seed was shown at creation and is NOT re-fetchable (rotate it if the seed is lost)'')) (\<lambda>_.
         ret (sk_id g))
     | None \<Rightarrow>
         andThen (must (''create sk group '' @ name) (CreateAccountSkGroup C accountID name True scope)) (\<lambda>created.
         if snd created = None \<or> snd created = Some []
         then log_Fatal (''sk group '' @ go_quote P name @ '' created but no seed returned '' @ emdash @ '' cannot custody it'')
         else
           (let seedPath = path_join outDir (''sk-'' @ name @ ''.seed'') in
            andThen (must_write C (''write seed '' @ seedPath) seedPath (opt_str (snd created)) mode600) (\<lambda>_.
            andThen (log_Print (''created sk group '' @ go_quote P name @ '' (id '' @ sk_id (fst created) @ ''); seed '' @
              [CHR 0xE2, CHR 0x86, CHR 0x92] @ '' '' @ seedPath)) (\<lambda>_.
            ret (sk_id (fst created)))))))"

definition ensureOnDemandSkGroup ::
  "(nat \<Rightarrow> bool) \<Rightarrow> 'w cloud \<Rightarrow> string \<Rightarrow> string \<Rightarrow> ('w, string) cmd"
where
  "ensureOnDemandSkGroup P C accountID name =
     andThen (must ''list sk groups'' (ListAccountSkGroup C accountID)) (\<lambda>existing.
     case find (\<lambda>g. sk_name g = name \<and> \<not> Programmatic g) existing of
       Some g \<Rightarrow>
         andThen (log_Print (''on-demand sk group '' @ go_quote P name @ '' exists (id '' @ sk_id g @ '')'')) (\<lambda>_.
         ret (sk_id g))
     | None \<Rightarrow>
         andThen (must (''create on-demand sk group '' @ name) (CreateAccountSkGroup C accountID name False None)) (\<lambda>created.
         andThen (log_Print (''created on-demand sk group '' @ go_quote P name @ '' (id '' @ sk_id (fst created) @ '')'')) (\<lambda>_.
         ret (sk_id (fst created)))))"

definition ensureNatsUser ::
  "(nat \<Rightarrow> bool) \<Rightarrow> 'w cloud \<Rightarrow> string \<Rightarrow> string \<Rightarrow> string \<Rightarrow> ('w, string) cmd"
where
  "ensureNatsUser P C accountID name skGroupID =
     andThen (must ''list nats users'' (ListUsers C accountID)) (\<lambda>users.
     case find (\<lambda>u. user_name u = name) users of
       Some u \<Rightarrow>
         andThen (log_Print (''nats user '' @ go_quote P name @ '' exists (id '' @ user_id u @ '')'')) (\<lambda>_.
         ret (user_id u))
     | None \<Rightarrow>
         andThen (must (''create nats user '' @ name) (CreateUser C accountID name skGroupID)) (\<lambda>created.
         andThen (log_Print (''created nats user '' @ go_quote P name @ '' (id '' @ user_id created @ '')'')) (\<lambda>_.
         ret (user_id created))))"


section \<open>Discovery\<close>

text \<open>The last system whose name contains the given one, over all teams.\<close>

definition name_contains :: "unicode \<Rightarrow> string \<Rightarrow> string \<Rightarrow> bool" where
  "name_contains U name sub = Contains (ToLower U name) (ToLower U sub)"

definition select_system ::
  "(nat \<Rightarrow> bool) \<Rightarrow> unicode \<Rightarrow> 'w cloud \<Rightarrow> string \<Rightarrow> ('w, system_view) cmd"
where
  "select_system P U C systemName =
     andThen (must ''list teams'' (ListTeams C)) (\<lambda>teams.
     andThen
       (for_each (\<lambda>team found.
          andThen (must (''list systems for team '' @ team_name team) (ListTeamSystems C (team_id team))) (\<lambda>systems.
          for_each (\<lambda>s found.
            andThen (log_Print (''team '' @ go_quote P (team_name team) @ '': system '' @ go_quote P (sys_name s) @
                '' (id '' @ sys_id s @ '')'')) (\<lambda>_.
            ret (if name_contains U (sys_name s) systemName then Some s else found))) systems found)) teams None) (\<lambda>found.
     case found of
       None \<Rightarrow> log_Fatal (''byon-setup: no system matching '' @ go_quote P systemName)
     | Some system \<Rightarrow>
         andThen (log_Print (''using system '' @ go_quote P (sys_name system) @ '' (id '' @ sys_id system @ '')'')) (\<lambda>_.
         ret system)))"

text \<open>The \<open>switch\<close> of the loop over the accounts: the app and the control account so far.\<close>

definition pick_account ::
  "unicode \<Rightarrow> string \<Rightarrow> string \<Rightarrow> account_view \<Rightarrow> account_view option \<times> account_view option \<Rightarrow>
   account_view option \<times> account_view option"
where
  "pick_account U appAccount controlName a st =
     (case st of (app, control) \<Rightarrow>
        if EqualFold U (acc_name a) controlName then (app, Some a)
        else if appAccount \<noteq> [] \<and> name_contains U (acc_name a) appAccount then (Some a, control)
        else if appAccount = [] \<and> \<not> IsSystemAccount a \<and> \<not> EqualFold U (acc_name a) controlName \<and> app = None
        then (Some a, control)
        else (app, control))"

definition select_accounts ::
  "(nat \<Rightarrow> bool) \<Rightarrow> unicode \<Rightarrow> 'w cloud \<Rightarrow> string \<Rightarrow> string \<Rightarrow> string \<Rightarrow>
   ('w, account_view \<times> account_view option) cmd"
where
  "select_accounts P U C system appAccount controlName =
     andThen (must ''list accounts'' (ListAccounts C system)) (\<lambda>accounts.
     andThen
       (for_each (\<lambda>a st.
          andThen (log_Print (''account '' @ go_quote P (acc_name a) @ '' (id '' @ acc_id a @ '', key '' @
              opt_str (AccountPublicKey a) @ '', system='' @ bool_str (IsSystemAccount a) @ '')'')) (\<lambda>_.
          ret (pick_account U appAccount controlName a st))) accounts (None, None)) (\<lambda>st.
     case st of
       (None, _) \<Rightarrow> log_Fatal ''byon-setup: no app account found (use --app-account)''
     | (Some app, control) \<Rightarrow>
         andThen (log_Print (''app account: '' @ go_quote P (acc_name app) @ '' (id '' @ acc_id app @ '')'')) (\<lambda>_.
         andThen (log_Print
           (case control of
              Some c \<Rightarrow> ''control account: '' @ go_quote P (acc_name c) @ '' (id '' @ acc_id c @ '') '' @ emdash @ '' exists''
            | None \<Rightarrow> ''control account: '' @ go_quote P controlName @ '' '' @ emdash @ '' will be created'')) (\<lambda>_.
         ret (app, control)))))"

section \<open>Applying the plan\<close>

text \<open>A call whose error is logged and tolerated.\<close>

definition tolerate :: "('w, unit) api \<Rightarrow> string \<Rightarrow> string \<Rightarrow> string \<Rightarrow> ('w, unit) cmd" where
  "tolerate f what note done_text =
     andThen (call f) (\<lambda>r.
     case r of
       Inl e \<Rightarrow> log_Print (what @ '': '' @ error_str e @ '' (continuing '' @ emdash @ '' may already be '' @ note @ '')'')
     | Inr _ \<Rightarrow> log_Print done_text)"

definition ensure_control ::
  "(nat \<Rightarrow> bool) \<Rightarrow> 'w cloud \<Rightarrow> string \<Rightarrow> string \<Rightarrow> account_view option \<Rightarrow> ('w, account_view) cmd"
where
  "ensure_control P C system controlName control =
     (case control of
        Some c \<Rightarrow> ret c
      | None \<Rightarrow>
          andThen (must ''create control account'' (CreateAccount C system controlName)) (\<lambda>created.
          andThen (log_Print (''created control account '' @ go_quote P (acc_name created) @ '' (id '' @ acc_id created @ '')'')) (\<lambda>_.
          ret created)))"

text \<open>The last callout configuration of the control account; its id is not empty.\<close>

definition find_callout :: "'w cloud \<Rightarrow> string \<Rightarrow> string \<Rightarrow> ('w, string) cmd" where
  "find_callout C system control =
     andThen (must ''list auth callout configs'' (ListAuthCalloutConfigs C system)) (\<lambda>configs.
     andThen
       (for_each (\<lambda>c calloutID.
          if ControlAccountId c = control
          then andThen (log_Print
                 (if opt_str (XkeyPublic c) \<noteq> []
                  then ''NOTE: callout xkey is set by the platform ('' @ opt_str (XkeyPublic c) @ '') '' @ emdash @
                       '' the issuer needs its seed to decrypt requests''
                  else ''callout config has no xkey '' @ emdash @ '' requests arrive unsealed (signed by the server)'')) (\<lambda>_.
               ret (callout_id c))
          else ret calloutID) configs []) (\<lambda>calloutID.
     if calloutID = []
     then log_Fatal (''byon-setup: no callout config for control account '' @ control @ '' after enable'')
     else
       andThen (call (GetAuthCallout C calloutID)) (\<lambda>view.
       andThen (log_Print
         (case view of
            Inl e \<Rightarrow> ''get auth callout ('' @ calloutID @ ''): '' @ error_str e
          | Inr (targets, users) \<Rightarrow> ''auth callout '' @ calloutID @ '': '' @ nat_str targets @ '' target account(s), '' @
              nat_str users @ '' user(s)'')) (\<lambda>_.
       ret calloutID))))"

definition issuer_creds ::
  "(nat \<Rightarrow> bool) \<Rightarrow> 'w cloud \<Rightarrow> string \<Rightarrow> string \<Rightarrow> string \<Rightarrow> ('w, string) cmd"
where
  "issuer_creds P C control calloutID outDir =
     andThen (ensureOnDemandSkGroup P C control ''auth-users'') (\<lambda>issuerSk.
     andThen (ensureNatsUser P C control ''soulstream-identity-issuer'' issuerSk) (\<lambda>issuerID.
     andThen (tolerate (AddAuthCalloutUser C calloutID issuerID) ''add callout user'' ''registered'' ''issuer registered as callout user'') (\<lambda>_.
     andThen (must ''download issuer creds'' (DownloadNatsUserCreds C issuerID)) (\<lambda>creds.
     (let credsPath = path_join outDir ''auth-issuer.creds'' in
      andThen (must_write C ''write issuer creds'' credsPath creds mode600) (\<lambda>_. ret credsPath))))))"

definition nl :: string where "nl = [CHR 0x0A]"

definition next_steps :: "string \<Rightarrow> string \<Rightarrow> string \<Rightarrow> string \<Rightarrow> string" where
  \<open>next_steps credsPath ctrlPub appPub outDir =
     nl @ ''byon-setup: done. Next (any tailnet machine; xkey seeds via soulstream-identity keygen):'' @ nl @ nl @
     ''  soulstream-identity serve --context impire-dev-platform '' @ [bslash] @ nl @
     ''    --callout-creds '' @ credsPath @ '' --auth-account '' @ ctrlPub @ '' --callout-ttl 5m'' @ nl @ nl @
     ''  soulstream-identity key import --context impire-dev-platform --as '' @ appPub @ ''/<your-user> '' @ [bslash] @ nl @
     ''    --name acme --kind nats-account-signing-key --seed-file '' @ path_join outDir ''sk-soulstream-user.seed'' @
       '' --account '' @ appPub @ nl @
     ''  soulstream-identity key import --context impire-dev-platform --as '' @ appPub @ ''/<your-user> '' @ [bslash] @ nl @
     ''    --name auth/issuer --kind nats-account-signing-key --seed-file '' @ path_join outDir ''sk-soulstream-auth-issuer.seed'' @
       '' --account '' @ ctrlPub @ nl @
     ''  soulstream-identity token create --context impire-dev-platform --as '' @ appPub @ ''/<your-user> '' @ [bslash] @ nl @
     ''    --account '' @ appPub @ '' --user daan --label "claude desktop"'' @ nl @
     ''  soulstream-identity sentinel --context impire-dev-platform --as '' @ appPub @ ''/<your-user> > sentinel.creds'' @ nl\<close>

definition apply_plan ::
  "(nat \<Rightarrow> bool) \<Rightarrow> 'w cloud \<Rightarrow> string \<Rightarrow> account_view \<Rightarrow> account_view option \<Rightarrow> string \<Rightarrow> string \<Rightarrow> ('w, unit) cmd"
where
  "apply_plan P C system app control0 controlName outDir =
     andThen (must (''mkdir '' @ outDir) (MkdirAll C outDir mode700)) (\<lambda>_.
     andThen (ensure_control P C system controlName control0) (\<lambda>control.
     andThen (ensureSkGroup P C (acc_id app) ''soulstream-user'' (Some userScope) outDir) (\<lambda>appSk.
     andThen (ensureSkGroup P C (acc_id control) ''soulstream-auth-issuer'' None outDir) (\<lambda>ctrlSk.
     andThen (tolerate (EnableAuthCallout C system (acc_id control)) ''enable auth callout'' ''enabled'' ''auth callout enabled'') (\<lambda>_.
     andThen (find_callout C system (acc_id control)) (\<lambda>calloutID.
     andThen (tolerate (AddAuthCalloutTargetAccount C calloutID (acc_id app) appSk ctrlSk) ''add target account'' ''configured''
        (''target account wired: app sk-group '' @ appSk @ '', control sk-group '' @ ctrlSk)) (\<lambda>_.
     andThen (issuer_creds P C (acc_id control) calloutID outDir) (\<lambda>credsPath.
     emit (Stdout (next_steps credsPath (opt_str (AccountPublicKey control)) (opt_str (AccountPublicKey app)) outDir))))))))))"

section \<open>The command\<close>

definition byon_kinds :: "string \<Rightarrow> flag_kind option" where
  "byon_kinds n =
     (if n = ''apply'' then Some BoolFlag
      else if n \<in> {''base-url'', ''system'', ''app-account'', ''control-account'', ''out''} then Some StringFlag
      else None)"

definition byon_defaults :: flag_values where
  "byon_defaults n =
     (if n = ''base-url'' then ''https://cloud.synadia.com''
      else if n = ''control-account'' then ''AUTH''
      else if n = ''out'' then ''byon-secrets''
      else if n = ''apply'' then ''false'' else [])"

definition plan_text :: string where
  "plan_text =
     ''plan: 1) ensure control account  2) programmatic scoped sk group on app + sk group on control (seeds '' @
     [CHR 0xE2, CHR 0x86, CHR 0x92] @
     '' --out)  3) enable callout  4) add target account  5) issuer user + callout user + creds. Re-run with --apply.''"

text \<open>\<open>main\<close> after the flags are parsed: the client is the cloud at a base URL with an access token.\<close>

definition run_setup ::
  "(nat \<Rightarrow> bool) \<Rightarrow> unicode \<Rightarrow> 'w cloud \<Rightarrow> string \<Rightarrow> flag_values \<Rightarrow> ('w, unit) cmd"
where
  "run_setup P U C pat vs =
     (if pat = []
      then log_Fatal (''byon-setup: SYNADIA_PAT is required (mint one at '' @ vs ''base-url'' @ ''/profile/personal-access-tokens)'')
      else if vs ''system'' = [] then log_Fatal ''byon-setup: --system is required''
      else
        andThen (select_system P U C (vs ''system'')) (\<lambda>system.
        andThen (select_accounts P U C (sys_id system) (vs ''app-account'') (vs ''control-account'')) (\<lambda>accs.
        if vs ''apply'' \<noteq> ''true'' then log_Print plan_text
        else apply_plan P C (sys_id system) (fst accs) (snd accs) (vs ''control-account'') (vs ''out''))))"

definition byon_setup ::
  "(nat \<Rightarrow> bool) \<Rightarrow> unicode \<Rightarrow> (string \<Rightarrow> string \<Rightarrow> 'w cloud) \<Rightarrow> (string \<Rightarrow> string option) \<Rightarrow> string list \<Rightarrow> ('w, unit) cmd"
where
  "byon_setup P U client LookupEnv args =
     andThen (parse_or_exit byon_kinds args byon_defaults) (\<lambda>vs.
     let pat = opt_str (LookupEnv ''SYNADIA_PAT'')
     in run_setup P U (client (vs ''base-url'') pat) pat vs)"

end
