(* ===== verification/ByonProps.thy ===== *)
theory ByonProps
  imports ByonSetup
begin

text \<open>
  What \<open>byon-setup\<close> guarantees: a plan changes nothing, secrets are written for their owner only
  and exactly when the platform shows them, re-runs find what an earlier run created, and the
  accounts are chosen as the flags say.
\<close>

section \<open>Only reading, only private files\<close>

text \<open>The files that a command adds are private to their owner.\<close>

definition private_files :: "'w process \<Rightarrow> 'w process \<Rightarrow> bool" where
  "private_files p q \<longleftrightarrow> (\<exists>fs. files q = files p @ fs \<and> list_all (\<lambda>(_, _, m). m = mode600) fs)"

interpretation owned: frame private_files
proof unfold_locales
  fix p q r :: "'a process"
  show "private_files p p" by (simp add: private_files_def)
  assume "private_files p q" "private_files q r"
  then obtain fs gs where "files q = files p @ fs" "files r = files q @ gs"
    "list_all (\<lambda>(_, _, m). m = mode600) (fs @ gs)"
    by (auto simp: private_files_def)
  then show "private_files p r" unfolding private_files_def by (intro exI [of _ "fs @ gs"]) simp
qed

lemma same_world_private: "leaves same_world m \<Longrightarrow> leaves private_files m"
  unfolding leaves_def same_world_def private_files_def by simp

lemma private_call: "leaves private_files (call f)"
  by (simp add: leaves_def call_def private_files_def split: prod.splits)

lemma private_write: "leaves private_files (write_file path c mode600)"
  by (simp add: leaves_def write_file_def private_files_def)

lemmas privates = owned.leaves_all owned.leaves_for_each
  private_call private_write reads_basic [THEN same_world_private] reads_parse [THEN same_world_private]

lemma reads_fatal: "leaves same_world (fatal what r)"
  by (auto simp: fatal_def intro: reads split: sum.splits go_error.splits)

lemma reads_must: "(\<And>w. snd (f w) = w) \<Longrightarrow> leaves same_world (must what f)"
  unfolding must_def by (intro reads reads_call reads_fatal)

lemma private_fatal: "leaves private_files (fatal what r)"
  by (rule same_world_private [OF reads_fatal])

lemma private_must: "leaves private_files (must what f)"
  unfolding must_def by (intro privates private_fatal)

lemma private_must_write: "leaves private_files (must_write C what path c mode600)"
  unfolding must_write_def by (intro privates private_must)

text \<open>The cloud's listings change nothing.\<close>

definition listing_cloud :: "'w cloud \<Rightarrow> bool" where
  "listing_cloud C \<longleftrightarrow>
     (\<forall>w. snd (ListTeams C w) = w) \<and> (\<forall>t w. snd (ListTeamSystems C t w) = w) \<and>
     (\<forall>s w. snd (ListAccounts C s w) = w)"

lemma reads_select_system: "listing_cloud C \<Longrightarrow> leaves same_world (select_system P U C name)"
  unfolding select_system_def listing_cloud_def
  by (intro reads reads_must; (simp split: option.splits)?; (intro allI conjI impI reads reads_must; simp)?)

lemma reads_select_accounts: "listing_cloud C \<Longrightarrow> leaves same_world (select_accounts P U C s a c)"
  unfolding select_accounts_def listing_cloud_def
  by (intro reads reads_must; (simp split: option.splits prod.splits)?;
      (intro allI conjI impI reads reads_must; simp)?)

lemma reads_run_setup:
  "listing_cloud C \<Longrightarrow> vs ''apply'' \<noteq> ''true'' \<Longrightarrow> leaves same_world (run_setup P U C pat vs)"
  by (simp add: run_setup_def reads reads_select_system reads_select_accounts)

text \<open>
  C26: without \<open>--apply\<close> the command only discovers and prints: no call that creates, enables or
  adds anything is made and no file is written, whatever the other flags say.
\<close>

theorem plan_changes_nothing:
  assumes "\<And>url pat. listing_cloud (client url pat)"
    and "parse_flags byon_kinds args byon_defaults = Ok (vs, rest)" "vs ''apply'' \<noteq> ''true''"
    and "byon_setup P U client env args p = (r, q)"
  shows "world q = world p \<and> files q = files p"
proof -
  let ?pat = "opt_str (env ''SYNADIA_PAT'')"
  have "run_setup P U (client (vs ''base-url'') ?pat) ?pat vs p = (r, q)"
    using assms(2,4) by (simp add: byon_setup_def parse_or_exit_def andThen_def ret_def Let_def)
  then show ?thesis
    using leavesD [OF reads_run_setup [where vs = vs]] assms(1,3) by (fastforce simp: same_world_def)
qed

section \<open>Secrets on disk\<close>

lemma must_Ok: "must what f p = (Ok a, q) \<longleftrightarrow> (\<exists>w. f (world p) = (Inr a, w) \<and> q = p\<lparr>world := w\<rparr>)"
  by (auto simp: must_def andThen_def call_def fatal_def cmd_simps split: prod.splits sum.splits go_error.splits)

lemma must_write_Ok:
  "must_write C what path c m p = (Ok u, q) \<longleftrightarrow>
     (\<exists>w. WriteFile C path c m (world p) = (Inr (), w) \<and> q = p\<lparr>world := w, files := files p @ [(path, c, m)]\<rparr>)"
  by (auto simp: must_write_def andThen_Ok must_Ok cmd_simps)

lemmas runs_Ok = andThen_Ok must_Ok must_write_Ok log_then ret_Ok

lemmas privates_all = privates private_must private_must_write

lemma private_ensure:
  "leaves private_files (ensureSkGroup P C a n s out)"
  "leaves private_files (ensureOnDemandSkGroup P C a n)"
  "leaves private_files (ensureNatsUser P C a n sk)"
  unfolding ensureSkGroup_def ensureOnDemandSkGroup_def ensureNatsUser_def Let_def
  by (intro privates_all)+

lemma private_apply: "leaves private_files (apply_plan P C s app ctl cn out)"
  unfolding apply_plan_def ensure_control_def tolerate_def find_callout_def issuer_creds_def Let_def
  by (intro privates_all private_ensure)+

lemma private_run_setup: "leaves private_files (run_setup P U C pat vs)"
  unfolding run_setup_def select_system_def select_accounts_def
  by (intro privates_all private_apply)+


text \<open>
  Custody of a programmatic key. \<open>ensureSkGroup\<close> returns an id in two cases only: the group
  existed, and then nothing is created or written; or it created the group, the platform showed a
  seed, and that seed is on disk as \<open>sk-<name>.seed\<close> in the output directory.
\<close>

lemma seed_in_custody:
  assumes "ensureSkGroup P C acc name scope out p = (Ok i, q)"
  shows "\<exists>gs w. ListAccountSkGroup C acc (world p) = (Inr gs, w) \<and>
    (case find (\<lambda>g. sk_name g = name) gs of
       Some g \<Rightarrow> i = sk_id g \<and> world q = w \<and> files q = files p
     | None \<Rightarrow> (\<exists>g seed w' w''. CreateAccountSkGroup C acc name True scope w = (Inr (g, Some seed), w') \<and> seed \<noteq> [] \<and>
         i = sk_id g \<and> WriteFile C (path_join out (''sk-'' @ name @ ''.seed'')) seed mode600 w' = (Inr (), w'') \<and>
         world q = w'' \<and> files q = files p @ [(path_join out (''sk-'' @ name @ ''.seed''), seed, mode600)]))"
proof -
  obtain gs w where l: "ListAccountSkGroup C acc (world p) = (Inr gs, w)"
    using assms by (auto simp: ensureSkGroup_def runs_Ok)
  show ?thesis
  proof (cases "find (\<lambda>g. sk_name g = name) gs")
    case None
    then show ?thesis using assms l
      by (auto simp: ensureSkGroup_def runs_Ok cmd_runs(5) opt_str_def Let_def split: if_splits)
  next
    case (Some g)
    then show ?thesis using assms l by (auto simp: ensureSkGroup_def runs_Ok)
  qed
qed

section \<open>Running it again\<close>

text \<open>
  What the cloud documents of signing key groups: listing reads, a created group has the name and
  kind it was asked for and is listed from then on, and writing a file is not the cloud's business.
\<close>

definition groups :: "'w cloud \<Rightarrow> string \<Rightarrow> 'w \<Rightarrow> sk_group list option" where
  "groups C acc w = (case ListAccountSkGroup C acc w of (Inr gs, _) \<Rightarrow> Some gs | _ \<Rightarrow> None)"

definition group_cloud :: "'w cloud \<Rightarrow> string \<Rightarrow> bool" where
  "group_cloud C acc \<longleftrightarrow>
     (\<forall>w. snd (ListAccountSkGroup C acc w) = w) \<and>
     (\<forall>w n prog sc g s w' gs. CreateAccountSkGroup C acc n prog sc w = (Inr (g, s), w') \<longrightarrow> groups C acc w = Some gs \<longrightarrow>
        sk_name g = n \<and> Programmatic g = prog \<and> groups C acc w' = Some (gs @ [g])) \<and>
     (\<forall>w f c m r w'. WriteFile C f c m w = (r, w') \<longrightarrow> groups C acc w' = groups C acc w)"

lemma listed: "group_cloud C acc \<Longrightarrow> groups C acc w = Some gs \<Longrightarrow> ListAccountSkGroup C acc w = (Inr gs, w)"
proof -
  assume g: "group_cloud C acc" "groups C acc w = Some gs"
  then have "snd (ListAccountSkGroup C acc w) = w" by (simp add: group_cloud_def)
  then show ?thesis using g(2) by (cases "ListAccountSkGroup C acc w") (auto simp: groups_def split: sum.splits)
qed

lemma find_snoc: "find P xs = None \<Longrightarrow> P x \<Longrightarrow> find P (xs @ [x]) = Some x"
  by (induction xs) (auto split: if_splits)

text \<open>After a run that succeeded, the group is the one found by name.\<close>

lemma ensured:
  assumes "group_cloud C acc" "ensureSkGroup P C acc name scope out p = (Ok i, q)"
  shows "\<exists>gs g. groups C acc (world q) = Some gs \<and> find (\<lambda>g. sk_name g = name) gs = Some g \<and> sk_id g = i"
proof -
  obtain gs w where l: "ListAccountSkGroup C acc (world p) = (Inr gs, w)"
    using assms(2) by (auto simp: ensureSkGroup_def runs_Ok)
  then have w: "w = world p" "groups C acc (world p) = Some gs"
    using assms(1) by (auto simp: group_cloud_def groups_def) (metis snd_conv)
  show ?thesis
  proof (cases "find (\<lambda>g. sk_name g = name) gs")
    case (Some g)
    then show ?thesis using assms(2) l w by (auto simp: ensureSkGroup_def runs_Ok)
  next
    case None
    then obtain g s w' w'' where c: "CreateAccountSkGroup C acc name True scope (world p) = (Inr (g, Some s), w')"
      "i = sk_id g" "WriteFile C (path_join out (''sk-'' @ name @ ''.seed'')) s mode600 w' = (Inr (), w'')"
      "world q = w''"
      using seed_in_custody [OF assms(2)] l w(1) by auto
    have "sk_name g = name" "groups C acc w' = Some (gs @ [g])"
      using assms(1) c(1) w(2) unfolding group_cloud_def by blast+
    moreover have "groups C acc w'' = groups C acc w'"
      using assms(1) c(3) unfolding group_cloud_def by blast
    ultimately show ?thesis using None c(2,4) find_snoc [of "\<lambda>g. sk_name g = name" gs g] by simp
  qed
qed

text \<open>
  C28: re-runs reuse: after \<open>ensureSkGroup\<close> succeeded, running it again returns the same id,
  creates no group and writes no file, whatever scope and directory the second run names.
\<close>

theorem ensure_is_idempotent:
  assumes "group_cloud C acc" "ensureSkGroup P C acc name scope out p = (Ok i, q)"
  shows "\<exists>q'. ensureSkGroup P C acc name scope' out' q = (Ok i, q') \<and> world q' = world q \<and> files q' = files q"
proof -
  obtain gs g where g: "groups C acc (world q) = Some gs" "find (\<lambda>g. sk_name g = name) gs = Some g" "sk_id g = i"
    using ensured [OF assms] by blast
  have "ListAccountSkGroup C acc (world q) = (Inr gs, world q)" by (rule listed [OF assms(1) g(1)])
  then have "must ''list sk groups'' (ListAccountSkGroup C acc) q = (Ok gs, q)"
    by (simp add: must_Ok)
  then show ?thesis using g(2,3) by (simp add: ensureSkGroup_def andThen_def cmd_simps)
qed

section \<open>Which accounts\<close>

lemma for_each_logged:
  "for_each (\<lambda>x s. andThen (log_Print (t x)) (\<lambda>_. ret (f x s))) xs s p = (r, q) \<Longrightarrow>
   r = Ok (fold f xs s) \<and> world q = world p \<and> files q = files p"
  by (induction xs arbitrary: s p) (auto simp: andThen_def cmd_simps)

text \<open>The choice as the flags describe it, over the whole list.\<close>

definition app_account :: "unicode \<Rightarrow> string \<Rightarrow> string \<Rightarrow> account_view list \<Rightarrow> account_view option" where
  "app_account U appAccount controlName accs =
     (if appAccount = [] then find (\<lambda>a. \<not> IsSystemAccount a \<and> \<not> EqualFold U (acc_name a) controlName) accs
      else find (\<lambda>a. \<not> EqualFold U (acc_name a) controlName \<and> name_contains U (acc_name a) appAccount) (rev accs))"

definition control_account :: "unicode \<Rightarrow> string \<Rightarrow> account_view list \<Rightarrow> account_view option" where
  "control_account U controlName accs = find (\<lambda>a. EqualFold U (acc_name a) controlName) (rev accs)"

lemma find_append: "find P (xs @ ys) = (case find P xs of Some x \<Rightarrow> Some x | None \<Rightarrow> find P ys)"
  by (induction xs) auto

lemma pick_accounts:
  "fold (pick_account U n c) accs (None, None) = (app_account U n c accs, control_account U c accs)"
proof (induction accs rule: rev_induct)
  case (snoc a accs)
  then show ?case
    by (auto simp: pick_account_def app_account_def control_account_def find_append split: option.splits)
qed (simp add: app_account_def control_account_def)

text \<open>
  C29: the accounts that are wired: the control account is the last whose name equals the flag up to
  case; the app account is the last other one whose name contains \<open>--app-account\<close>, or without that
  flag the first that is neither the control account nor a system account. A control account is
  never taken for the app account.
\<close>

theorem accounts_selected:
  assumes "select_accounts P U C sys appAccount controlName p = (Ok (app, control), q)"
  shows "\<exists>accs w. ListAccounts C sys (world p) = (Inr accs, w) \<and> world q = w \<and>
    app_account U appAccount controlName accs = Some app \<and> control_account U controlName accs = control \<and>
    \<not> EqualFold U (acc_name app) controlName"
proof -
  obtain accs w st p' where l: "ListAccounts C sys (world p) = (Inr accs, w)"
    "for_each (\<lambda>a st. andThen (log_Print (''account '' @ go_quote P (acc_name a) @ '' (id '' @ acc_id a @ '', key '' @
              opt_str (AccountPublicKey a) @ '', system='' @ bool_str (IsSystemAccount a) @ '')''))
          (\<lambda>_. ret (pick_account U appAccount controlName a st))) accs (None, None) (p\<lparr>world := w\<rparr>) = (Ok st, p')"
    "st = (Some app, control)" "world q = world p'"
    using assms by (auto simp: select_accounts_def runs_Ok cmd_runs(5) split: prod.splits option.splits)
  have "st = (app_account U appAccount controlName accs, control_account U controlName accs)" "world p' = w"
    using for_each_logged [OF l(2)] by (simp_all add: pick_accounts)
  moreover have "\<not> EqualFold U (acc_name a) controlName" if "app_account U appAccount controlName accs = Some a" for a
    using that by (auto simp: app_account_def find_Some_iff split: if_splits)
  ultimately show ?thesis using l by auto
qed

section \<open>A cloud to run against\<close>

text \<open>
  An account with one app account and the signing key groups created in it.
\<close>

definition ex_app :: account_view where
  "ex_app = \<lparr>acc_id = ''1'', acc_name = ''Team'', AccountPublicKey = Some ''A1'', IsSystemAccount = False\<rparr>"

definition ex_auth :: account_view where
  "ex_auth = \<lparr>acc_id = ''2'', acc_name = ''Auth'', AccountPublicKey = Some ''A2'', IsSystemAccount = False\<rparr>"

definition ex_cloud :: "sk_group list cloud" where
  "ex_cloud =
     \<lparr>ListTeams = (\<lambda>w. (Inr [\<lparr>team_id = ''t'', team_name = ''T''\<rparr>], w)),
      ListTeamSystems = (\<lambda>_ w. (Inr [\<lparr>sys_id = ''s'', sys_name = ''Dev-Impire''\<rparr>], w)),
      ListAccounts = (\<lambda>_ w. (Inr [ex_auth, ex_app], w)),
      CreateAccount = (\<lambda>_ _ w. (Inl (PlainError ''exists''), w)),
      ListAccountSkGroup = (\<lambda>_ w. (Inr w, w)),
      CreateAccountSkGroup = (\<lambda>_ n prog _ w.
        let g = \<lparr>sk_id = ''id-'' @ n, sk_name = n, Programmatic = prog\<rparr> in (Inr (g, Some ''SEED''), w @ [g])),
      EnableAuthCallout = (\<lambda>_ _ w. (Inr (), w)), ListAuthCalloutConfigs = (\<lambda>_ w. (Inr [], w)),
      GetAuthCallout = (\<lambda>_ w. (Inr (0, 0), w)), AddAuthCalloutTargetAccount = (\<lambda>_ _ _ _ w. (Inr (), w)),
      AddAuthCalloutUser = (\<lambda>_ _ w. (Inr (), w)), ListUsers = (\<lambda>_ w. (Inr [], w)),
      CreateUser = (\<lambda>_ n _ w. (Inr \<lparr>user_id = n, user_name = n\<rparr>, w)),
      DownloadNatsUserCreds = (\<lambda>_ w. (Inr ''CREDS'', w)),
      MkdirAll = (\<lambda>_ _ w. (Inr (), w)), WriteFile = (\<lambda>_ _ _ w. (Inr (), w))\<rparr>"

definition ex_unicode :: unicode where
  "ex_unicode = \<lparr>toLower = id, equalFold = (=)\<rparr>"

abbreviation ex_process :: "sk_group list process" where
  "ex_process \<equiv> \<lparr>world = [], printed = [], files = []\<rparr>"

lemma ex_listing: "listing_cloud ex_cloud"
  by (simp add: listing_cloud_def ex_cloud_def)

lemma ex_groups: "group_cloud ex_cloud acc"
  by (auto simp: group_cloud_def groups_def ex_cloud_def Let_def)

theorem plan_changes_nothing_witness:
  "\<exists>r q. byon_setup (\<lambda>_. True) ex_unicode (\<lambda>_ _. ex_cloud) (\<lambda>_. Some ''pat'') [''--system=dev''] ex_process = (r, q) \<and>
     world q = [] \<and> files q = []"
proof -
  obtain r q where run: "byon_setup (\<lambda>_. True) ex_unicode (\<lambda>_ _. ex_cloud) (\<lambda>_. Some ''pat'') [''--system=dev''] ex_process = (r, q)"
    by fastforce
  have args: "parse_flags byon_kinds [''--system=dev''] byon_defaults = Ok (byon_defaults(''system'' := ''dev''), [])"
    using parse_eq_form [of "''system''" byon_kinds "''dev''" "[]" byon_defaults]
    by (simp add: eq_form_def flag_name_def byon_kinds_def)
  show ?thesis
    using plan_changes_nothing [OF ex_listing args _ run] run by (simp add: byon_defaults_def)
qed

lemma ex_ensure:
  "\<exists>q. ensureSkGroup (\<lambda>_. True) ex_cloud ''1'' ''soulstream-user'' (Some userScope) ''out'' ex_process =
     (Ok ''id-soulstream-user'', q)"
  by (simp add: ensureSkGroup_def andThen_def must_def call_def fatal_def must_write_def cmd_simps ex_cloud_def Let_def)

theorem ensure_is_idempotent_witness:
  "\<exists>q q'. ensureSkGroup (\<lambda>_. True) ex_cloud ''1'' ''soulstream-user'' (Some userScope) ''out'' ex_process =
       (Ok ''id-soulstream-user'', q) \<and>
     ensureSkGroup (\<lambda>_. True) ex_cloud ''1'' ''soulstream-user'' None ''out'' q = (Ok ''id-soulstream-user'', q') \<and>
     world q' = world q \<and> files q' = files q"
proof -
  obtain q where run: "ensureSkGroup (\<lambda>_. True) ex_cloud ''1'' ''soulstream-user'' (Some userScope) ''out'' ex_process =
      (Ok ''id-soulstream-user'', q)"
    using ex_ensure by blast
  then show ?thesis using ensure_is_idempotent [OF ex_groups run, of None "''out''"] by blast
qed

theorem accounts_selected_witness:
  "\<exists>q. select_accounts (\<lambda>_. True) ex_unicode ex_cloud ''s'' [] ''AUTH'' ex_process = (Ok (ex_app, Some ex_auth), q) \<and>
     \<not> EqualFold ex_unicode (acc_name ex_app) ''AUTH''"
proof -
  have "EqualFold ex_unicode ''Auth'' ''AUTH''" "\<not> EqualFold ex_unicode ''Team'' ''AUTH''" by code_simp+
  then have "\<exists>q. select_accounts (\<lambda>_. True) ex_unicode ex_cloud ''s'' [] ''AUTH'' ex_process = (Ok (ex_app, Some ex_auth), q)"
    by (simp add: select_accounts_def andThen_def must_def call_def fatal_def cmd_simps ex_cloud_def
        pick_account_def ex_app_def ex_auth_def)
  then obtain q where run: "select_accounts (\<lambda>_. True) ex_unicode ex_cloud ''s'' [] ''AUTH'' ex_process =
      (Ok (ex_app, Some ex_auth), q)"
    by blast
  then show ?thesis using accounts_selected [OF run] by blast
qed

end
