(* ===== verification/Probe.thy ===== *)
theory Probe
  imports GoMain GoHttp
begin

text \<open>
  \<open>cmd/probe/main.go\<close>: the operator's measurement of a live node. It runs the tools as a hosted
  client would, then reads the topic back through its own connection and checks who authored and
  signed it. The node, the realm and the identity plane are a record of operations on a world.
\<close>

section \<open>strings.TrimSpace\<close>

text \<open>The encodings of the runes of \<open>unicode.IsSpace\<close>.\<close>

definition space_encs :: "string list" where
  "space_encs = map utf8_enc
     ([9, 10, 11, 12, 13, 32, 133, 160, 5760, 8192, 8193, 8194, 8195, 8196, 8197, 8198, 8199, 8200, 8201, 8202,
       8232, 8233, 8239, 8287, 12288])"

function trim_left :: "string list \<Rightarrow> string \<Rightarrow> string" where
  "trim_left encs s =
     (case find (\<lambda>e. e \<noteq> [] \<and> HasPrefix s e) encs of
        None \<Rightarrow> s
      | Some e \<Rightarrow> trim_left encs (drop (length e) s))"
  by auto
termination
proof (relation "measure (\<lambda>(_, s). length s)")
  fix encs s e
  assume "find (\<lambda>e. e \<noteq> [] \<and> HasPrefix s e) encs = Some e"
  then have "e \<noteq> []" "HasPrefix s e" by (auto simp: find_Some_iff)
  then show "((encs, drop (length e) s), encs, s) \<in> measure (\<lambda>(_, s). length s)"
    by (auto simp: HasPrefix_iff)
qed simp

declare trim_left.simps [simp del]

definition TrimSpace :: "string \<Rightarrow> string" where
  "TrimSpace s = rev (trim_left (map rev space_encs) (rev (trim_left space_encs s)))"

section \<open>The world\<close>

datatype content = TextContent string | OtherContent string

record tool_result =
  IsError :: bool
  Content :: "content list"

record contribution =
  Author :: string
  CSig :: string

record topic_view =
  Announcement :: "string option"            \<comment> \<open>the signature status of the announcement\<close>
  Contributions :: "contribution list"

text \<open>
  \<open>SigVerified\<close> and \<open>SigUnknownKey\<close> are constants of the realm's package; the texts in which
  values of other packages are printed are functions of the record too.
\<close>

record 'w live =
  ReadFile :: "string \<Rightarrow> 'w \<Rightarrow> (string + string) \<times> 'w"
  Initialize :: "string \<Rightarrow> (header \<Rightarrow> header) \<Rightarrow> 'w \<Rightarrow> (string + unit) \<times> 'w"
  ListTools :: "'w \<Rightarrow> (string + string list) \<times> 'w"
  CallTool :: "string \<Rightarrow> (string \<times> string) list \<Rightarrow> 'w \<Rightarrow> (string + tool_result) \<times> 'w"
  ReaderConnect :: "string \<Rightarrow> 'w \<Rightarrow> (string + unit) \<times> 'w"
  ReaderRealm :: "string \<Rightarrow> 'w \<Rightarrow> (string + unit) \<times> 'w"
  Materialise :: "string \<Rightarrow> (string \<times> string list) list \<Rightarrow> 'w \<Rightarrow> (string + topic_view) \<times> 'w"
  PersonaPublicKey :: "string \<Rightarrow> string \<Rightarrow> string \<Rightarrow> 'w \<Rightarrow> (string + string) \<times> 'w"
  CloseAll :: "'w \<Rightarrow> 'w"
  SigVerified :: string
  SigUnknownKey :: string
  JsonError :: "string \<Rightarrow> string"
  ShowContent :: "content list \<Rightarrow> string"
  TypeName :: "content \<Rightarrow> string"
  ShowAnnouncement :: "string option \<Rightarrow> string"

text \<open>\<open>bearerRT\<close>: every request of the client carries the bearer.\<close>

definition RoundTrip :: "string \<Rightarrow> header \<Rightarrow> header" where
  "RoundTrip token h = Set ''Authorization'' (''Bearer '' @ token) h"

definition fatal_err :: "string \<Rightarrow> string + 'a \<Rightarrow> ('w, 'a) cmd" where
  "fatal_err what r = (case r of Inr a \<Rightarrow> ret a | Inl e \<Rightarrow> log_Fatal (''probe: '' @ what @ '': '' @ e))"

definition demand :: "string \<Rightarrow> ('w \<Rightarrow> (string + 'a) \<times> 'w) \<Rightarrow> ('w, 'a) cmd" where
  "demand what f = andThen (call f) (fatal_err what)"

text \<open>The first content of a tool's answer; an answer without content panics.\<close>

definition callText :: "'w live \<Rightarrow> string \<Rightarrow> (string \<times> string) list \<Rightarrow> ('w, string) cmd" where
  "callText L tool args =
     andThen (demand (''call '' @ tool) (CallTool L tool args)) (\<lambda>res.
     if IsError res then log_Fatal (''probe: '' @ tool @ '' returned tool error: '' @ ShowContent L (Content res))
     else
       (case Content res of
          [] \<Rightarrow> (\<lambda>p. (Panic, p))
        | TextContent t # _ \<Rightarrow> ret t
        | c # _ \<Rightarrow> log_Fatal (''probe: '' @ tool @ '': not text: '' @ TypeName L c)))"

record whoami =
  WPersona :: string
  WRealm :: string

definition unmarshal_who :: "string \<Rightarrow> whoami option" where
  "unmarshal_who t =
     (case parse_json t of
        None \<Rightarrow> None
      | Some v \<Rightarrow>
         (case dec_struct (\<lambda>k w x.
                 if field_matches ''persona'' k then (case dec_string w (WPersona x) of (s, ok) \<Rightarrow> (x\<lparr>WPersona := s\<rparr>, ok))
                 else if field_matches ''realm'' k then (case dec_string w (WRealm x) of (s, ok) \<Rightarrow> (x\<lparr>WRealm := s\<rparr>, ok))
                 else (x, True)) v \<lparr>WPersona = [], WRealm = []\<rparr> of
            (x, True) \<Rightarrow> Some x
          | (_, False) \<Rightarrow> None))"

section \<open>The pass protocol\<close>

text \<open>From \<open>initialize\<close> to \<open>post_turn\<close>; the topic's path is the result.\<close>

definition pass_protocol ::
  "(nat \<Rightarrow> bool) \<Rightarrow> 'w live \<Rightarrow> string \<Rightarrow> string \<Rightarrow> string \<Rightarrow> ('w, string) cmd"
where
  "pass_protocol P L nodeURL bearer persona =
     andThen (demand ''initialize'' (Initialize L nodeURL (RoundTrip bearer))) (\<lambda>_.
     andThen (log_Print ''initialize: OK (session formed through callout admission)'') (\<lambda>_.
     andThen (demand ''tools/list'' (ListTools L)) (\<lambda>names.
     andThen (log_Print (''tools/list: '' @ nat_str (length names) @ '' tools'')) (\<lambda>_.
     andThen (callText L ''soulstream_whoami'' []) (\<lambda>wt.
     (case unmarshal_who wt of
        None \<Rightarrow> log_Fatal (''probe: whoami decode: '' @ JsonError L wt)
      | Some who \<Rightarrow>
          andThen (log_Print (''whoami: persona='' @ go_quote P (WPersona who) @ '' realm='' @ go_quote P (WRealm who))) (\<lambda>_.
          if WPersona who \<noteq> persona
          then log_Fatal (''probe: whoami persona '' @ go_quote P (WPersona who) @ '' does not match expected '' @ go_quote P persona)
          else
            andThen (callText L ''soulstream_board'' []) (\<lambda>_.
            andThen (log_Print ''board: OK'') (\<lambda>_.
            andThen (callText L ''soulstream_start_topic''
              [(''name'', ''byon-proof''), (''subject_matter'', ''the live callout-admission measurement'')]) (\<lambda>pt.
            let path = TrimSpace pt in
            andThen (log_Print (''start_topic: '' @ path)) (\<lambda>_.
            andThen (callText L ''soulstream_post_turn''
              [(''path'', path),
               (''body'', ''posted through the node, admitted by callout, signed in the vault '' @
                  [CHR 0xE2, CHR 0x80, CHR 0x94] @ '' live'')]) (\<lambda>opID.
            andThen (log_Print (''post_turn: '' @ opID)) (\<lambda>_.
            ret path)))))))))))))"

section \<open>The independent reader\<close>

text \<open>The loop over the contributions, with its index.\<close>

fun check_contributions ::
  "(nat \<Rightarrow> bool) \<Rightarrow> 'w live \<Rightarrow> string \<Rightarrow> nat \<Rightarrow> contribution list \<Rightarrow> ('w, unit) cmd"
where
  "check_contributions P L persona i [] = ret ()"
| "check_contributions P L persona i (c # cs) =
     (if Author c \<noteq> persona
      then log_Fatal (''probe: contribution '' @ nat_str i @ '' authored '' @ go_quote P (Author c) @ '', want '' @ go_quote P persona)
      else if CSig c \<noteq> SigVerified L
      then log_Fatal (''probe: contribution '' @ nat_str i @ '' sig '' @ CSig c)
      else check_contributions P L persona (Suc i) cs)"

definition verify ::
  "(nat \<Rightarrow> bool) \<Rightarrow> 'w live \<Rightarrow> flag_values \<Rightarrow> string \<Rightarrow> ('w, unit) cmd"
where
  "verify P L vs path =
     andThen (demand ''reader connect'' (ReaderConnect L (vs ''context''))) (\<lambda>_.
     andThen (demand ''reader realm client'' (ReaderRealm L (vs ''realm''))) (\<lambda>_.
     andThen (demand ''materialise (no keyring)'' (Materialise L path [])) (\<lambda>bare.
     if Announcement bare \<noteq> Some (SigUnknownKey L)
     then log_Fatal (''probe: negative control failed: announcement sig '' @ ShowAnnouncement L (Announcement bare))
     else
       andThen (log_Print ''negative control: unknown-key without a keyring'') (\<lambda>_.
       andThen (demand ''keys.public'' (PersonaPublicKey L (vs ''account'') (vs ''as-user'') (vs ''persona''))) (\<lambda>pub.
       andThen (demand ''materialise'' (Materialise L path [(vs ''persona'', [pub])])) (\<lambda>mt.
       if Announcement mt \<noteq> Some (SigVerified L)
       then log_Fatal (''probe: announcement not verified: '' @ ShowAnnouncement L (Announcement mt))
       else
         andThen (check_contributions P L (vs ''persona'') 0 (Contributions mt)) (\<lambda>_.
         emit (Stdout ([CHR 0x0A] @ ''PASS: '' @ nat_str (length (Contributions mt) + 1) @ '' op(s) on '' @ path @
           '' authored by '' @ go_quote P (vs ''persona'') @ '', SigVerified from one keys.public answer '' @
           [CHR 0xE2, CHR 0x80, CHR 0x94] @ '' callout admission works on this deployment class.'')))))))))"

section \<open>The command\<close>

definition probe_kinds :: "string \<Rightarrow> flag_kind option" where
  "probe_kinds n =
     (if n \<in> {''node'', ''bearer-file'', ''realm'', ''context'', ''account'', ''as-user'', ''persona''}
      then Some StringFlag else None)"

definition probe_defaults :: flag_values where
  "probe_defaults n =
     (if n = ''node'' then ''http://127.0.0.1:8080'' else if n = ''realm'' then ''proof''
      else if n = ''as-user'' then ''daan'' else if n = ''persona'' then ''daan'' else [])"

text \<open>\<open>main\<close> after the flags are parsed; the deferred closes run only when it returns.\<close>

definition probe_run :: "(nat \<Rightarrow> bool) \<Rightarrow> 'w live \<Rightarrow> flag_values \<Rightarrow> ('w, unit) cmd" where
  "probe_run P L vs =
     (if vs ''bearer-file'' = [] then log_Fatal ''probe: --bearer-file is required''
      else if vs ''context'' = [] then log_Fatal ''probe: --context is required (the independent reader's NATS context)''
      else if vs ''account'' = [] then log_Fatal ''probe: --account is required''
      else
        andThen (demand ''read bearer'' (ReadFile L (vs ''bearer-file''))) (\<lambda>raw.
        andThen (pass_protocol P L (vs ''node'') (TrimSpace raw) (vs ''persona'')) (\<lambda>path.
        andThen (verify P L vs path) (\<lambda>_.
        (\<lambda>p. (Ok (), p\<lparr>world := CloseAll L (world p)\<rparr>))))))"

definition probe_main :: "(nat \<Rightarrow> bool) \<Rightarrow> 'w live \<Rightarrow> string list \<Rightarrow> ('w, unit) cmd" where
  "probe_main P L args = andThen (parse_or_exit probe_kinds args probe_defaults) (probe_run P L)"

section \<open>What a PASS means\<close>

text \<open>Commands that print to standard error only, and commands that do so where they fail.\<close>

definition quiet_out :: "'w process \<Rightarrow> 'w process \<Rightarrow> bool" where
  "quiet_out p q \<longleftrightarrow> filter (\<lambda>l. \<exists>t. l = Stdout t) (printed q) = filter (\<lambda>l. \<exists>t. l = Stdout t) (printed p)"

interpretation quiet: frame quiet_out
  by unfold_locales (auto simp: quiet_out_def)

lemma quiet_basic:
  "leaves quiet_out (log_Print t)" "leaves quiet_out (log_Fatal t)" "leaves quiet_out (call f)"
  "leaves quiet_out (emit (FlagUsage e))" "leaves quiet_out (\<lambda>p. (Panic, p))"
  by (auto simp: leaves_def quiet_out_def cmd_simps call_def split: prod.splits)

lemma quiet_parse: "leaves quiet_out (parse_or_exit K args vs)"
  by (auto simp: parse_or_exit_def intro: quiet.leaves_all quiet_basic split: res.splits)

lemmas quiets = quiet.leaves_all quiet_basic quiet_parse

lemma quiet_demand: "leaves quiet_out (demand what f)"
  unfolding demand_def fatal_err_def by (intro quiets)

lemma quiet_callText: "leaves quiet_out (callText L tool args)"
proof -
  have "leaves quiet_out
      (case Content res of [] \<Rightarrow> (\<lambda>p. (Panic, p)) | TextContent t # _ \<Rightarrow> ret t
        | c # _ \<Rightarrow> log_Fatal (''probe: '' @ tool @ '': not text: '' @ TypeName L c))" for res
    by (auto intro: quiets split: list.splits content.splits)
  then show ?thesis unfolding callText_def by (intro quiets quiet_demand)
qed

lemma quiet_pass: "leaves quiet_out (pass_protocol P L u b pr)"
  unfolding pass_protocol_def Let_def by (intro quiets quiet_demand quiet_callText)+

lemma check_run:
  "check_contributions P L pr i cs p = (r, q) \<Longrightarrow>
     world q = world p \<and> quiet_out p q \<and>
     (r = Ok () \<and> list_all (\<lambda>c. Author c = pr \<and> CSig c = SigVerified L) cs \<or> r = Err 1)"
  by (induction cs arbitrary: i) (auto simp: cmd_simps quiet_out_def split: if_splits)

lemma demand_Ok: "demand what f p = (Ok a, q) \<longleftrightarrow> (\<exists>w. f (world p) = (Inr a, w) \<and> q = p\<lparr>world := w\<rparr>)"
  by (auto simp: demand_def andThen_def call_def fatal_err_def cmd_simps split: prod.splits sum.splits)

text \<open>A reader's check that ends well has seen what it claims.\<close>

definition verified_topic :: "'w live \<Rightarrow> flag_values \<Rightarrow> string \<Rightarrow> bool" where
  "verified_topic L vs path \<longleftrightarrow>
     (\<exists>w0 w1 w2 bare pub view.
        fst (Materialise L path [] w0) = Inr bare \<and> Announcement bare = Some (SigUnknownKey L) \<and>
        fst (PersonaPublicKey L (vs ''account'') (vs ''as-user'') (vs ''persona'') w1) = Inr pub \<and>
        fst (Materialise L path [(vs ''persona'', [pub])] w2) = Inr view \<and>
        Announcement view = Some (SigVerified L) \<and>
        list_all (\<lambda>c. Author c = vs ''persona'' \<and> CSig c = SigVerified L) (Contributions view))"

lemma demand_then:
  "andThen (demand what f) g p = (Ok b, q) \<longleftrightarrow>
     (\<exists>a w. f (world p) = (Inr a, w) \<and> g a (p\<lparr>world := w\<rparr>) = (Ok b, q))"
  by (auto simp: andThen_Ok demand_Ok)

lemma guard_Ok: "(if b then log_Fatal t else m) p = (Ok a, q) \<longleftrightarrow> \<not> b \<and> m p = (Ok a, q)"
  by (simp add: cmd_simps)

lemma check_then:
  "andThen (check_contributions P L pr i cs) g p = (Ok b, q) \<longleftrightarrow>
     list_all (\<lambda>c. Author c = pr \<and> CSig c = SigVerified L) cs \<and> g () p = (Ok b, q)"
  by (induction cs arbitrary: i) (auto simp: andThen_def cmd_simps)

lemma verify_Ok:
  assumes "verify P L vs path p = (Ok (), q)"
  shows "verified_topic L vs path"
proof -
  obtain w0 w0' bare w1 w1' pub w2 w2' view where v:
    "Materialise L path [] w0 = (Inr bare, w0')" "Announcement bare = Some (SigUnknownKey L)"
    "PersonaPublicKey L (vs ''account'') (vs ''as-user'') (vs ''persona'') w1 = (Inr pub, w1')"
    "Materialise L path [(vs ''persona'', [pub])] w2 = (Inr view, w2')" "Announcement view = Some (SigVerified L)"
    "list_all (\<lambda>c. Author c = vs ''persona'' \<and> CSig c = SigVerified L) (Contributions view)"
    using assms unfolding verify_def demand_then guard_Ok log_then check_then not_not
    by (elim exE conjE) (rule that, assumption+)
  then show ?thesis
    unfolding verified_topic_def
    by (intro exI [of _ w0] exI [of _ w1] exI [of _ w2] exI [of _ bare] exI [of _ pub] exI [of _ view]) simp
qed

text \<open>A command that leaves standard output alone whenever it does not return.\<close>

definition quiet_failure :: "('w, 'a) cmd \<Rightarrow> bool" where
  "quiet_failure m \<longleftrightarrow> (\<forall>p. \<not> is_Ok (fst (m p)) \<longrightarrow> quiet_out p (snd (m p)))"

lemma quiet_failure_leaves: "leaves quiet_out m \<Longrightarrow> quiet_failure m"
  by (simp add: leaves_def quiet_failure_def)

lemma quiet_failure_andThen:
  assumes "leaves quiet_out m" "\<And>a. quiet_failure (f a)"
  shows "quiet_failure (andThen m f)"
  unfolding quiet_failure_def
proof (intro allI impI)
  fix p assume e: "\<not> is_Ok (fst (andThen m f p))"
  obtain r q where m: "m p = (r, q)" by fastforce
  have pq: "quiet_out p q" by (rule leavesD [OF assms(1) m])
  show "quiet_out p (snd (andThen m f p))"
  proof (cases r)
    case (Ok a)
    then have "quiet_out q (snd (f a q))"
      using e assms(2) m unfolding quiet_failure_def andThen_def by simp
    then show ?thesis using Ok m pq quiet.trans by (simp add: andThen_def)
  qed (use m pq in \<open>simp_all add: andThen_def\<close>)
qed

lemma quiet_failure_if: "quiet_failure m \<Longrightarrow> quiet_failure m' \<Longrightarrow> quiet_failure (if b then m else m')"
  by simp

lemma quiet_failure_emit: "quiet_failure (emit l)"
  by (simp add: quiet_failure_def cmd_simps)

lemma quiet_check: "leaves quiet_out (check_contributions P L pr i cs)"
  by (rule leavesI) (use check_run in blast)

lemma quiet_failure_verify: "quiet_failure (verify P L vs path)"
  unfolding verify_def
  by (intro quiet_failure_andThen quiet_failure_if quiet_failure_emit quiet_failure_leaves [OF quiet_basic(2)]
      quiet_demand quiet_basic(1) quiet_check)

text \<open>
  C32: a PASS is never printed in vain. Whatever the node, the realm and the identity plane answer,
  standard output gains a line only in a run that ends with status 0, and in such a run the
  independent reader saw an unknown key without a keyring, one key from the identity plane, and with
  that key alone an announcement and contributions that are all verified and authored by the
  expected persona.
\<close>

theorem pass_is_verified:
  assumes "probe_main P L args p = (r, q)" "Stdout t \<in> set (printed q)" "Stdout t \<notin> set (printed p)"
  shows "r = Ok () \<and> (\<exists>vs rest path. parse_flags probe_kinds args probe_defaults = Ok (vs, rest) \<and> verified_topic L vs path)"
proof -
  have "Stdout t \<in> set (filter (\<lambda>l. \<exists>t. l = Stdout t) (printed q))" using assms(2) by simp
  then have loud: "\<not> quiet_out p q" using assms(3) unfolding quiet_out_def by fastforce
  have end_quiet: "quiet_failure (andThen (verify P L vs path) (\<lambda>_. (\<lambda>p. (Ok (), p\<lparr>world := CloseAll L (world p)\<rparr>))))"
    for vs path
    using quiet_failure_verify [of P L vs path]
    by (auto simp: quiet_failure_def andThen_def split: prod.splits res.splits) (metis fst_conv is_Ok.simps snd_conv)+
  have "quiet_failure (probe_run P L vs)" for vs
    unfolding probe_run_def
    by (intro quiet_failure_if quiet_failure_andThen quiet_failure_leaves [OF quiet_basic(2)] quiet_demand quiet_pass end_quiet)
  then have "quiet_failure (probe_main P L args)"
    unfolding probe_main_def by (intro quiet_failure_andThen quiet_parse)
  then have "is_Ok (fst (probe_main P L args p))"
    using loud assms(1) unfolding quiet_failure_def by (metis snd_conv)
  then have ok: "r = Ok ()" using assms(1) by (cases r) simp_all
  then obtain vs p1 where vs: "parse_or_exit probe_kinds args probe_defaults p = (Ok vs, p1)" "probe_run P L vs p1 = (Ok (), q)"
    using ok assms(1) unfolding probe_main_def by (auto simp: andThen_Ok)
  then obtain path p2 q2 where "verify P L vs path p2 = (Ok (), q2)"
    by (auto simp: probe_run_def andThen_Ok cmd_runs(5) split: if_splits)
  moreover have "\<exists>rest. parse_flags probe_kinds args probe_defaults = Ok (vs, rest)"
    using vs(1) by (auto simp: parse_or_exit_def andThen_Ok cmd_simps split: res.splits prod.splits)
  ultimately show ?thesis using ok verify_Ok by blast
qed

text \<open>A deployment that passes: the tools answer, and the topic has one contribution by \<open>daan\<close>.\<close>

definition ex_live :: "unit live" where
  \<open>ex_live =
     \<lparr>ReadFile = (\<lambda>_ w. (Inr '' sit_1 '', w)), Initialize = (\<lambda>_ _ w. (Inr (), w)), ListTools = (\<lambda>w. (Inr [''soulstream_whoami''], w)),
      CallTool = (\<lambda>t _ w. (Inr \<lparr>IsError = False, Content = [TextContent
        (if t = ''soulstream_whoami'' then ''{"persona":"daan","realm":"proof"}'' else ''t/1'')]\<rparr>, w)),
      ReaderConnect = (\<lambda>_ w. (Inr (), w)), ReaderRealm = (\<lambda>_ w. (Inr (), w)),
      Materialise = (\<lambda>_ keys w. (Inr (if keys = [] then \<lparr>Announcement = Some ''unknown'', Contributions = []\<rparr>
        else \<lparr>Announcement = Some ''verified'', Contributions = [\<lparr>Author = ''daan'', CSig = ''verified''\<rparr>]\<rparr>), w)),
      PersonaPublicKey = (\<lambda>_ _ _ w. (Inr ''K'', w)), CloseAll = id, SigVerified = ''verified'', SigUnknownKey = ''unknown'',
      JsonError = id, ShowContent = (\<lambda>_. []), TypeName = (\<lambda>_. []), ShowAnnouncement = (\<lambda>_. [])\<rparr>\<close>

definition ex_probe_line :: "(bool \<times> string \<times> string) list" where
  "ex_probe_line = [(True, ''bearer-file'', ''f''), (True, ''context'', ''c''), (False, ''account'', ''A'')]"

lemma ex_probe_flags:
  "parse_flags probe_kinds (command_line ex_probe_line) probe_defaults = Ok (assigned ex_probe_line probe_defaults, [])"
  by (rule parse_command_line) code_simp

lemma ex_probe_values:
  "assigned ex_probe_line probe_defaults ''bearer-file'' = ''f''" "assigned ex_probe_line probe_defaults ''context'' = ''c''"
  "assigned ex_probe_line probe_defaults ''account'' = ''A''" "assigned ex_probe_line probe_defaults ''persona'' = ''daan''"
  by code_simp+

lemma ex_whoami: \<open>unmarshal_who ''{"persona":"daan","realm":"proof"}'' = Some \<lparr>WPersona = ''daan'', WRealm = ''proof''\<rparr>\<close>
  by code_simp

theorem pass_is_verified_witness:
  "\<exists>q vs path. probe_main (\<lambda>_. True) ex_live (command_line ex_probe_line) \<lparr>world = (), printed = [], files = []\<rparr> = (Ok (), q) \<and>
     verified_topic ex_live vs path"
proof -
  obtain r q where run: "probe_main (\<lambda>_. True) ex_live (command_line ex_probe_line) \<lparr>world = (), printed = [], files = []\<rparr> = (r, q)"
    by fastforce
  then obtain t where t: "Stdout t \<in> set (printed q)"
    by (auto simp: probe_main_def parse_or_exit_def ex_probe_flags probe_run_def ex_probe_values pass_protocol_def verify_def
        demand_def callText_def fatal_err_def call_def andThen_def cmd_simps ex_live_def ex_whoami Let_def)
  have "r = Ok () \<and> (\<exists>vs rest path. parse_flags probe_kinds (command_line ex_probe_line) probe_defaults = Ok (vs, rest) \<and>
      verified_topic ex_live vs path)"
    by (rule pass_is_verified [OF run t]) simp
  then show ?thesis using run by blast
qed

end
