(* ===== verification/AuthServer.thy ===== *)
theory AuthServer
  imports Hint GoHttp
begin

text \<open>
  The authorization server of \<open>rigtest/asstub.go\<close> and \<open>rigtest/flow.go\<close>: discovery, JWKS with key
  rotation, client registration, the authorization-code flow with PKCE, and access tokens. SHA-256,
  RSA signatures and the parts of a public key are functions of a record, random bytes and the
  clock are arguments. Times are nanoseconds since the epoch.
\<close>

section \<open>State\<close>

record auth_code =
  oid :: string
  roles :: "string list"
  clientID :: string
  redirect :: string
  ch :: string                    \<comment> \<open>the PKCE challenge\<close>
  expires :: int

record 'k as_stub =
  URL :: string
  audience :: string
  key :: 'k
  kid :: int
  clients :: "(string, bool) fmap"
  codes :: "(string, auth_code) fmap"

record 'k crypto =
  Sum256 :: "string \<Rightarrow> string"
  SignPKCS1v15 :: "'k \<Rightarrow> string \<Rightarrow> string + string"
  ModulusBytes :: "'k \<Rightarrow> string"
  ExponentBytes :: "'k \<Rightarrow> string"

definition NewASStub :: "string \<Rightarrow> string \<Rightarrow> 'k \<Rightarrow> 'k as_stub" where
  "NewASStub url aud k = \<lparr>URL = url, audience = aud, key = k, kid = 1, clients = fmempty, codes = fmempty\<rparr>"

definition Rotate :: "'k \<Rightarrow> 'k as_stub \<Rightarrow> 'k as_stub" where
  "Rotate k s = s\<lparr>key := k, kid := kid s + 1\<rparr>"

section \<open>Tokens\<close>

definition unix :: "int \<Rightarrow> int" where "unix t = t div 1000000000"
definition minutes :: "int \<Rightarrow> int" where "minutes n = n * 60000000000"

type_synonym claim_set = "(string \<times> json) list"

definition Claims :: "'k as_stub \<Rightarrow> int \<Rightarrow> string \<Rightarrow> string list \<Rightarrow> claim_set" where
  "Claims s now person rs =
     [(''iss'', JStr (URL s)), (''aud'', JStr (audience s)), (''oid'', JStr person),
      (''sub'', JStr (''pairwise-'' @ person)), (''preferred_username'', JStr (person @ ''@stub.example'')),
      (''iat'', json_int (unix now)), (''exp'', json_int (unix (now + minutes 5)))] @
     (if rs = [] then [] else [(''roles'', json_strs rs)])"

definition signRS256 :: "'k crypto \<Rightarrow> 'k \<Rightarrow> string \<Rightarrow> claim_set \<Rightarrow> string + string" where
  "signRS256 C k kd cs =
     (let header = jenc (json_map [(''alg'', JStr ''RS256''), (''typ'', JStr ''JWT''), (''kid'', JStr kd)]);
          payload = jenc (json_map cs);
          signing = EncodeToString header @ ''.'' @ EncodeToString payload
      in case SignPKCS1v15 C k (Sum256 C signing) of
           Inl e \<Rightarrow> Inl (''sign: '' @ e)
         | Inr sig \<Rightarrow> Inr (signing @ ''.'' @ EncodeToString sig))"

definition kid_str :: "int \<Rightarrow> string" where
  "kid_str n = ''k'' @ int_str n"

definition Token :: "'k crypto \<Rightarrow> 'k as_stub \<Rightarrow> claim_set \<Rightarrow> string + string" where
  "Token C s cs = signRS256 C (key s) (kid_str (kid s)) cs"

definition TokenWrongKey :: "'k crypto \<Rightarrow> 'k \<Rightarrow> claim_set \<Rightarrow> string + string" where
  "TokenWrongKey C rogue cs = signRS256 C rogue ''rogue'' cs"

definition TokenAlgNone :: "claim_set \<Rightarrow> string" where
  "TokenAlgNone cs =
     EncodeToString (jenc (json_map [(''alg'', JStr ''none''), (''typ'', JStr ''JWT'')])) @ ''.'' @
     EncodeToString (jenc (json_map cs)) @ ''.''"

section \<open>Documents\<close>

definition discovery_doc :: "'k as_stub \<Rightarrow> json" where
  "discovery_doc s = json_map
     [(''issuer'', JStr (URL s)), (''jwks_uri'', JStr (URL s @ ''/jwks'')),
      (''authorization_endpoint'', JStr (URL s @ ''/authorize'')), (''token_endpoint'', JStr (URL s @ ''/token'')),
      (''registration_endpoint'', JStr (URL s @ ''/register'')), (''response_types_supported'', json_strs [''code'']),
      (''grant_types_supported'', json_strs [''authorization_code'']),
      (''code_challenge_methods_supported'', json_strs [''S256'']),
      (''id_token_signing_alg_values_supported'', json_strs [''RS256''])]"

definition discovery :: "'k as_stub \<Rightarrow> writer \<Rightarrow> writer" where
  "discovery s w = wrun [HeaderSet ''Content-Type'' ''application/json'', Write (encode_line (discovery_doc s))] w"

definition jwks_doc :: "'k crypto \<Rightarrow> 'k as_stub \<Rightarrow> json" where
  "jwks_doc C s = json_map [(''keys'', JArr [json_map
     [(''kty'', JStr ''RSA''), (''alg'', JStr ''RS256''), (''use'', JStr ''sig''),
      (''kid'', JStr (kid_str (kid s))), (''n'', JStr (EncodeToString (ModulusBytes C (key s)))),
      (''e'', JStr (EncodeToString (ExponentBytes C (key s))))]])]"

definition jwks :: "'k crypto \<Rightarrow> 'k as_stub \<Rightarrow> writer \<Rightarrow> writer" where
  "jwks C s w = wrun [HeaderSet ''Content-Type'' ''application/json'', Write (encode_line (jwks_doc C s))] w"

section \<open>The sign-in flow\<close>

text \<open>
  Requests as the handlers read them: the query and the posted form by the first value of a
  parameter (empty where absent), a form that does not parse as none. \<open>with_query\<close> is
  \<open>url.Parse\<close>, \<open>Query\<close>, \<open>Set\<close> and \<open>Encode\<close> of \<open>net/url\<close>, \<open>redirect_ops\<close> what \<open>http.Redirect\<close> does to
  the writer.
\<close>

record as_request =
  Method :: string
  Body :: string
  Query :: "string \<Rightarrow> string"
  PostForm :: "(string \<Rightarrow> string) option"

record net_url =
  with_query :: "string \<Rightarrow> (string \<times> string) list \<Rightarrow> string option"
  redirect_ops :: "string \<Rightarrow> nat \<Rightarrow> wop list"

definition randomToken :: "string \<Rightarrow> string" where
  "randomToken b = EncodeToString b"

text \<open>\<open>strings.Fields\<close>: the white space of \<open>unicode.IsSpace\<close> separates.\<close>

definition blank_runes :: "string list" where
  "blank_runes = map utf8_enc
     ([9, 10, 11, 12, 13, 32, 133, 160, 5760, 8192, 8193, 8194, 8195, 8196, 8197, 8198, 8199, 8200, 8201, 8202,
       8232, 8233, 8239, 8287, 12288])"

function to_blanks :: "string \<Rightarrow> string" where
  "to_blanks [] = []"
| "to_blanks (c # cs) =
     (case find (HasPrefix (c # cs)) blank_runes of
        Some e \<Rightarrow> CHR '' '' # to_blanks (drop (length e - 1) cs)
      | None \<Rightarrow> c # to_blanks cs)"
  by pat_completeness auto
termination by (relation "measure length") auto

definition Fields :: "string \<Rightarrow> string list" where
  "Fields s = filter (\<lambda>f. f \<noteq> []) (Split (to_blanks s) (CHR '' ''))"

text \<open>The registration's body: the first JSON value of the stream.\<close>

definition decode_redirects :: "string \<Rightarrow> string list option" where
  "decode_redirects body =
     (case jval (2 * length body + 1) 0 body of
        None \<Rightarrow> None
      | Some (v, _) \<Rightarrow>
         (case dec_struct (\<lambda>k w l. if field_matches ''redirect_uris'' k then dec_strings w l else (l, True)) v [] of
            (l, True) \<Rightarrow> Some l
          | (_, False) \<Rightarrow> None))"

definition register :: "string \<Rightarrow> as_request \<Rightarrow> 'k as_stub \<Rightarrow> writer \<Rightarrow> 'k as_stub \<times> writer" where
  "register rnd r s w =
     (if Method r \<noteq> ''POST'' then (s, http_error ''POST only'' 405 w)
      else
        (case decode_redirects (Body r) of
           None \<Rightarrow> (s, http_error ''redirect_uris required'' 400 w)
         | Some uris \<Rightarrow>
            if uris = [] then (s, http_error ''redirect_uris required'' 400 w)
            else
              (let cid = ''dcr-'' @ randomToken rnd in
               (s\<lparr>clients := fmupd cid True (clients s)\<rparr>,
                wrun [HeaderSet ''Content-Type'' ''application/json'', WriteHeader 201,
                      Write (encode_line (json_map
                        [(''client_id'', JStr cid), (''redirect_uris'', json_strs uris),
                         (''token_endpoint_auth_method'', JStr ''none'')]))] w))))"

definition known_client :: "'k as_stub \<Rightarrow> string \<Rightarrow> bool" where
  "known_client s c = (fmlookup (clients s) c = Some True)"

definition authorize :: "net_url \<Rightarrow> string \<Rightarrow> int \<Rightarrow> as_request \<Rightarrow> 'k as_stub \<Rightarrow> writer \<Rightarrow> 'k as_stub \<times> writer" where
  "authorize N rnd now r s w =
     (let q = Query r in
      if q ''response_type'' \<noteq> ''code'' \<or> q ''code_challenge_method'' \<noteq> ''S256''
      then (s, http_error ''authorization_code + PKCE S256 only'' 400 w)
      else if q ''client_id'' = [] \<or> q ''redirect_uri'' = [] \<or> q ''code_challenge'' = [] \<or> q ''login_hint'' = []
      then (s, http_error ''client_id, redirect_uri, code_challenge, login_hint required'' 400 w)
      else if \<not> known_client s (q ''client_id'')
      then (s, http_error (''unknown client '' @ [CHR 0xE2, CHR 0x80, CHR 0x94] @ '' register first'') 400 w)
      else
        (let code = randomToken rnd;
             ac = \<lparr>oid = q ''login_hint'', roles = (if q ''roles_hint'' \<noteq> [] then Fields (q ''roles_hint'') else []),
                   clientID = q ''client_id'', redirect = q ''redirect_uri'', ch = q ''code_challenge'',
                   expires = now + minutes 2\<rparr>;
             s' = s\<lparr>codes := fmupd code ac (codes s)\<rparr>
         in case with_query N (q ''redirect_uri'') [(''code'', code), (''state'', q ''state'')] of
              None \<Rightarrow> (s', http_error ''bad redirect_uri'' 400 w)
            | Some u \<Rightarrow> (s', wrun (redirect_ops N u 302) w)))"

text \<open>The times are those of the expiry check and of the minting.\<close>

definition token :: "'k crypto \<Rightarrow> int \<Rightarrow> int \<Rightarrow> as_request \<Rightarrow> 'k as_stub \<Rightarrow> writer \<Rightarrow> 'k as_stub \<times> writer" where
  "token C now now' r s w =
     (case PostForm r of
        None \<Rightarrow> (s, http_error ''bad form'' 400 w)
      | Some f \<Rightarrow>
         if f ''grant_type'' \<noteq> ''authorization_code'' then (s, http_error ''authorization_code only'' 400 w)
         else
           (let s' = s\<lparr>codes := fmdrop (f ''code'') (codes s)\<rparr> in
            case fmlookup (codes s) (f ''code'') of
              None \<Rightarrow> (s', http_error ''unknown or expired code'' 400 w)
            | Some ac \<Rightarrow>
               if now > expires ac then (s', http_error ''unknown or expired code'' 400 w)
               else if EncodeToString (Sum256 C (f ''code_verifier'')) \<noteq> ch ac
               then (s', http_error ''PKCE verification failed'' 400 w)
               else if f ''redirect_uri'' \<noteq> [] \<and> f ''redirect_uri'' \<noteq> redirect ac
               then (s', http_error ''redirect_uri mismatch'' 400 w)
               else
                 (case Token C s (Claims s now' (oid ac) (roles ac)) of
                    Inl e \<Rightarrow> (s', http_error e 500 w)
                  | Inr tok \<Rightarrow>
                      (s', wrun [HeaderSet ''Content-Type'' ''application/json'',
                                 Write (encode_line (json_map
                                   [(''access_token'', JStr tok), (''token_type'', JStr ''Bearer''),
                                    (''expires_in'', json_int 300)]))] w))))"

end
