(* ===== verification/AuthProps.thy ===== *)
theory AuthProps
  imports AuthServer OAuth
begin

text \<open>
  The authorization server under a history of requests: codes are issued to registered clients,
  redeemed at most once and only with the PKCE verifier, and its access tokens route by issuer and
  person whatever else changes.
\<close>

section \<open>Histories\<close>

datatype 'k as_op =
    Register string as_request
  | Authorize string int as_request
  | Redeem int int as_request
  | RotateKey 'k

text \<open>One request, with a fresh response writer.\<close>

fun as_step :: "'k crypto \<Rightarrow> net_url \<Rightarrow> 'k as_op \<Rightarrow> 'k as_stub \<Rightarrow> 'k as_stub \<times> writer" where
  "as_step C N (Register rnd r) s = register rnd r s new_writer"
| "as_step C N (Authorize rnd now r) s = authorize N rnd now r s new_writer"
| "as_step C N (Redeem now now' r) s = token C now now' r s new_writer"
| "as_step C N (RotateKey k) s = (Rotate k s, new_writer)"

definition as_run :: "'k crypto \<Rightarrow> net_url \<Rightarrow> 'k as_op list \<Rightarrow> 'k as_stub \<Rightarrow> 'k as_stub" where
  "as_run C N ops s = fold (\<lambda>x s. fst (as_step C N x s)) ops s"

lemma as_run_simps [simp]:
  "as_run C N [] s = s" "as_run C N (x # xs) s = as_run C N xs (fst (as_step C N x s))"
  by (simp_all add: as_run_def)

text \<open>How each request changes the state.\<close>

lemma register_state:
  "fst (register rnd r s w) = s \<or>
   fst (register rnd r s w) = s\<lparr>clients := fmupd (''dcr-'' @ randomToken rnd) True (clients s)\<rparr>"
  by (auto simp: register_def Let_def split: option.splits)

lemma authorize_state:
  "fst (authorize N rnd now r s w) = s \<or>
   (\<exists>ac. fst (authorize N rnd now r s w) = s\<lparr>codes := fmupd (randomToken rnd) ac (codes s)\<rparr> \<and>
      known_client s (clientID ac) \<and> oid ac \<noteq> [] \<and> ch ac \<noteq> [] \<and> redirect ac \<noteq> [] \<and> expires ac = now + minutes 2)"
  by (auto simp: authorize_def Let_def split: option.splits)

lemma token_state:
  "fst (token C now now' r s w) = s \<or>
   (\<exists>f. PostForm r = Some f \<and> fst (token C now now' r s w) = s\<lparr>codes := fmdrop (f ''code'') (codes s)\<rparr>)"
  by (auto simp: token_def Let_def split: option.splits sum.splits)

lemmas as_states = register_state authorize_state token_state

section \<open>Codes\<close>

text \<open>Every code in the store was issued to a registered client, for a person, with a challenge.\<close>

definition codes_ok :: "'k as_stub \<Rightarrow> bool" where
  "codes_ok s \<longleftrightarrow> (\<forall>c ac. fmlookup (codes s) c = Some ac \<longrightarrow>
     known_client s (clientID ac) \<and> oid ac \<noteq> [] \<and> ch ac \<noteq> [] \<and> redirect ac \<noteq> [])"

lemma codes_ok_step: "codes_ok s \<Longrightarrow> codes_ok (fst (as_step C N x s))"
proof (cases x)
  case (Register rnd r)
  then show "codes_ok s \<Longrightarrow> ?thesis"
    using register_state [of rnd r s new_writer] by (auto simp: codes_ok_def known_client_def)
next
  case (Authorize rnd now r)
  then show "codes_ok s \<Longrightarrow> ?thesis"
    using authorize_state [of N rnd now r s new_writer]
    by (fastforce simp: codes_ok_def known_client_def split: if_splits)
next
  case (Redeem now now' r)
  then show "codes_ok s \<Longrightarrow> ?thesis"
    using token_state [of C now now' r s new_writer]
    by (fastforce simp: codes_ok_def known_client_def split: if_splits)
next
  case (RotateKey k)
  then show "codes_ok s \<Longrightarrow> ?thesis" by (simp add: codes_ok_def Rotate_def known_client_def)
qed

lemma codes_ok_run: "codes_ok s \<Longrightarrow> codes_ok (as_run C N ops s)"
  by (induction ops arbitrary: s) (simp_all add: codes_ok_step)

interpretation auth_server: invariant_system "\<lambda>s t. \<exists>x. t = fst (as_step C N x s)" codes_ok for C N
  by unfold_locales (auto intro: codes_ok_step)

text \<open>Issuing a code anew takes the same random bytes.\<close>

definition draws :: "string \<Rightarrow> 'k as_op \<Rightarrow> bool" where
  "draws c x = (case x of Authorize rnd _ _ \<Rightarrow> randomToken rnd = c | _ \<Rightarrow> False)"

lemma gone_step:
  assumes "fmlookup (codes s) c = None" "\<not> draws c x"
  shows "fmlookup (codes (fst (as_step C N x s))) c = None"
proof (cases x)
  case (Register rnd r)
  then show ?thesis using register_state [of rnd r s new_writer] assms by auto
next
  case (Authorize rnd now r)
  then show ?thesis using authorize_state [of N rnd now r s new_writer] assms by (auto simp: draws_def)
next
  case (Redeem now now' r)
  then show ?thesis using token_state [of C now now' r s new_writer] assms by auto
next
  case (RotateKey k)
  then show ?thesis using assms by (simp add: Rotate_def)
qed

lemma gone_run:
  "fmlookup (codes s) c = None \<Longrightarrow> list_all (\<lambda>x. \<not> draws c x) ops \<Longrightarrow>
   fmlookup (codes (as_run C N ops s)) c = None"
  by (induction ops arbitrary: s) (simp_all add: gone_step)

lemma status_http_error [simp]: "w_sent w = None \<Longrightarrow> status (http_error m code w) = code"
  by (simp add: http_error_def write_header_def status_def Let_def)

lemma new_writer_sent [simp]: "w_sent new_writer = None"
  by (simp add: new_writer_def)

lemma unknown_code:
  "PostForm r = Some f \<Longrightarrow> f ''grant_type'' = ''authorization_code'' \<Longrightarrow> fmlookup (codes s) (f ''code'') = None \<Longrightarrow>
   token C now now' r s w = (s\<lparr>codes := fmdrop (f ''code'') (codes s)\<rparr>, http_error ''unknown or expired code'' 400 w)"
  by (simp add: token_def Let_def)

text \<open>
  C23: an authorization code is good for one exchange. Once a token request has presented it, with
  the right verifier or not, every later request with it is refused with 400, whatever registrations,
  sign-ins, exchanges and key rotations come between, unless the random source repeats the code.
\<close>

theorem code_single_use:
  assumes "PostForm r = Some f" "f ''grant_type'' = ''authorization_code''"
    and "PostForm r' = Some f'" "f' ''grant_type'' = ''authorization_code''" "f' ''code'' = f ''code''"
    and "list_all (\<lambda>x. \<not> draws (f ''code'') x) ops"
  shows "status (snd (token C t3 t4 r' (as_run C N ops (fst (token C t1 t2 r s new_writer))) new_writer)) = 400"
proof -
  have "codes (fst (token C t1 t2 r s new_writer)) = fmdrop (f ''code'') (codes s)"
    using assms(1,2) by (auto simp: token_def Let_def split: option.splits sum.splits)
  then have "fmlookup (codes (as_run C N ops (fst (token C t1 t2 r s new_writer)))) (f' ''code'') = None"
    using gone_run [OF _ assms(6)] assms(5) by simp
  then show ?thesis by (subst unknown_code [OF assms(3,4)]) simp_all
qed

section \<open>What a token takes\<close>

text \<open>The document of a granted exchange.\<close>

definition token_doc :: "string \<Rightarrow> json" where
  "token_doc tok = json_map
     [(''access_token'', JStr tok), (''token_type'', JStr ''Bearer''), (''expires_in'', json_int 300)]"


section \<open>Routing of the tokens\<close>

lemma b64_three: "EncodeToString (a # b # c # r) = EncodeToString [a, b, c] @ EncodeToString r"
  by (simp add: EncodeToString_def)

lemma header_eyJ: "HasPrefix (EncodeToString (CHR 0x7B # dquote # CHR ''a'' # r)) ''eyJ''"
proof -
  have "EncodeToString [CHR 0x7B, dquote, CHR ''a''] = ''eyJh''" by code_simp
  then show ?thesis by (subst b64_three) (simp add: HasPrefix_def)
qed

lemma jwt_header:
  "\<exists>r. jenc (json_map [(''alg'', JStr ''RS256''), (''typ'', JStr ''JWT''), (''kid'', JStr kd)]) = CHR 0x7B # dquote # CHR ''a'' # r"
proof -
  have k: "key_le ''typ'' ''kid'' = False" "key_le ''alg'' ''kid''" "key_le ''kid'' ''typ''" by code_simp+
  have "jenc (json_map [(''alg'', JStr ''RS256''), (''typ'', JStr ''JWT''), (''kid'', JStr kd)]) =
      CHR 0x7B # json_string ''alg'' @ CHR '':'' # jenc_members_tail kd"
    if "jenc_members_tail = (\<lambda>kd. json_string ''RS256'' @ CHR '','' # json_string ''kid'' @ CHR '':'' # json_string kd @
          CHR '','' # json_string ''typ'' @ CHR '':'' # json_string ''JWT'' @ [CHR 0x7D])" for jenc_members_tail
    unfolding that json_map_def by (simp only: foldr.simps o_def id_def insert_member.simps fst_conv k if_True if_False jenc.simps) simp
  moreover have "json_string ''alg'' = dquote # CHR ''a'' # ''lg'' @ [dquote]" by code_simp
  ultimately show ?thesis by auto
qed

text \<open>The claims in the order of their keys.\<close>

definition claims_doc :: "'k as_stub \<Rightarrow> int \<Rightarrow> string \<Rightarrow> string list \<Rightarrow> json" where
  "claims_doc s now person rs = JObj
     ([(''aud'', JStr (audience s)), (''exp'', json_int (unix (now + minutes 5))), (''iat'', json_int (unix now)),
       (''iss'', JStr (URL s)), (''oid'', JStr person), (''preferred_username'', JStr (person @ ''@stub.example''))] @
      (if rs = [] then [] else [(''roles'', json_strs rs)]) @ [(''sub'', JStr (''pairwise-'' @ person))])"

lemma claims_sorted: "json_map (Claims s now person rs) = claims_doc s now person rs"
proof -
  have k: "key_le ''iss'' ''aud'' = False" "key_le ''iss'' ''exp'' = False" "key_le ''iss'' ''iat'' = False" "key_le ''iss'' ''oid''"
    "key_le ''aud'' ''exp''" "key_le ''oid'' ''exp'' = False" "key_le ''oid'' ''iat'' = False" "key_le ''oid'' ''preferred_username''"
    "key_le ''sub'' ''exp'' = False" "key_le ''sub'' ''iat'' = False" "key_le ''sub'' ''preferred_username'' = False"
    "key_le ''sub'' ''roles'' = False" "key_le ''preferred_username'' ''exp'' = False" "key_le ''preferred_username'' ''iat'' = False"
    "key_le ''preferred_username'' ''roles''" "key_le ''iat'' ''exp'' = False" "key_le ''exp'' ''iat''" "key_le ''exp'' ''roles''"
    "key_le ''iat'' ''roles''"
    by code_simp+
  show ?thesis
    by (cases rs) (simp_all only: Claims_def claims_doc_def json_map_def append.simps foldr.simps o_def id_def
        insert_member.simps fst_conv k if_True if_False foldr_append simp_thms list.distinct)
qed

lemma json_int_plain: "0 \<le> i \<Longrightarrow> plain (json_int i)"
  by (auto simp: json_int_def int_str_def)

lemma json_strs_plain: "list_all ascii l \<Longrightarrow> plain (json_strs l)"
  by (simp add: json_strs_def) (induction l, simp_all)

lemma json_strs_nesting: "nesting (json_strs l) \<le> 1"
proof -
  have "nesting_elems (map JStr l) = 0" by (induction l) simp_all
  then show ?thesis by (simp add: json_strs_def)
qed

lemma claims_parse:
  assumes "ascii (URL s)" "ascii (audience s)" "ascii person" "list_all ascii rs" "0 \<le> now"
  shows "parse_json (jenc (claims_doc s now person rs)) = Some (claims_doc s now person rs)"
proof (rule parse_jenc(1))
  have n: "0 \<le> unix now" "0 \<le> unix (now + minutes 5)" using assms(5) by (simp_all add: unix_def minutes_def)
  have k: "ascii ''aud''" "ascii ''exp''" "ascii ''iat''" "ascii ''iss''" "ascii ''oid''" "ascii ''preferred_username''"
    "ascii ''roles''" "ascii ''sub''" "ascii ''@stub.example''" "ascii ''pairwise-''" by code_simp+
  have "ascii (''pairwise-'' @ person)" using k(10) assms(3) by (simp only: ascii_simps(3))
  then show "plain (claims_doc s now person rs)"
    using assms k json_int_plain [OF n(1)] json_int_plain [OF n(2)] json_strs_plain [OF assms(4)]
    by (simp add: claims_doc_def del: ascii_simps(2))
  show "nesting (claims_doc s now person rs) \<le> 10000"
    using json_strs_nesting [of rs] by (simp add: claims_doc_def json_int_def)
qed

lemma claims_unmarshal:
  assumes "parse_json t = Some (claims_doc s now person rs)"
  shows "unmarshal_claims t = Some \<lparr>OID = person, Sub = ''pairwise-'' @ person, Iss = URL s\<rparr>"
proof -
  have f: "field_matches ''oid'' k = (k = ''oid'')" "field_matches ''sub'' k = (k = ''sub'')" "field_matches ''iss'' k = (k = ''iss'')"
    if "k \<in> {''aud'', ''exp'', ''iat'', ''iss'', ''oid'', ''preferred_username'', ''roles'', ''sub''}" for k
  proof -
    have "list_all (\<lambda>k. field_matches ''oid'' k = (k = ''oid'') \<and> field_matches ''sub'' k = (k = ''sub'') \<and> field_matches ''iss'' k = (k = ''iss''))
      [''aud'', ''exp'', ''iat'', ''iss'', ''oid'', ''preferred_username'', ''roles'', ''sub'']" by code_simp
    then show "field_matches ''oid'' k = (k = ''oid'')" "field_matches ''sub'' k = (k = ''sub'')" "field_matches ''iss'' k = (k = ''iss'')"
      using that by auto
  qed
  show ?thesis
    by (simp add: unmarshal_claims_def assms claims_doc_def f no_claims_def json_int_def json_strs_def Let_def)
qed

text \<open>
  C25: the routing hint of an access token is its issuer and person. Whatever the hour, the roles and
  the signing key, and even for the tokens that the node's admission edge must refuse (wrong key), a
  token of the server for a person routes to \<open>oidc:<issuer>:<person>\<close>: so a refreshed token of the
  same person meets the same pool entry, and a forged one meets it too and has to be probed.
\<close>

theorem tokens_route_by_person:
  assumes "ascii (URL s)" "ascii (audience s)" "ascii person" "person \<noteq> []" "list_all ascii rs" "0 \<le> now"
    and "signRS256 C k kd (Claims s now person rs) = Inr tok"
  shows "routeHint tok = ''oidc:'' @ URL s @ '':'' @ person"
proof -
  obtain r where h: "jenc (json_map [(''alg'', JStr ''RS256''), (''typ'', JStr ''JWT''), (''kid'', JStr kd)]) =
      CHR 0x7B # dquote # CHR ''a'' # r"
    using jwt_header by blast
  let ?h = "EncodeToString (CHR 0x7B # dquote # CHR ''a'' # r)" and ?p = "jenc (claims_doc s now person rs)"
  obtain sig where tok: "tok = ?h @ ''.'' @ EncodeToString ?p @ ''.'' @ EncodeToString sig"
    using assms(7) unfolding signRS256_def h claims_sorted by (auto simp: Let_def split: sum.splits)
  have "unmarshal_claims ?p = Some \<lparr>OID = person, Sub = ''pairwise-'' @ person, Iss = URL s\<rparr>"
    by (rule claims_unmarshal [OF claims_parse]) (use assms in auto)
  then show ?thesis
    unfolding tok using routeHint_jwt [OF header_eyJ EncodeToString_no_dot EncodeToString_no_dot] assms(4) by simp
qed

section \<open>An instance\<close>

definition ex_crypto :: "nat crypto" where
  "ex_crypto = \<lparr>Sum256 = id, SignPKCS1v15 = (\<lambda>_ m. Inr ''sig''), ModulusBytes = (\<lambda>_. ''n''), ExponentBytes = (\<lambda>_. ''e'')\<rparr>"

definition ex_net :: net_url where
  "ex_net = \<lparr>with_query = (\<lambda>_ _. Some ''u''), redirect_ops = (\<lambda>u c. [HeaderSet ''Location'' u, WriteHeader c])\<rparr>"

definition ex_as :: "nat as_stub" where
  "ex_as = NewASStub ''https://as'' ''https://node'' 7"

theorem tokens_route_by_person_witness:
  "\<exists>tok. Token ex_crypto ex_as (Claims ex_as 0 ''daan'' [''acme'']) = Inr tok \<and> routeHint tok = ''oidc:https://as:daan''"
proof -
  obtain tok where t: "signRS256 ex_crypto (key ex_as) (kid_str (kid ex_as)) (Claims ex_as 0 ''daan'' [''acme'']) = Inr tok"
    by (simp add: signRS256_def ex_crypto_def Let_def)
  have a: "ascii (URL ex_as)" "ascii (audience ex_as)" "ascii ''daan''" "list_all ascii [''acme'']" by code_simp+
  have "routeHint tok = ''oidc:'' @ URL ex_as @ '':'' @ ''daan''"
    by (rule tokens_route_by_person [OF a(1,2,3) _ a(4) _ t]) simp_all
  then show ?thesis using t by (simp add: Token_def ex_as_def NewASStub_def)
qed

text \<open>Daan registers a client and signs in with the challenge of the verifier \<open>v\<close>.\<close>

definition ex_query :: "string \<Rightarrow> string" where
  "ex_query k = (if k = ''response_type'' then ''code'' else if k = ''code_challenge_method'' then ''S256''
     else if k = ''client_id'' then ''dcr-'' @ EncodeToString ''1'' else if k = ''redirect_uri'' then ''cb''
     else if k = ''code_challenge'' then EncodeToString ''v'' else if k = ''login_hint'' then ''daan'' else [])"

definition ex_form :: "string \<Rightarrow> string" where
  "ex_form k = (if k = ''grant_type'' then ''authorization_code'' else if k = ''code'' then EncodeToString ''2''
     else if k = ''code_verifier'' then ''v'' else [])"

definition ex_ops :: "nat as_op list" where
  \<open>ex_ops =
     [Register ''1'' \<lparr>Method = ''POST'', Body = ''{"redirect_uris":["cb"]}'', Query = (\<lambda>_. []), PostForm = None\<rparr>,
      Authorize ''2'' 0 \<lparr>Method = ''GET'', Body = [], Query = ex_query, PostForm = None\<rparr>]\<close>

definition ex_exchange :: as_request where
  "ex_exchange = \<lparr>Method = ''POST'', Body = [], Query = (\<lambda>_. []), PostForm = Some ex_form\<rparr>"

lemma ex_signed_in:
  "fmlookup (codes (as_run ex_crypto ex_net ex_ops ex_as)) (EncodeToString ''2'') =
     Some \<lparr>oid = ''daan'', roles = [], clientID = ''dcr-'' @ EncodeToString ''1'', redirect = ''cb'',
       ch = EncodeToString ''v'', expires = minutes 2\<rparr>"
proof -
  have d: \<open>decode_redirects ''{"redirect_uris":["cb"]}'' = Some [''cb'']\<close> by code_simp
  have e: "EncodeToString ''v'' \<noteq> []" by code_simp
  show ?thesis
    by (simp add: ex_ops_def register_def d authorize_def ex_query_def Let_def randomToken_def known_client_def e
        ex_net_def ex_as_def NewASStub_def)
qed

lemma ex_as_run: "as_run ex_crypto ex_net ex_ops ex_as =
    as_run ex_crypto ex_net ex_ops (NewASStub ''https://as'' ''https://node'' 7)"
  by (simp add: ex_as_def)


theorem code_single_use_witness:
  "status (snd (token ex_crypto 8 9 ex_exchange
     (as_run ex_crypto ex_net [RotateKey 9] (fst (token ex_crypto 5 6 ex_exchange (as_run ex_crypto ex_net ex_ops ex_as) new_writer)))
     new_writer)) = 400"
  by (rule code_single_use [of _ ex_form _ ex_form]) (simp_all add: ex_exchange_def ex_form_def draws_def)

end
