(* ===== verification/Broker.thy ===== *)
theory Broker
  imports PoolSeq
begin

text \<open>
  What the pool promises, without entries, routing hints, connections or builds: a broker that
  knows whom the admission edge admitted, which principal owns a live session, and which requests
  were answered for whom. The concurrent pool refines it: every step of the system is a sequence
  of steps of the broker between the abstracted states.
\<close>

section \<open>The abstract broker\<close>

record broker =
  admits :: "(bearer \<times> principal) set"
  owner :: "sid \<Rightarrow> principal option"
  answers :: "(bearer \<times> principal) set"

definition admissible :: "edge \<Rightarrow> config \<Rightarrow> bearer \<Rightarrow> principal \<Rightarrow> bool" where
  "admissible E cf b pr \<longleftrightarrow>
     (\<exists>t. natsConnect E t b = None \<and> principalOf E t b (root (Segment E) cf) = Ok pr)"

text \<open>
  The broker admits a bearer as a principal that the edge names, forgets a session (its connection
  is gone), gives a session without owner to a principal that was admitted, and answers a bearer as
  a principal it was admitted as. No step hands an owned session to another principal.
\<close>

inductive broker_step :: "edge \<Rightarrow> config \<Rightarrow> broker \<Rightarrow> broker \<Rightarrow> bool" for E cf where
  admit: "admissible E cf b pr \<Longrightarrow> broker_step E cf X (X\<lparr>admits := insert (b, pr) (admits X)\<rparr>)"
| forget: "broker_step E cf X (X\<lparr>owner := (owner X)(s := None)\<rparr>)"
| own: "owner X s = None \<Longrightarrow> (b, pr) \<in> admits X \<Longrightarrow> broker_step E cf X (X\<lparr>owner := (owner X)(s \<mapsto> pr)\<rparr>)"
| answer: "(b, pr) \<in> admits X \<Longrightarrow> broker_step E cf X (X\<lparr>answers := insert (b, pr) (answers X)\<rparr>)"

definition new_broker :: broker where
  "new_broker = \<lparr>admits = {}, owner = Map.empty, answers = {}\<rparr>"

text \<open>What the broker is for: it answers and owns only what the edge admitted.\<close>

definition broker_ok :: "edge \<Rightarrow> config \<Rightarrow> broker \<Rightarrow> bool" where
  "broker_ok E cf X \<longleftrightarrow>
     (\<forall>b pr. (b, pr) \<in> admits X \<longrightarrow> admissible E cf b pr) \<and> answers X \<subseteq> admits X \<and>
     (\<forall>s pr. owner X s = Some pr \<longrightarrow> (\<exists>b. (b, pr) \<in> admits X))"

interpretation broker: invariant_system "broker_step E cf" "broker_ok E cf" for E cf
proof unfold_locales
  fix X Y
  assume ok: "broker_ok E cf X" and "broker_step E cf X Y"
  note k = ok [unfolded broker_ok_def]
  from \<open>broker_step E cf X Y\<close> show "broker_ok E cf Y"
  proof cases
    case (admit b pr)
    then show ?thesis unfolding broker_ok_def using k by simp blast
  next
    case (forget s)
    then show ?thesis unfolding broker_ok_def using k by simp
  next
    case (own s b pr)
    then show ?thesis unfolding broker_ok_def using k by simp blast
  next
    case (answer b pr)
    then show ?thesis unfolding broker_ok_def using k by simp
  qed
qed

section \<open>Several abstract steps at once\<close>

lemma admit_all:
  assumes "finite A" "\<And>b pr. (b, pr) \<in> A \<Longrightarrow> admissible E cf b pr"
  shows "(broker_step E cf)\<^sup>*\<^sup>* X (X\<lparr>admits := A \<union> admits X\<rparr>)"
  using assms
proof (induction A rule: finite_induct)
  case (insert x A)
  obtain b pr where x: "x = (b, pr)" by (rule prod.exhaust)
  have "(broker_step E cf)\<^sup>*\<^sup>* X (X\<lparr>admits := A \<union> admits X\<rparr>)" using insert by blast
  moreover have "broker_step E cf (X\<lparr>admits := A \<union> admits X\<rparr>) (X\<lparr>admits := insert x A \<union> admits X\<rparr>)"
    using broker_step.admit [of E cf b pr "X\<lparr>admits := A \<union> admits X\<rparr>"] insert.prems x by simp
  ultimately show ?case by (rule rtranclp.rtrancl_into_rtrancl)
qed simp

lemma answer_all:
  assumes "finite A" "A \<subseteq> admits X"
  shows "(broker_step E cf)\<^sup>*\<^sup>* X (X\<lparr>answers := A \<union> answers X\<rparr>)"
  using assms
proof (induction A rule: finite_induct)
  case (insert x A)
  obtain b pr where x: "x = (b, pr)" by (rule prod.exhaust)
  have "(broker_step E cf)\<^sup>*\<^sup>* X (X\<lparr>answers := A \<union> answers X\<rparr>)" using insert by blast
  moreover have "broker_step E cf (X\<lparr>answers := A \<union> answers X\<rparr>) (X\<lparr>answers := insert x A \<union> answers X\<rparr>)"
    using broker_step.answer [of b pr "X\<lparr>answers := A \<union> answers X\<rparr>"] insert.prems x by simp
  ultimately show ?case by (rule rtranclp.rtrancl_into_rtrancl)
qed simp

text \<open>Ownership may change as long as no owned session passes to another principal.\<close>

lemma owner_steps:
  assumes "finite D" "\<And>s. owner X s \<noteq> own s \<Longrightarrow> s \<in> D"
    and "\<And>s pr pr'. owner X s = Some pr \<Longrightarrow> own s = Some pr' \<Longrightarrow> pr = pr'"
    and "\<And>s pr. own s = Some pr \<Longrightarrow> \<exists>b. (b, pr) \<in> admits X"
  shows "(broker_step E cf)\<^sup>*\<^sup>* X (X\<lparr>owner := own\<rparr>)"
  using assms
proof (induction D arbitrary: X rule: finite_induct)
  case empty
  then have "own = owner X" by fastforce
  then show ?case by simp
next
  case (insert d D)
  let ?Y = "X\<lparr>owner := (owner X)(d := own d)\<rparr>"
  have "(broker_step E cf)\<^sup>*\<^sup>* X ?Y"
  proof (cases "owner X d = own d")
    case True
    then have "?Y = X" by (simp add: fun_upd_idem)
    then show ?thesis by simp
  next
    case False
    show ?thesis
    proof (cases "own d")
      case None
      then show ?thesis using broker_step.forget [of E cf X d] by simp
    next
      case (Some pr)
      then have "owner X d = None" using False insert.prems(2) [of d] by (cases "owner X d") auto
      moreover obtain b where "(b, pr) \<in> admits X" using insert.prems(3) [OF Some] by blast
      ultimately show ?thesis using broker_step.own [of X d b pr E cf] Some by simp
    qed
  qed
  moreover have "(broker_step E cf)\<^sup>*\<^sup>* ?Y (?Y\<lparr>owner := own\<rparr>)"
    by (rule insert.IH) (use insert.prems in \<open>auto split: if_splits\<close>)
  ultimately show ?case by simp
qed

section \<open>The abstraction\<close>

definition session_owner :: "pool \<Rightarrow> sid \<Rightarrow> principal option" where
  "session_owner p s =
     (case fmlookup (sessions p) s of
        None \<Rightarrow> None
      | Some e \<Rightarrow> if healthy p e then Some (principal_of (heap p e)) else None)"

definition answered :: "sys \<Rightarrow> (bearer \<times> principal) set" where
  "answered S = {(t_bearer th, principal_of (heap (pl S) e)) | th e. th \<in> set (threads S) \<and> t_pc th = Returned (Ok e)}"

definition broker_of :: "sys \<Rightarrow> broker" where
  "broker_of S = \<lparr>admits = set (granted (pl S)), owner = session_owner (pl S), answers = answered S\<rparr>"

lemma broker_of_start: "broker_of (start_sys cf) = new_broker"
  by (auto simp: broker_of_def start_sys_def new_broker_def newPool_def session_owner_def answered_def)

text \<open>
  A round of the broker: a sequence of its steps in which no session passes from one principal to
  another. A session that changes hands is without owner between two rounds.
\<close>

definition broker_round :: "edge \<Rightarrow> config \<Rightarrow> broker \<Rightarrow> broker \<Rightarrow> bool" where
  "broker_round E cf X Y \<longleftrightarrow>
     (broker_step E cf)\<^sup>*\<^sup>* X Y \<and> (\<forall>s pr pr'. owner X s = Some pr \<longrightarrow> owner Y s = Some pr' \<longrightarrow> pr = pr')"

text \<open>Enough for a simulation of one step.\<close>

lemma simulates:
  assumes "grants_ok E cf (set (granted (pl T)))" "set (granted (pl S)) \<subseteq> set (granted (pl T))"
    and "\<And>s pr pr'. session_owner (pl S) s = Some pr \<Longrightarrow> session_owner (pl T) s = Some pr' \<Longrightarrow> pr = pr'"
    and "\<And>s pr. session_owner (pl T) s = Some pr \<Longrightarrow> \<exists>b. (b, pr) \<in> set (granted (pl T))"
    and "answered S \<subseteq> answered T" "answered T \<subseteq> set (granted (pl T))"
  shows "broker_round E cf (broker_of S) (broker_of T)"
proof -
  let ?A = "(broker_of S)\<lparr>admits := set (granted (pl T)) \<union> admits (broker_of S)\<rparr>"
  let ?B = "?A\<lparr>owner := session_owner (pl T)\<rparr>"
  let ?C = "?B\<lparr>answers := answered T \<union> answers ?B\<rparr>"
  have g: "set (granted (pl T)) \<union> admits (broker_of S) = set (granted (pl T))"
    using assms(2) by (auto simp: broker_of_def)
  have "(broker_step E cf)\<^sup>*\<^sup>* (broker_of S) ?A"
    by (rule admit_all) (use assms(1) in \<open>auto simp: grants_ok_def admissible_def\<close>)
  also have "(broker_step E cf)\<^sup>*\<^sup>* ?A ?B"
  proof (rule owner_steps [where D = "fset (fmdom (sessions (pl S))) \<union> fset (fmdom (sessions (pl T)))"])
    fix s assume "owner ?A s \<noteq> session_owner (pl T) s"
    then have "session_owner (pl S) s \<noteq> session_owner (pl T) s" by (simp add: broker_of_def)
    then have "session_owner (pl S) s \<noteq> None \<or> session_owner (pl T) s \<noteq> None" by (rule contrapos_pp) (simp only: de_Morgan_disj not_not)
    then show "s \<in> fset (fmdom (sessions (pl S))) \<union> fset (fmdom (sessions (pl T)))"
      by (auto simp: session_owner_def fmlookup_dom_iff split: option.splits)
  qed (use assms(3,4) g in \<open>simp_all add: broker_of_def\<close>)
  also have "(broker_step E cf)\<^sup>*\<^sup>* ?B ?C"
    by (rule answer_all) (use assms(6) finite_subset [OF assms(6)] in \<open>simp_all add: broker_of_def\<close>, blast)
  also have "?C = broker_of T"
    using g assms(5) by (auto simp: broker_of_def)
  finally have "(broker_step E cf)\<^sup>*\<^sup>* (broker_of S) (broker_of T)" .
  then show ?thesis unfolding broker_round_def using assms(3) by (simp add: broker_of_def)
qed

section \<open>The pool refines the broker\<close>

lemma session_ownerD:
  "session_owner p s = Some pr \<Longrightarrow>
   \<exists>e. fmlookup (sessions p) s = Some e \<and> healthy p e \<and> principal_of (heap p e) = pr"
  by (auto simp: session_owner_def split: option.splits if_splits)

lemma session_ownerI:
  "fmlookup (sessions p) s = Some e \<Longrightarrow> healthy p e \<Longrightarrow> session_owner p s = Some (principal_of (heap p e))"
  by (simp add: session_owner_def)

lemma owner_granted:
  assumes "core_inv E cf p" "session_owner p s = Some pr"
  shows "\<exists>b. (b, pr) \<in> set (granted p)"
proof -
  obtain e where e: "healthy p e" "principal_of (heap p e) = pr" using session_ownerD [OF assms(2)] by blast
  then obtain c where "e < next_eid p" "nc (heap p e) = Some c" by (auto simp: healthy_def built_entry_def)
  then show ?thesis using core_entry [OF assms(1), of e] e(2) by (auto simp: entry_ok_def)
qed

lemma answered_granted:
  assumes "threads_ok E S"
  shows "answered S \<subseteq> set (granted (pl S))"
proof
  fix x assume "x \<in> answered S"
  then obtain th e where "x = (t_bearer th, principal_of (heap (pl S) e))" "th \<in> set (threads S)" "t_pc th = Returned (Ok e)"
    by (auto simp: answered_def)
  moreover from this have "trusted (pl S) (t_bearer th) e" using assms by (force simp: threads_ok_def)
  ultimately show "x \<in> set (granted (pl S))" using trustedD by blast
qed

lemma granted_mono:
  assumes "core_inv E cf p" "sane_edge E cf" "thread_ok E p b pc" "thread_step E b s p pc = Some (q, pc')"
  shows "set (granted p) \<subseteq> set (granted q)"
proof -
  have "calm p q \<or> build_step p pc" using thread_step_ok [OF assms] by blast
  then show ?thesis
  proof
    assume "build_step p pc"
    then consider (start) f h c where "pc = AtBuild f h c" "build (heap p f) = OnceFresh"
      | (finish) f h c d where "pc = AtFinish f h c d" by (cases pc) auto
    then show ?thesis by cases (use assms(4) in auto)
  qed (use calm_granted in blast)
qed

lemma owner_kept:
  assumes "core_inv E cf p" "sane_edge E cf" "thread_ok E p b pc" "thread_step E b s p pc = Some (q, pc')"
    and "session_owner p i = Some pr" "session_owner q i = Some pr'"
  shows "pr = pr'"
proof -
  obtain e where e: "fmlookup (sessions p) i = Some e" "healthy p e" "principal_of (heap p e) = pr"
    using session_ownerD [OF assms(5)] by blast
  have "fmlookup (sessions q) i = Some e"
    using keeps_step [OF assms(1,3,4)] e unfolding keeps_def by blast
  then have "principal_of (heap q e) = pr'" using session_ownerD [OF assms(6)] by simp
  moreover have "same_identity p q e"
    by (rule same_identity_step [OF assms(1-4)]) (use e(2) in \<open>simp_all add: healthy_def built_entry_def\<close>)
  ultimately show ?thesis using e(3) by (simp add: same_identity_def)
qed

lemma answered_run:
  assumes "core_inv E cf (pl S)" "sane_edge E cf" "threads_ok E S" "i < length (threads S)" "th = threads S ! i"
    and "thread_step E (t_bearer th) (t_sid th) (pl S) (t_pc th) = Some (q, pc')"
  shows "answered S \<subseteq> answered (S\<lparr>pl := q, threads := (threads S)[i := th\<lparr>t_pc := pc'\<rparr>]\<rparr>)"
proof
  fix x assume "x \<in> answered S"
  then obtain u e where u: "x = (t_bearer u, principal_of (heap (pl S) e))" "u \<in> set (threads S)" "t_pc u = Returned (Ok e)"
    by (auto simp: answered_def)
  have ok: "thread_ok E (pl S) (t_bearer th) (t_pc th)" using assms(3-5) by (auto simp: threads_ok_def)
  have "trusted (pl S) (t_bearer u) e" using assms(3) u(2,3) by (force simp: threads_ok_def)
  then have "e < next_eid (pl S)" "nc (heap (pl S) e) \<noteq> None" using trustedD by blast+
  then have "same_identity (pl S) q e" by (rule same_identity_step [OF assms(1,2) ok assms(6)])
  then have "principal_of (heap q e) = principal_of (heap (pl S) e)" by (simp add: same_identity_def)
  moreover have "u \<in> set ((threads S)[i := th\<lparr>t_pc := pc'\<rparr>])"
  proof -
    obtain j where j: "j < length (threads S)" "u = threads S ! j" using u(2) by (auto simp: in_set_conv_nth)
    have "j \<noteq> i" using j assms(5,6) u(3) by auto
    then show ?thesis using j by (metis length_list_update nth_list_update_neq nth_mem)
  qed
  ultimately show "x \<in> answered (S\<lparr>pl := q, threads := (threads S)[i := th\<lparr>t_pc := pc'\<rparr>]\<rparr>)"
    unfolding answered_def using u(1,3) by force
qed

text \<open>Steps that leave the entries alone.\<close>

lemma simulates_same_heap:
  assumes "sys_inv E cf S" "sys_inv E cf T" "heap (pl T) = heap (pl S)" "granted (pl T) = granted (pl S)"
    and "\<And>s e. fmlookup (sessions (pl S)) s = Some e \<Longrightarrow> fmlookup (sessions (pl T)) s \<in> {None, Some e}"
    and "{th \<in> set (threads T). \<exists>e. t_pc th = Returned (Ok e)} = {th \<in> set (threads S). \<exists>e. t_pc th = Returned (Ok e)}"
  shows "broker_round E cf (broker_of S) (broker_of T)"
proof (rule simulates)
  note J = sys_inv_parts [OF assms(2)]
  show "grants_ok E cf (set (granted (pl T)))" using J(2) by (simp add: core_inv_def)
  show "\<exists>b. (b, pr) \<in> set (granted (pl T))" if "session_owner (pl T) s = Some pr" for s pr
    by (rule owner_granted [OF J(2) that])
  show "pr = pr'" if "session_owner (pl S) s = Some pr" "session_owner (pl T) s = Some pr'" for s pr pr'
    using session_ownerD [OF that(1)] session_ownerD [OF that(2)] assms(3,5) by force
  show "answered S \<subseteq> answered T" unfolding answered_def using assms(3,6) by auto
  show "answered T \<subseteq> set (granted (pl T))" by (rule answered_granted [OF J(3)])
qed (simp add: assms(4))

lemma simulates_run:
  assumes inv: "sys_inv E cf S" and i: "i < length (threads S)" "th = threads S ! i"
    and st: "thread_step E (t_bearer th) (t_sid th) (pl S) (t_pc th) = Some (q, pc')"
    and T: "T = S\<lparr>pl := q, threads := (threads S)[i := th\<lparr>t_pc := pc'\<rparr>]\<rparr>" "sys_inv E cf T"
  shows "broker_round E cf (broker_of S) (broker_of T)"
proof (rule simulates)
  note I = sys_inv_parts [OF inv] and J = sys_inv_parts [OF T(2)]
  have ok: "thread_ok E (pl S) (t_bearer th) (t_pc th)" using I(3) i by (auto simp: threads_ok_def)
  have q: "pl T = q" by (simp add: T(1))
  show "grants_ok E cf (set (granted (pl T)))" using J(2) by (simp add: core_inv_def)
  show "set (granted (pl S)) \<subseteq> set (granted (pl T))" unfolding q by (rule granted_mono [OF I(2,1) ok st])
  show "pr = pr'" if "session_owner (pl S) s = Some pr" "session_owner (pl T) s = Some pr'" for s pr pr'
    using owner_kept [OF I(2,1) ok st] that q by blast
  show "\<exists>b. (b, pr) \<in> set (granted (pl T))" if "session_owner (pl T) s = Some pr" for s pr
    by (rule owner_granted [OF J(2) that])
  show "answered S \<subseteq> answered T" unfolding T(1) by (rule answered_run [OF I(2,1,3) i st])
  show "answered T \<subseteq> set (granted (pl T))" by (rule answered_granted [OF J(3)])
qed

text \<open>
  C3: the pool refines the broker. From any reachable state, each step of the concurrent system, a
  new request, a step of a request, a lost connection, a minted session or \<open>Close\<close>, is a round of the
  broker between the abstracted states; and the start is the empty broker.
\<close>

theorem pool_refines_broker:
  assumes "sane_edge E cf" "reachable E cf S" "sys_step E S T"
  shows "broker_of (start_sys cf) = new_broker \<and> broker_round E cf (broker_of S) (broker_of T)"
proof
  show "broker_of (start_sys cf) = new_broker" by (rule broker_of_start)
  have inv: "sys_inv E cf S" by (rule reachable_inv [OF assms(1,2)])
  have inv': "sys_inv E cf T" by (rule sys_inv_step [OF inv assms(3)])
  from assms(3) show "broker_round E cf (broker_of S) (broker_of T)"
  proof cases
    case (request b s)
    then show ?thesis by (intro simulates_same_heap [OF inv inv']) auto
  next
    case (run i th q pc')
    then show ?thesis using simulates_run [OF inv _ _ _ _ inv'] by blast
  next
    case (conn_lost c)
    then show ?thesis by (intro simulates_same_heap [OF inv inv']) auto
  next
    case (session_minted th e s)
    then show ?thesis
      by (intro simulates_same_heap [OF inv inv']) (auto simp: bindSession_def bindLocked_def split: option.splits)
  next
    case close
    then show ?thesis by (intro simulates_same_heap [OF inv inv']) (auto simp: close_pool_def)
  qed
qed

theorem pool_refines_broker_witness:
  "broker_round ex_edge ex_cfg (broker_of ex_sys) (broker_of (ex_sys\<lparr>pl := close_pool (pl ex_sys)\<rparr>))"
  using pool_refines_broker [OF ex_sane ex_reachable sys_step.close] by blast

end
