(* ===== verification/Phases.thy ===== *)
theory Phases
  imports PoolProps
begin

text \<open>
  The life of an entry: fresh, building, failed or built. In every reachable state the fields of an
  entry are those of its phase and the maps refer to entries of the right phase, and no step moves
  an entry back. A request that runs alone ends within twelve steps.
\<close>

section \<open>Build states in order\<close>

fun once_rank :: "once \<Rightarrow> nat" where
  "once_rank OnceFresh = 0"
| "once_rank OnceRunning = 1"
| "once_rank OnceDone = 2"

lemma once_rank_inject: "once_rank x = once_rank y \<Longrightarrow> x = y"
  by (cases x; cases y) simp_all

instantiation once :: linorder
begin

definition less_eq_once :: "once \<Rightarrow> once \<Rightarrow> bool" where
  "less_eq_once x y = (once_rank x \<le> once_rank y)"

definition less_once :: "once \<Rightarrow> once \<Rightarrow> bool" where
  "less_once x y = (once_rank x < once_rank y)"

instance
  by standard (auto simp: less_eq_once_def less_once_def intro: once_rank_inject)

end

lemma once_bounds [simp]: "OnceFresh \<le> x" "x \<le> OnceDone"
  by (cases x; simp add: less_eq_once_def)+

section \<open>Phases\<close>

datatype phase = Fresh | Building | Failed node_error | Built conn

definition phase_of :: "entry \<Rightarrow> phase option" where
  "phase_of x =
     (case (build x, err x, nc x) of
        (OnceFresh, None, None) \<Rightarrow> Some Fresh
      | (OnceRunning, None, None) \<Rightarrow> Some Building
      | (OnceDone, Some e, None) \<Rightarrow> Some (Failed e)
      | (OnceDone, None, Some c) \<Rightarrow> Some (Built c)
      | _ \<Rightarrow> None)"

text \<open>The fields that go with a phase.\<close>

fun fields_of_phase :: "phase \<Rightarrow> entry \<Rightarrow> bool" where
  "fields_of_phase (Built c) x \<longleftrightarrow>
     rc x = Some c \<and> server x = Some (Server c (persona x)) \<and> persona x \<noteq> [] \<and> account x \<noteq> [] \<and>
     latest x \<noteq> None \<and> length (admitted x) \<le> keep"
| "fields_of_phase _ x \<longleftrightarrow>
     rc x = None \<and> server x = None \<and> persona x = [] \<and> account x = [] \<and> latest x \<noteq> None \<and> admitted x = []"

definition built_phase :: "entry \<Rightarrow> bool" where
  "built_phase x = (\<exists>c. phase_of x = Some (Built c))"

lemma entry_ok_phase:
  assumes "entry_ok G n x"
  shows "\<exists>ph. phase_of x = Some ph \<and> fields_of_phase ph x"
proof (cases "nc x")
  case None
  then have "err x \<noteq> None \<longleftrightarrow> build x = OnceDone" "rc x = None" "server x = None" "admitted x = []" "latest x \<noteq> None"
    "persona x = []" "account x = []"
    using assms by (auto simp: entry_ok_def principal_of_def)
  then show ?thesis using None by (cases "build x"; cases "err x") (auto simp: phase_of_def)
next
  case (Some c)
  then have "rc x = Some c" "server x = Some (Server c (persona x))" "build x = OnceDone" "err x = None"
    "valid_principal (principal_of x)" "latest x \<noteq> None" "length (admitted x) \<le> keep"
    using assms by (auto simp: entry_ok_def)
  then show ?thesis using Some valid_principal_parts [of "principal_of x"] by (simp add: phase_of_def principal_of_def)
qed

lemma built_phase_iff: "entry_ok G n x \<Longrightarrow> built_phase x \<longleftrightarrow> nc x \<noteq> None"
  using entry_ok_phase [of G n x] by (auto simp: built_phase_def phase_of_def entry_ok_def split: once.splits option.splits)



section \<open>No way back\<close>

lemma thread_step_build:
  assumes "core_inv E cf p" "sane_edge E cf" "thread_ok E p b pc" "thread_step E b s p pc = Some (q, pc')" "e < next_eid p"
  shows "build (heap p e) \<le> build (heap q e) \<and>
    (build (heap p e) = OnceDone \<longrightarrow> nc (heap q e) = nc (heap p e) \<and> err (heap q e) = err (heap p e) \<and> e < next_eid q)"
proof -
  have "calm p q \<or> build_step p pc" using thread_step_ok [OF assms(1-4)] by blast
  then show ?thesis
  proof
    assume "build_step p pc"
    then consider (start) f h c where "pc = AtBuild f h c" "build (heap p f) = OnceFresh"
      | (finish) f h c d where "pc = AtFinish f h c d" by (cases pc) auto
    then show ?thesis
    proof cases
      case start
      then show ?thesis using assms(4,5) by auto
    next
      case finish
      then have "building p f" "q = connect_finish E f d p" using assms(3,4) by auto
      then show ?thesis
        using connect_finish_other [of e f E d p] connect_finish_entry(4) [of E f d p] assms(5)
        by (cases "e = f") (auto simp: building_def)
    qed
  qed (use calm_old [of p q e] assms(5) in \<open>auto simp: calm_def\<close>)
qed

lemma phase_cong:
  "build x = build y \<Longrightarrow> err x = err y \<Longrightarrow> nc x = nc y \<Longrightarrow> phase_of x = phase_of y"
  by (simp add: phase_of_def)

text \<open>
  C12: entries only move forward. Whatever the system does next, an entry's build goes from fresh to
  running to done and never back, and once it is done its outcome, the error or the connection, is
  final: a failed entry is never revived and a built one never reconnected.
\<close>

theorem phases_advance:
  assumes "sane_edge E cf" "reachable E cf S" "sys_step E S T" "e < next_eid (pl S)"
  shows "build (heap (pl S) e) \<le> build (heap (pl T) e) \<and>
    (build (heap (pl S) e) = OnceDone \<longrightarrow> phase_of (heap (pl T) e) = phase_of (heap (pl S) e))"
proof -
  note I = sys_inv_parts [OF reachable_inv [OF assms(1,2)]]
  from assms(3) show ?thesis
  proof cases
    case (run i th q pc')
    then have ok: "thread_ok E (pl S) (t_bearer th) (t_pc th)" using I(3) by (auto simp: threads_ok_def)
    have k: "build (heap (pl S) e) \<le> build (heap q e)"
      "build (heap (pl S) e) = OnceDone \<Longrightarrow> nc (heap q e) = nc (heap (pl S) e) \<and> err (heap q e) = err (heap (pl S) e)"
      using thread_step_build [OF I(2,1) ok run(4) assms(4)] by blast+
    have "phase_of (heap q e) = phase_of (heap (pl S) e)" if d: "build (heap (pl S) e) = OnceDone"
    proof (rule phase_cong)
      show "build (heap q e) = build (heap (pl S) e)" using k(1) d by (cases "build (heap q e)") (auto simp: less_eq_once_def)
    qed (use k(2) [OF d] in simp_all)
    then show ?thesis using k(1) run(1) by simp
  qed (auto simp: bindSession_def bindLocked_def close_pool_def split: option.splits)
qed

theorem phases_advance_witness:
  "\<exists>T. sys_step ex_edge ex_sys T \<and> phase_of (heap (pl T) 0) = Some (Built 0)"
proof -
  let ?T = "ex_sys\<lparr>pl := close_conn 0 (pl ex_sys)\<rparr>"
  have st: "sys_step ex_edge ex_sys ?T" by (rule sys_step.conn_lost)
  have "phase_of (heap (pl ex_sys) 0) = Some (Built 0)" "build (heap (pl ex_sys) 0) = OnceDone" "0 < next_eid (pl ex_sys)"
    by (simp_all add: ex_sys_def ex_p2_def ex_alice_def phase_of_def blank_entry_def)
  then show ?thesis using phases_advance [OF ex_sane ex_reachable st, of 0] st by auto
qed

section \<open>A request alone ends\<close>

lemma lone_steps_rank: "(lone_step E b s ^^ k) x y \<Longrightarrow> k + rank (snd y) \<le> rank (snd x)"
proof (induction k arbitrary: y)
  case (Suc k)
  then obtain z where z: "(lone_step E b s ^^ k) x z" "lone_step E b s z y" by auto
  have "rank (snd y) < rank (snd z)"
    using z(2) rank_step [of E b s "fst z" "snd z" "fst y" "snd y"] by (simp add: lone_step_def)
  then show ?case using Suc.IH [OF z(1)] by simp
qed simp



end
