(* ===== verification/Limits.thy ===== *)
theory Limits
  imports Phases
begin

text \<open>
  Where the code falls short of what its comments say: each theorem shows a behaviour of the model
  that a comment of \<open>pool.go\<close> or \<open>principal.go\<close> excludes, with a concrete run.
\<close>

section \<open>Reading the grant\<close>

lemma principalFromAllows_Some_iff:
  "principalFromAllows as rt = Ok (Some pr) \<longleftrightarrow>
     valid_principal pr \<and> (\<exists>xs ys. as = xs @ grant_subject rt pr # ys \<and> principalFromAllows xs rt = Ok None)"
proof (induction as)
  case (Cons s as)
  have split: "(\<exists>xs ys. s # as = xs @ g # ys \<and> Q xs) \<longleftrightarrow>
      (s = g \<and> Q []) \<or> (\<exists>xs ys. as = xs @ g # ys \<and> Q (s # xs))" for g Q
    by (auto simp: Cons_eq_append_conv)
  show ?case
  proof (cases rule: allows_cases [of rt s])
    case overlap
    then have "s \<noteq> grant_subject rt pr" using grant_not_overlapping by blast
    then show ?thesis unfolding split using overlap by (simp add: principalFromAllows_overlap)
  next
    case (grant q)
    then have "valid_principal pr \<and> s = grant_subject rt pr \<longleftrightarrow> q = pr" using grant_subject_unique by blast
    then show ?thesis unfolding split using grant by (auto simp: principalFromAllows_grant)
  next
    case other
    have sk: "principalFromAllows (s # zs) rt = principalFromAllows zs rt" for zs
      using other by (rule principalFromAllows_skip)
    have "valid_principal pr \<Longrightarrow> s \<noteq> grant_subject rt pr" by (rule other(2))
    then show ?thesis unfolding split sk Cons.IH by blast
  qed
qed simp

text \<open>
  C21: which principal a connection has. It is the one of the first subject that is a grant, provided
  nothing before it is malformed; a subject of the identity plane too short to hold account and
  persona, such as the bare \<open><root>.sign.record\<close>, makes the code panic when it comes first.
\<close>

theorem first_grant_decides:
  "(principalFromAllows as rt = Ok (Some pr) \<longleftrightarrow>
      valid_principal pr \<and> (\<exists>xs ys. as = xs @ grant_subject rt pr # ys \<and> principalFromAllows xs rt = Ok None)) \<and>
   (principalFromAllows as rt = Panic \<longleftrightarrow>
      (\<exists>xs s ys. as = xs @ s # ys \<and> overlapping_subject rt s \<and> principalFromAllows xs rt = Ok None)) \<and>
   overlapping_subject rt (rt @ signRecordSuffix)"
  using principalFromAllows_Some_iff principalFromAllows_Panic_iff bare_sign_record_overlaps by blast

section \<open>After a panic\<close>

lemma dial_panics:
  assumes "natsConnect E (attempts p) b = None" "principalOf E (attempts p) b (root (Segment E) (cfg p)) = Panic"
  shows "dial E b p =
    (p\<lparr>attempts := Suc (attempts p), live := insert (next_conn p) (live p), next_conn := Suc (next_conn p)\<rparr>,
     attempts p, Some (next_conn p), Panic)"
  using assms by (simp add: dial_def Let_def)

lemmas first_request =
  resolve_def resolve_locked_def routeByBearer_def routeByHint_def follow_route_def serve_built_def build_Do_def
  newEntryLocked_def new_entry_def sameLatest_def start_build_def upd_entry_def aliveLocked_def admit_bind_def
  admitLocked_def isAdmittedLocked_def keep_def bindLocked_def token_of_def blank_entry_def Let_def

text \<open>
  C39: a build that panics is taken for a success. If reading the grant panics, the request is lost,
  but \<open>sync.Once\<close> counts the build as done and no error was stored: the next request with the same
  bearer is served, on an entry without connection, principal or server, and the hook of the MCP
  handler has no server for it.
\<close>

theorem panicked_build_is_served:
  assumes "b \<noteq> []" "\<And>t. natsConnect E t b = None" "\<And>t. principalOf E t b (root (Segment E) cf) = Panic"
  shows "\<exists>q q'. resolve E b [] (newPool cf) = (q, Panic) \<and> resolve E b [] q = (q', Ok 0) \<and>
    principal_of (heap q' 0) = ([], []) \<and> nc (heap q' 0) = None \<and> serverFor b q' = None"
proof -
  have d: "dial E b p = (p\<lparr>attempts := Suc (attempts p), live := insert (next_conn p) (live p), next_conn := Suc (next_conn p)\<rparr>,
     attempts p, Some (next_conn p), Panic)" if "cfg p = cf" for p
    by (rule dial_panics) (simp_all add: assms(2,3) that)
  obtain q where q: "resolve E b [] (newPool cf) = (q, Panic)" "heap q 0 = blank_entry\<lparr>keys := [routeHint b], latest := Some b, build := OnceDone\<rparr>"
    "entries q = fmupd (routeHint b) 0 fmempty" "byBearer q = fmempty" "sessions q = fmempty"
    by (simp add: first_request newPool_def d panicked_def connect_finish_def)
  then obtain q' where "resolve E b [] q = (q', Ok 0)" "heap q' 0 = blank_entry\<lparr>keys := [routeHint b], latest := Some b, build := OnceDone, admitted := [b]\<rparr>"
    "byBearer q' = fmupd b 0 fmempty"
    by (simp add: first_request)
  then show ?thesis using q(1) by (simp add: serverFor_def aliveLocked_def principal_of_def blank_entry_def)
qed

definition panic_edge :: edge where
  \<open>panic_edge = ex_edge\<lparr>userInfo := (\<lambda>_ _.
     Inr ''{"data":{"permissions":{"publish":{"allow":["si.sign.record","si.AC.bob.sign.record"]}}}}'')\<rparr>\<close>

theorem panicked_build_is_served_witness:
  "\<exists>q q'. resolve panic_edge ''b1'' [] (newPool ex_cfg) = (q, Panic) \<and> resolve panic_edge ''b1'' [] q = (q', Ok 0) \<and>
     serverFor ''b1'' q' = None"
proof -
  have a: \<open>user_info_allows ''{"data":{"permissions":{"publish":{"allow":["si.sign.record","si.AC.bob.sign.record"]}}}}'' =
      Some [''si.sign.record'', ''si.AC.bob.sign.record'']\<close> by code_simp
  have p: "principalFromAllows [''si.sign.record'', ''si.AC.bob.sign.record''] ''si'' = Panic" by code_simp
  have "principalOf panic_edge t ''b1'' (root (Segment panic_edge) ex_cfg) = Panic" for t
    using a p by (simp add: principalOf_def panic_edge_def root_def ex_edge_def ex_cfg_def)
  moreover have "natsConnect panic_edge t ''b1'' = None" for t by (simp add: panic_edge_def ex_edge_def)
  ultimately show ?thesis using panicked_build_is_served [of "''b1''" panic_edge ex_cfg] by auto
qed

section \<open>One entry per principal\<close>

text \<open>
  A session is bound to an entry, not to a principal. A bearer that was admitted at one entry is
  refused on a session bound to another one with the error of a foreign principal, without a probe
  and even where both entries have the same principal.
\<close>

lemma bound_to_the_entry:
  assumes "s \<noteq> []" "fmlookup (sessions p) s = Some e" "aliveLocked p e" "b \<notin> set (admitted (heap p e))"
    and "fmlookup (byBearer p) b = Some f" "f \<noteq> e"
  shows "resolve E b s p = (p, Err SessionPrincipalMismatch)"
  using assms by (simp add: resolve_def resolve_locked_def isAdmittedLocked_def follow_route_def)

text \<open>Alice's two static tokens each build an entry of their own; the session of one refuses the other.\<close>

lemma bound_to_the_entry_example:
  "\<exists>p1 p2. resolve ex_edge ''a1'' ''s'' (newPool ex_cfg) = (p1, Ok 0) \<and> resolve ex_edge ''a2'' [] p1 = (p2, Ok 1) \<and>
     principal_of (heap p2 0) = (''alice'', ''AC'') \<and> principal_of (heap p2 1) = (''alice'', ''AC'') \<and>
     resolve ex_edge ''a2'' ''s'' p2 = (p2, Err SessionPrincipalMismatch)"
proof -
  obtain p1 p2 where p: "resolve ex_edge ''a1'' ''s'' (newPool ex_cfg) = (p1, Ok 0)" "resolve ex_edge ''a2'' [] p1 = (p2, Ok 1)"
    "principal_of (heap p2 0) = (''alice'', ''AC'')" "principal_of (heap p2 1) = (''alice'', ''AC'')"
    "fmlookup (sessions p2) ''s'' = Some 0" "aliveLocked p2 0" "admitted (heap p2 0) = [''a1'']" "fmlookup (byBearer p2) ''a2'' = Some 1"
    by (simp add: ex_run)
  have "resolve ex_edge ''a2'' ''s'' p2 = (p2, Err SessionPrincipalMismatch)"
    by (rule bound_to_the_entry [of _ _ 0 _ 1]) (use p in simp_all)
  then show ?thesis using p by blast
qed

section \<open>Closing while a build runs\<close>

lemma reachable_alone:
  assumes "reachable E cf \<lparr>pl = p, threads = [\<lparr>t_bearer = b, t_sid = s, t_pc = pc\<rparr>]\<rparr>" "thread_step E b s p pc = Some (q, pc')"
  shows "reachable E cf \<lparr>pl = q, threads = [\<lparr>t_bearer = b, t_sid = s, t_pc = pc'\<rparr>]\<rparr>"
  using reachable_sys_step [OF assms(1) sys_step.run [of 0 _ "\<lparr>t_bearer = b, t_sid = s, t_pc = pc\<rparr>" E q pc']] assms(2) by simp


end
