(* ===== verification/Keyset.thy ===== *)
theory Keyset
  imports Scope GoMain GoPath
begin

text \<open>
  \<open>rigtest/keyset.go\<close> and the credentials of \<open>rigtest/rig.go\<close>: the operator-mode key ceremony of the
  test deployment. Key pairs and token encoding (packages \<open>nkeys\<close> and \<open>jwt\<close>) are a record of
  operations; a claims object is a datatype with the fields that the code sets.
\<close>

section \<open>Claims\<close>

record operator_claims =
  o_subject :: string
  o_name :: string

record account_claims =
  a_subject :: string
  a_name :: string
  SigningKeys :: "(string, user_scope option) fmap"    \<comment> \<open>scoped signers carry their scope\<close>
  AuthUsers :: "string list"
  AllowedAccounts :: "string list"
  XKey :: string
  JetStreamLimits :: "(int \<times> int \<times> int \<times> int) option" \<comment> \<open>memory, disk, streams, consumers; none as the library sets them\<close>

record user_claims =
  u_subject :: string
  u_name :: string
  Permissions :: "permissions option"                  \<comment> \<open>none as the library sets them\<close>

datatype jwt_claims = OperatorClaims operator_claims | AccountClaims account_claims | UserClaims user_claims

definition NewOperatorClaims :: "string \<Rightarrow> operator_claims" where
  "NewOperatorClaims pub = \<lparr>o_subject = pub, o_name = []\<rparr>"

definition NewAccountClaims :: "string \<Rightarrow> account_claims" where
  "NewAccountClaims pub =
     \<lparr>a_subject = pub, a_name = [], SigningKeys = fmempty, AuthUsers = [], AllowedAccounts = [], XKey = [],
      JetStreamLimits = None\<rparr>"

definition NewUserClaims :: "string \<Rightarrow> user_claims" where
  "NewUserClaims pub = \<lparr>u_subject = pub, u_name = [], Permissions = None\<rparr>"

text \<open>The claims of the three accounts.\<close>

definition system_claims :: "string \<Rightarrow> account_claims" where
  "system_claims sysPub = (NewAccountClaims sysPub)\<lparr>a_name := ''SYS''\<rparr>"

definition auth_claims :: "string \<Rightarrow> string \<Rightarrow> string \<Rightarrow> string \<Rightarrow> string \<Rightarrow> account_claims" where
  "auth_claims authPub authSKPub issuerUserPub acmePub calloutPub =
     (NewAccountClaims authPub)\<lparr>a_name := ''AUTH'', SigningKeys := fmupd authSKPub None fmempty,
       AuthUsers := [issuerUserPub], AllowedAccounts := [acmePub], XKey := calloutPub\<rparr>"

definition acme_claims :: "string \<Rightarrow> string \<Rightarrow> string \<Rightarrow> account_claims" where
  "acme_claims segment acmePub acmeSKPub =
     (NewAccountClaims acmePub)\<lparr>a_name := ''ACME'', JetStreamLimits := Some (-1, -1, -1, -1),
       SigningKeys := fmupd (Key (scopeTemplate segment acmeSKPub)) (Some (scopeTemplate segment acmeSKPub)) fmempty\<rparr>"

section \<open>Libraries and file system\<close>

datatype key_kind = Operator | Account | User | Curve

text \<open>
  A key pair may be nil, the result of a failed creation, whose error the code drops: asking it for
  its public key or seed panics. Encoding stamps the time and is an operation of the world.
\<close>

record ('k, 'w) lab =
  CreateKey :: "key_kind \<Rightarrow> 'w \<Rightarrow> 'k option \<times> 'w"
  PublicKey :: "'k \<Rightarrow> string + string"
  Seed :: "'k \<Rightarrow> string + string"
  Encode :: "jwt_claims \<Rightarrow> 'k option \<Rightarrow> 'w \<Rightarrow> (string + string) \<times> 'w"
  FormatUserConfig :: "string \<Rightarrow> string \<Rightarrow> string + string"
  TempDir :: "'w \<Rightarrow> (string + string) \<times> 'w"
  WriteFile :: "string \<Rightarrow> string \<Rightarrow> nat \<Rightarrow> 'w \<Rightarrow> (string + unit) \<times> 'w"

text \<open>
  The state of a test: the world of the libraries, what the test has running, the cleanups it has
  registered (newest first), the number of connections made and the clock in nanoseconds.
\<close>

datatype resource = TempFiles | StubServer | NatsServer | Conn nat | Plane | RealmClient nat

record 'w bench =
  lib :: 'w
  running :: "resource set"
  cleanups :: "resource list"
  conns :: nat
  clock :: nat

type_synonym ('w, 'a) tcmd = "('w bench, 'a) cmd"

definition panic :: "('w, 'a) cmd" where
  "panic p = (Panic, p)"

definition Fatalf :: "string \<Rightarrow> ('w, 'a) tcmd" where
  "Fatalf s = log_Fatal s"

definition lib_call :: "('w \<Rightarrow> 'a \<times> 'w) \<Rightarrow> ('w, 'a) tcmd" where
  "lib_call f = call (\<lambda>b. case f (lib b) of (r, w) \<Rightarrow> (r, b\<lparr>lib := w\<rparr>))"

text \<open>\<open>if err != nil { t.Fatalf("what: %v", err) }\<close>\<close>

definition or_fatal :: "string \<Rightarrow> string + 'a \<Rightarrow> ('w, 'a) tcmd" where
  "or_fatal what r = (case r of Inr a \<Rightarrow> ret a | Inl e \<Rightarrow> Fatalf (what @ '': '' @ e))"

text \<open>\<open>t.Cleanup\<close>, and the first \<open>t.TempDir\<close>, which registers the removal of the directories.\<close>

definition Cleanup :: "resource \<Rightarrow> ('w, unit) tcmd" where
  "Cleanup r = call (\<lambda>b. ((), b\<lparr>cleanups := r # cleanups b\<rparr>))"

definition acquire :: "resource \<Rightarrow> ('w, unit) tcmd" where
  "acquire r = call (\<lambda>b. ((), b\<lparr>running := insert r (running b)\<rparr>))"

definition temp_dir :: "('k, 'w) lab \<Rightarrow> ('w, string) tcmd" where
  "temp_dir L =
     andThen (lib_call (TempDir L)) (\<lambda>r.
     andThen (or_fatal ''TempDir'' r) (\<lambda>dir.
     andThen (call (\<lambda>b. ((), if TempFiles \<in> running b then b
        else b\<lparr>running := insert TempFiles (running b), cleanups := TempFiles # cleanups b\<rparr>))) (\<lambda>_.
     ret dir)))"

text \<open>Writing a file of mode 0600 in a fresh directory; the path is the result.\<close>

definition write_secret :: "('k, 'w) lab \<Rightarrow> string \<Rightarrow> string \<Rightarrow> string \<Rightarrow> ('w, string) tcmd" where
  "write_secret L what name contents =
     andThen (temp_dir L) (\<lambda>dir.
     andThen (lib_call (WriteFile L (path_join dir name) contents 384)) (\<lambda>r.
     andThen (or_fatal what r) (\<lambda>_.
     andThen (write_file (path_join dir name) contents 384) (\<lambda>_. ret (path_join dir name)))))"

section \<open>The ceremony\<close>

record 'k keyset =
  opKP :: "'k option"
  acmeKP :: "'k option"
  authKP :: "'k option"
  acmePub :: string
  authPub :: string
  acmeSKSeed :: string
  authSKSeed :: string
  firstSeed :: string
  surfaceSeed :: string
  calloutSeed :: string
  opJWT :: string
  sysJWT :: string
  authJWT :: string
  acmeJWT :: string
  sysPub :: string
  authPubAcc :: string
  acmePubAcc :: string
  issuerUserKP :: "'k option"
  issuerUserPub :: string

definition mustSeed :: "('k, 'w) lab \<Rightarrow> 'k option \<Rightarrow> ('w, string) tcmd" where
  "mustSeed L kp =
     (case kp of None \<Rightarrow> panic | Some k \<Rightarrow> (case Seed L k of Inl _ \<Rightarrow> panic | Inr s \<Rightarrow> ret s))"

definition mustPub :: "('k, 'w) lab \<Rightarrow> 'k option \<Rightarrow> ('w, string) tcmd" where
  "mustPub L kp =
     (case kp of None \<Rightarrow> panic | Some k \<Rightarrow> (case PublicKey L k of Inl _ \<Rightarrow> panic | Inr s \<Rightarrow> ret s))"

definition encode :: "('k, 'w) lab \<Rightarrow> string \<Rightarrow> jwt_claims \<Rightarrow> 'k option \<Rightarrow> ('w, string) tcmd" where
  "encode L what c kp = andThen (lib_call (Encode L c kp)) (or_fatal what)"

definition newKeyset :: "string \<Rightarrow> ('k, 'w) lab \<Rightarrow> ('w, 'k keyset) tcmd" where
  "newKeyset segment L =
     andThen (lib_call (CreateKey L Operator)) (\<lambda>opkp.
     andThen (lib_call (CreateKey L Account)) (\<lambda>syskp.
     andThen (lib_call (CreateKey L Account)) (\<lambda>authkp.
     andThen (lib_call (CreateKey L Account)) (\<lambda>acmekp.
     andThen (lib_call (CreateKey L Account)) (\<lambda>acmeSK.
     andThen (lib_call (CreateKey L Account)) (\<lambda>authSK.
     andThen (lib_call (CreateKey L Curve)) (\<lambda>callout.
     andThen (lib_call (CreateKey L Curve)) (\<lambda>first.
     andThen (lib_call (CreateKey L Curve)) (\<lambda>surface.
     andThen (mustPub L opkp) (\<lambda>op.
     andThen (mustPub L syskp) (\<lambda>sys.
     andThen (mustPub L authkp) (\<lambda>auth.
     andThen (mustPub L acmekp) (\<lambda>acme.
     andThen (mustPub L acmeSK) (\<lambda>acmeSKPub.
     andThen (mustPub L authSK) (\<lambda>authSKPub.
     andThen (mustPub L callout) (\<lambda>calloutPub.
     andThen (lib_call (CreateKey L User)) (\<lambda>issuer.
     andThen (mustPub L issuer) (\<lambda>issuerPub.
     andThen (encode L ''operator jwt'' (OperatorClaims ((NewOperatorClaims op)\<lparr>o_name := ''node-rig-operator''\<rparr>)) opkp) (\<lambda>ojwt.
     andThen (encode L ''system jwt'' (AccountClaims (system_claims sys)) opkp) (\<lambda>sjwt.
     andThen (encode L ''auth jwt'' (AccountClaims (auth_claims auth authSKPub issuerPub acme calloutPub)) opkp) (\<lambda>ajwt.
     andThen (encode L ''acme jwt'' (AccountClaims (acme_claims segment acme acmeSKPub)) opkp) (\<lambda>cjwt.
     andThen (mustSeed L acmeSK) (\<lambda>acmeSeed.
     andThen (mustSeed L authSK) (\<lambda>authSeed.
     andThen (mustSeed L first) (\<lambda>fs.
     andThen (mustSeed L surface) (\<lambda>ss.
     andThen (mustSeed L callout) (\<lambda>cs.
     ret \<lparr>opKP = opkp, acmeKP = acmekp, authKP = authkp, acmePub = acme, authPub = auth, acmeSKSeed = acmeSeed,
       authSKSeed = authSeed, firstSeed = fs, surfaceSeed = ss, calloutSeed = cs, opJWT = ojwt, sysJWT = sjwt,
       authJWT = ajwt, acmeJWT = cjwt, sysPub = sys, authPubAcc = auth, acmePubAcc = acme, issuerUserKP = issuer,
       issuerUserPub = issuerPub\<rparr>)))))))))))))))))))))))))))"

text \<open>\<open>seed, _ := kp.Seed()\<close>: an error leaves the seed empty, a nil key pair panics.\<close>

definition seed_of :: "('k, 'w) lab \<Rightarrow> 'k option \<Rightarrow> ('w, string) tcmd" where
  "seed_of L kp = (case kp of None \<Rightarrow> panic | Some k \<Rightarrow> ret (case Seed L k of Inl _ \<Rightarrow> [] | Inr s \<Rightarrow> s))"

definition pub_of :: "('k, 'w) lab \<Rightarrow> 'k option \<Rightarrow> ('w, string) tcmd" where
  "pub_of L kp = (case kp of None \<Rightarrow> panic | Some k \<Rightarrow> ret (case PublicKey L k of Inl _ \<Rightarrow> [] | Inr s \<Rightarrow> s))"

definition issuerCreds :: "('k, 'w) lab \<Rightarrow> 'k keyset \<Rightarrow> ('w, string) tcmd" where
  "issuerCreds L k =
     andThen (encode L ''issuer user jwt'' (UserClaims (NewUserClaims (issuerUserPub k))) (authKP k)) (\<lambda>tok.
     andThen (seed_of L (issuerUserKP k)) (\<lambda>seed.
     andThen (or_fatal ''issuer creds'' (FormatUserConfig L tok seed)) (\<lambda>creds.
     write_secret L ''write issuer creds'' ''issuer.creds'' creds)))"

definition issueUser :: "('k, 'w) lab \<Rightarrow> 'k option \<Rightarrow> string \<Rightarrow> permissions option \<Rightarrow> ('w, string) tcmd" where
  "issueUser L accKP name perms =
     andThen (lib_call (CreateKey L User)) (\<lambda>ukp.
     andThen (pub_of L ukp) (\<lambda>uPub.
     andThen (encode L (''issue '' @ name) (UserClaims ((NewUserClaims uPub)\<lparr>u_name := name, Permissions := perms\<rparr>)) accKP) (\<lambda>tok.
     andThen (seed_of L ukp) (\<lambda>seed.
     andThen (or_fatal (''creds '' @ name) (FormatUserConfig L tok seed)) (\<lambda>creds.
     write_secret L (''write creds '' @ name) (name @ ''.creds'') creds)))))"

section \<open>The server's configuration\<close>

definition nl :: string where "nl = [CHR 0x0A]"

definition server_config :: "(nat \<Rightarrow> bool) \<Rightarrow> 'k keyset \<Rightarrow> string \<Rightarrow> string" where
  "server_config P k store =
     nl @ ''listen: 127.0.0.1:-1'' @ nl @ ''operator: '' @ opJWT k @ nl @ ''system_account: '' @ sysPub k @ nl @
     ''resolver: MEMORY'' @ nl @ ''resolver_preload: {'' @ nl @
     ''  '' @ sysPub k @ '': '' @ sysJWT k @ '','' @ nl @
     ''  '' @ authPubAcc k @ '': '' @ authJWT k @ '','' @ nl @
     ''  '' @ acmePubAcc k @ '': '' @ acmeJWT k @ '','' @ nl @
     ''}'' @ nl @ ''jetstream { store_dir: '' @ go_quote P store @ '' }'' @ nl"

definition writeServerConfig :: "(nat \<Rightarrow> bool) \<Rightarrow> ('k, 'w) lab \<Rightarrow> 'k keyset \<Rightarrow> ('w, string) tcmd" where
  "writeServerConfig P L k =
     andThen (temp_dir L) (\<lambda>store. write_secret L ''write config'' ''server.conf'' (server_config P k store))"

end
