(* ===== verification/Rig.thy ===== *)
theory Rig
  imports Keyset AuthServer
begin

text \<open>
  \<open>rigtest/rig.go\<close> and \<open>rigtest/keyring.go\<close>: bringing up the test deployment, an operator-mode NATS
  server with the identity plane and its auth callout, and what a test does with it. The server, the
  plane and the clients are a record of operations on the world of the libraries. A connection is
  the number of its \<open>nats.Connect\<close>; each acquired resource and each registered cleanup is in the
  state of the test.
\<close>

section \<open>The deployment's libraries\<close>

type_synonym admin = "nat \<times> string \<times> string"    \<comment> \<open>\<open>siclient.New\<close>: connection, account, user\<close>

record plane_options =
  PConn :: nat
  CalloutConn :: nat
  FirstKey :: string
  SurfaceKey :: string
  CalloutKey :: string
  AuthAccount :: string
  AuthKeyName :: string
  CalloutTTL :: int
  OIDCIssuer :: string
  OIDCAudience :: string

record ('k, 'r, 'w) site = "('k, 'w) lab" +
  GenerateKey :: "'w \<Rightarrow> (string + 'r) \<times> 'w"
  HTTPTestURL :: "'w \<Rightarrow> string \<times> 'w"
  ProcessConfigFile :: "string \<Rightarrow> 'w \<Rightarrow> (string + unit) \<times> 'w"
  NewServer :: "'w \<Rightarrow> (string + unit) \<times> 'w"
  StartServer :: "'w \<Rightarrow> unit \<times> 'w"
  ReadyForConnections :: "'w \<Rightarrow> bool \<times> 'w"
  ClientURL :: "'w \<Rightarrow> string \<times> 'w"
  Connect :: "string \<Rightarrow> string \<Rightarrow> 'w \<Rightarrow> (string + unit) \<times> 'w"       \<comment> \<open>URL, credentials file\<close>
  RunPlane :: "plane_options \<Rightarrow> 'w \<Rightarrow> unit \<times> 'w"
  PlaneStatus :: "nat \<Rightarrow> 'w \<Rightarrow> (bool \<times> nat) \<times> 'w"                 \<comment> \<open>answered, and after how long\<close>
  Oversleep :: "'w \<Rightarrow> nat \<times> 'w"
  ImportKey :: "admin \<Rightarrow> string \<Rightarrow> string \<Rightarrow> string \<Rightarrow> 'w \<Rightarrow> (string + unit) \<times> 'w"
  MintSentinel :: "admin \<Rightarrow> 'w \<Rightarrow> (string + string) \<times> 'w"
  CreateToken :: "admin \<Rightarrow> string \<Rightarrow> string \<Rightarrow> string \<Rightarrow> 'w \<Rightarrow> (string + string \<times> string) \<times> 'w"
  RevokeToken :: "admin \<Rightarrow> string \<Rightarrow> 'w \<Rightarrow> (string + unit) \<times> 'w"
  NewRealmClient :: "nat \<Rightarrow> string \<Rightarrow> 'w \<Rightarrow> (string + unit) \<times> 'w"
  Provision :: "nat \<Rightarrow> 'w \<Rightarrow> (string + unit) \<times> 'w"
  PersonaKey :: "admin \<Rightarrow> string \<Rightarrow> 'w \<Rightarrow> (string + string) \<times> 'w"

definition rig_realm :: string where "rig_realm = ''proof''"

section \<open>Resources\<close>

text \<open>Closing a realm client closes its connection. Stopping what does not run does nothing.\<close>

definition release :: "resource \<Rightarrow> 'w bench \<Rightarrow> 'w bench" where
  "release r b =
     b\<lparr>running := running b - (case r of RealmClient c \<Rightarrow> {RealmClient c, Conn c} | _ \<Rightarrow> {r})\<rparr>"

text \<open>At the end of a test, however it ends, the cleanups run, the last registered one first.\<close>

definition finish :: "'w bench \<Rightarrow> 'w bench" where
  "finish b = (fold release (cleanups b) b)\<lparr>cleanups := []\<rparr>"

text \<open>\<open>defer\<close>: the function ends with the deferred call, on a failure and on a panic too.\<close>

definition deferring :: "resource \<Rightarrow> ('w, 'a) tcmd \<Rightarrow> ('w, 'a) tcmd" where
  "deferring r m p = (case m p of (x, q) \<Rightarrow> (x, q\<lparr>world := release r (world q)\<rparr>))"

definition nats_connect :: "('k, 'r, 'w) site \<Rightarrow> string \<Rightarrow> string \<Rightarrow> string \<Rightarrow> ('w, nat) tcmd" where
  "nats_connect L what url creds =
     andThen (lib_call (Connect L url creds)) (\<lambda>r.
     andThen (or_fatal what r) (\<lambda>_.
     andThen (call (\<lambda>b. (conns b, b\<lparr>conns := Suc (conns b)\<rparr>))) (\<lambda>c.
     andThen (acquire (Conn c)) (\<lambda>_. ret c))))"

text \<open>A connection that lives as long as the test.\<close>

definition test_conn :: "('k, 'r, 'w) site \<Rightarrow> string \<Rightarrow> string \<Rightarrow> string \<Rightarrow> ('w, nat) tcmd" where
  "test_conn L what url creds =
     andThen (nats_connect L what url creds) (\<lambda>c. andThen (Cleanup (Conn c)) (\<lambda>_. ret c))"

section \<open>The steps of Start\<close>

definition start_stub :: "('k, 'r, 'w) site \<Rightarrow> string \<Rightarrow> ('w, 'r as_stub) tcmd" where
  "start_stub L aud =
     andThen (lib_call (GenerateKey L)) (\<lambda>r.
     andThen (or_fatal ''as stub'' r) (\<lambda>k.
     andThen (lib_call (HTTPTestURL L)) (\<lambda>url.
     andThen (acquire StubServer) (\<lambda>_.
     andThen (Cleanup StubServer) (\<lambda>_. ret (NewASStub url aud k))))))"

definition startServer :: "('k, 'r, 'w) site \<Rightarrow> string \<Rightarrow> ('w, unit) tcmd" where
  "startServer L cfgPath =
     andThen (lib_call (ProcessConfigFile L cfgPath)) (\<lambda>r.
     andThen (or_fatal ''process config'' r) (\<lambda>_.
     andThen (lib_call (NewServer L)) (\<lambda>r.
     andThen (or_fatal ''new server'' r) (\<lambda>_.
     andThen (lib_call (StartServer L)) (\<lambda>_.
     andThen (acquire NatsServer) (\<lambda>_.
     andThen (Cleanup NatsServer) (\<lambda>_.
     andThen (lib_call (ReadyForConnections L)) (\<lambda>ok.
     if \<not> ok then Fatalf ''server not ready'' else ret ()))))))))"

text \<open>\<open>waitForService\<close> polls until the plane answers or ten seconds have passed. Times are nanoseconds.\<close>

definition poll_pause :: nat where "poll_pause = 50000000"
definition poll_limit :: nat where "poll_limit = 10000000000"

function poll_service :: "('k, 'r, 'w) site \<Rightarrow> nat \<Rightarrow> nat \<Rightarrow> 'w bench \<Rightarrow> bool \<times> 'w bench" where
  "poll_service L c deadline b =
     (if \<not> clock b < deadline then (False, b)
      else (case PlaneStatus L c (lib b) of ((ok, took), w) \<Rightarrow>
         if ok then (True, b\<lparr>lib := w, clock := clock b + took\<rparr>)
         else (case Oversleep L w of (late, w') \<Rightarrow>
           poll_service L c deadline (b\<lparr>lib := w', clock := clock b + took + poll_pause + late\<rparr>))))"
  by pat_completeness auto

termination
  by (relation "measure (\<lambda>(L, c, deadline, b). deadline - clock b)") (auto simp: poll_pause_def)

declare poll_service.simps [simp del]

definition waitForService :: "('k, 'r, 'w) site \<Rightarrow> nat \<Rightarrow> ('w, unit) tcmd" where
  "waitForService L c =
     andThen (call (\<lambda>b. poll_service L c (clock b + poll_limit) b)) (\<lambda>ok.
     if ok then ret () else Fatalf ''identity plane did not become ready'')"

definition mustImport :: "('k, 'r, 'w) site \<Rightarrow> admin \<Rightarrow> string \<Rightarrow> string \<Rightarrow> string \<Rightarrow> ('w, unit) tcmd" where
  "mustImport L adm name seed account =
     andThen (lib_call (ImportKey L adm name seed account)) (or_fatal (''import key '' @ name))"

definition mintSentinel :: "('k, 'r, 'w) site \<Rightarrow> admin \<Rightarrow> ('w, string) tcmd" where
  "mintSentinel L adm =
     andThen (lib_call (MintSentinel L adm)) (\<lambda>r.
     andThen (or_fatal ''mint sentinel'' r) (\<lambda>creds.
     write_secret (lab.truncate L) ''write sentinel'' ''sentinel.creds'' creds))"

definition provisionRealm :: "('k, 'r, 'w) site \<Rightarrow> string \<Rightarrow> string \<Rightarrow> ('w, unit) tcmd" where
  "provisionRealm L url creds =
     andThen (nats_connect L ''provision connect'' url creds) (\<lambda>c.
     deferring (Conn c)
       (andThen (lib_call (NewRealmClient L c rig_realm)) (\<lambda>r.
        andThen (or_fatal ''provision realm client'' r) (\<lambda>_.
        andThen (acquire (RealmClient c)) (\<lambda>_.
        deferring (RealmClient c)
          (andThen (lib_call (Provision L c)) (or_fatal ''provision''))))))) "

section \<open>Start\<close>

record 'r rig =
  RigURL :: string
  RigSentinelPath :: string
  RigAccount :: string
  AS :: "'r as_stub"
  RigAdmin :: admin
  readerCreds :: string

definition admin_permissions :: "string \<Rightarrow> string \<Rightarrow> permissions" where
  "admin_permissions segment account =
     \<lparr>pub_allow = [segment @ ''.status'', segment @ ''.xkey'', segment @ ''.'' @ account @ ''.ops.>''],
      sub_allow = [''_INBOX.>'']\<rparr>"

definition rig_plane :: "'k keyset \<Rightarrow> 'r as_stub \<Rightarrow> int \<Rightarrow> nat \<Rightarrow> nat \<Rightarrow> plane_options" where
  "rig_plane k s ttl ncService ncIssuer =
     \<lparr>PConn = ncService, CalloutConn = ncIssuer, FirstKey = firstSeed k, SurfaceKey = surfaceSeed k,
      CalloutKey = calloutSeed k, AuthAccount = authPub k, AuthKeyName = ''auth/issuer'', CalloutTTL = ttl,
      OIDCIssuer = URL s, OIDCAudience = audience s\<rparr>"

definition Start :: "(nat \<Rightarrow> bool) \<Rightarrow> string \<Rightarrow> ('k, 'r, 'w) site \<Rightarrow> int \<Rightarrow> ('w, 'r rig) tcmd" where
  "Start P segment L ttl =
     andThen (start_stub L ''https://node.test/resource'') (\<lambda>s.
     andThen (newKeyset segment (lab.truncate L)) (\<lambda>k.
     andThen (writeServerConfig P (lab.truncate L) k) (\<lambda>cfgPath.
     andThen (startServer L cfgPath) (\<lambda>_.
     andThen (issueUser (lab.truncate L) (acmeKP k) ''service'' None) (\<lambda>serviceCreds.
     andThen (issueUser (lab.truncate L) (acmeKP k) ''ops'' (Some (admin_permissions segment (acmePub k)))) (\<lambda>adminCreds.
     andThen (issueUser (lab.truncate L) (acmeKP k) ''reader'' None) (\<lambda>reader.
     andThen (issuerCreds (lab.truncate L) k) (\<lambda>issuer.
     andThen (lib_call (ClientURL L)) (\<lambda>url.
     andThen (test_conn L ''service connect'' url serviceCreds) (\<lambda>ncService.
     andThen (test_conn L ''issuer connect'' url issuer) (\<lambda>ncIssuer.
     andThen (Cleanup Plane) (\<lambda>_.
     andThen (lib_call (RunPlane L (rig_plane k s ttl ncService ncIssuer))) (\<lambda>_.
     andThen (acquire Plane) (\<lambda>_.
     andThen (Cleanup Plane) (\<lambda>_.
     andThen (waitForService L ncService) (\<lambda>_.
     andThen (test_conn L ''admin connect'' url adminCreds) (\<lambda>ncAdmin.
     let adm = (ncAdmin, acmePub k, ''ops'') in
     andThen (mustImport L adm ''acme'' (acmeSKSeed k) (acmePub k)) (\<lambda>_.
     andThen (mustImport L adm ''auth/issuer'' (authSKSeed k) (authPub k)) (\<lambda>_.
     andThen (mustImport L adm ''member-alt'' (authSKSeed k) (authPub k)) (\<lambda>_.
     andThen (mintSentinel L adm) (\<lambda>sentinelPath.
     andThen (provisionRealm L url reader) (\<lambda>_.
     ret \<lparr>RigURL = url, RigSentinelPath = sentinelPath, RigAccount = acmePub k, AS = s, RigAdmin = adm,
       readerCreds = reader\<rparr>))))))))))))))))))))))"

section \<open>What a test does with the rig\<close>

definition StaticToken :: "('k, 'r, 'w) site \<Rightarrow> 'r rig \<Rightarrow> string \<Rightarrow> string \<Rightarrow> ('w, string \<times> string) tcmd" where
  "StaticToken L r user label =
     andThen (lib_call (CreateToken L (RigAdmin r) (RigAccount r) user label)) (or_fatal (''create token '' @ user))"

definition RevokeStaticToken :: "('k, 'r, 'w) site \<Rightarrow> 'r rig \<Rightarrow> string \<Rightarrow> ('w, unit) tcmd" where
  "RevokeStaticToken L r digest = andThen (lib_call (RevokeToken L (RigAdmin r) digest)) (or_fatal ''revoke'')"

definition OIDCTokenRaw :: "'r crypto \<Rightarrow> 'r rig \<Rightarrow> claim_set \<Rightarrow> ('w, string) tcmd" where
  "OIDCTokenRaw C r cs = or_fatal ''oidc token'' (Token C (AS r) cs)"

definition OIDCToken :: "'r crypto \<Rightarrow> 'r rig \<Rightarrow> int \<Rightarrow> string \<Rightarrow> string list \<Rightarrow> ('w, string) tcmd" where
  "OIDCToken C r now person rs = OIDCTokenRaw C r (Claims (AS r) now person rs)"

definition ReaderRealm :: "('k, 'r, 'w) site \<Rightarrow> 'r rig \<Rightarrow> ('w, nat) tcmd" where
  "ReaderRealm L r =
     andThen (test_conn L ''reader connect'' (RigURL r) (readerCreds r)) (\<lambda>c.
     andThen (lib_call (NewRealmClient L c rig_realm)) (\<lambda>x.
     andThen (or_fatal ''reader realm'' x) (\<lambda>_.
     andThen (acquire (RealmClient c)) (\<lambda>_.
     andThen (Cleanup (RealmClient c)) (\<lambda>_. ret c)))))"

definition DirectoryKeyring :: "('k, 'r, 'w) site \<Rightarrow> 'r rig \<Rightarrow> string list \<Rightarrow> ('w, (string, string list) fmap) tcmd" where
  "DirectoryKeyring L r personas =
     andThen (test_conn L ''directory connect'' (RigURL r) (readerCreds r)) (\<lambda>c.
     for_each (\<lambda>p keys.
       andThen (lib_call (PersonaKey L (c, RigAccount r, ''reader'') p)) (\<lambda>x.
       andThen (or_fatal (''keys.public '' @ p) x) (\<lambda>pub.
       ret (fmupd p [pub] keys)))) personas fmempty)"

text \<open>The plane's log: \<open>syncBuffer\<close> appends under its lock and reports all bytes written.\<close>

definition buffer_write :: "string \<Rightarrow> string \<Rightarrow> nat \<times> string" where
  "buffer_write bytes b = (length bytes, b @ bytes)"

end
