(* ===== verification/RigProps.thy ===== *)
theory RigProps
  imports Rig
begin

text \<open>
  Two properties of the test rig: whatever goes wrong while it comes up, the cleanups of the test
  close all that was opened, in the right order; and the keys of its ceremony fit together, so that
  the users it mints are the ones that the node reads back.
\<close>

section \<open>Everything that runs has a cleanup\<close>

definition covered :: "resource set \<Rightarrow> 'w bench process \<Rightarrow> bool" where
  "covered X p \<longleftrightarrow> running (world p) \<subseteq> set (cleanups (world p)) \<union> X"

definition keeps_covered :: "resource set \<Rightarrow> 'w bench process \<Rightarrow> 'w bench process \<Rightarrow> bool" where
  "keeps_covered X p q \<longleftrightarrow> (covered X p \<longrightarrow> covered X q)"

interpretation covering: frame "keeps_covered X" for X
  by unfold_locales (auto simp: keeps_covered_def)

lemma covered_lib_call: "leaves (keeps_covered X) (lib_call f)"
  by (simp add: leaves_def lib_call_def call_def keeps_covered_def covered_def split: prod.splits)

lemma covered_Cleanup: "leaves (keeps_covered X) (Cleanup r)"
  by (auto simp: leaves_def Cleanup_def call_def keeps_covered_def covered_def)

lemma covered_Fatalf: "leaves (keeps_covered X) (Fatalf s)" "leaves (keeps_covered X) panic"
  by (simp_all add: leaves_def Fatalf_def panic_def cmd_simps keeps_covered_def covered_def)

lemma covered_or_fatal: "leaves (keeps_covered X) (or_fatal what r)"
  unfolding or_fatal_def by (intro covering.leaves_all covered_Fatalf)

lemma covered_write_file: "leaves (keeps_covered X) (write_file path c m)"
  by (simp add: leaves_def cmd_simps keeps_covered_def covered_def)

lemmas covers = covering.leaves_all covering.leaves_for_each covered_lib_call covered_Cleanup covered_Fatalf
  covered_or_fatal covered_write_file

text \<open>A resource may be acquired if its cleanup, or its deferred call, follows.\<close>

lemma covered_acquire_Cleanup:
  fixes f :: "unit \<Rightarrow> ('w, 'a) tcmd"
  assumes "\<And>a. leaves (keeps_covered X) (f a)"
  shows "leaves (keeps_covered X) (andThen (acquire r) (\<lambda>_. andThen (Cleanup r) f))"
proof (unfold leaves_def, rule allI)
  fix p :: "'w bench process"
  let ?q = "p\<lparr>world := (world p)\<lparr>running := insert r (running (world p)), cleanups := r # cleanups (world p)\<rparr>\<rparr>"
  have run: "andThen (acquire r) (\<lambda>_. andThen (Cleanup r) f) p = f () ?q"
    by (simp add: andThen_def acquire_def Cleanup_def call_def)
  have "keeps_covered X p ?q" by (auto simp: keeps_covered_def covered_def)
  moreover have "keeps_covered X ?q (snd (f () ?q))" using assms by (simp add: leaves_def)
  ultimately show "keeps_covered X p (snd (andThen (acquire r) (\<lambda>_. andThen (Cleanup r) f) p))"
    unfolding run by (rule covering.trans)
qed

lemma covered_deferring:
  assumes "leaves (keeps_covered (insert r X)) m" "covered (insert r X) p"
  shows "covered X (snd (deferring r m p))"
proof -
  obtain x q where m: "m p = (x, q)" by fastforce
  have "covered (insert r X) q" using leavesD [OF assms(1) m] assms(2) by (simp add: keeps_covered_def)
  then show ?thesis using m by (auto simp: deferring_def covered_def release_def split: resource.splits)
qed

lemma covered_acquire_deferring:
  fixes m :: "('w, 'a) tcmd"
  assumes "leaves (keeps_covered (insert r X)) m"
  shows "leaves (keeps_covered X) (andThen (acquire r) (\<lambda>_. deferring r m))"
  unfolding leaves_def keeps_covered_def
proof (intro allI impI)
  fix p :: "'w bench process" assume p: "covered X p"
  let ?q = "p\<lparr>world := (world p)\<lparr>running := insert r (running (world p))\<rparr>\<rparr>"
  have run: "andThen (acquire r) (\<lambda>_. deferring r m) p = deferring r m ?q"
    by (simp add: andThen_def acquire_def call_def)
  have "covered (insert r X) ?q" using p by (auto simp: covered_def)
  then show "covered X (snd (andThen (acquire r) (\<lambda>_. deferring r m) p))"
    unfolding run by (rule covered_deferring [OF assms])
qed

lemma andThen_assoc: "andThen (andThen m f) g = andThen m (\<lambda>a. andThen (f a) g)"
  by (rule ext) (simp add: andThen_def split: prod.splits res.splits)

lemma andThen_ret: "andThen (ret a) f = f a"
  by (rule ext) (simp add: andThen_def ret_def)

lemmas straight = andThen_assoc andThen_ret

lemma covered_call_conns: "leaves (keeps_covered X) (call (\<lambda>b. (conns b, b\<lparr>conns := Suc (conns b)\<rparr>)))"
  by (simp add: leaves_def call_def keeps_covered_def covered_def)

lemma covered_test_conn: "leaves (keeps_covered X) (test_conn L what url creds)"
  unfolding test_conn_def nats_connect_def straight
  by (intro covers covered_call_conns covered_acquire_Cleanup)

lemma covered_temp_dir: "leaves (keeps_covered X) (temp_dir L)"
  unfolding temp_dir_def
  by (intro covers) (auto simp: leaves_def call_def keeps_covered_def covered_def)

lemma covered_write_secret: "leaves (keeps_covered X) (write_secret L what name c)"
  unfolding write_secret_def by (intro covers covered_temp_dir)

lemma covered_provision: "leaves (keeps_covered X) (provisionRealm L url creds)"
  unfolding provisionRealm_def nats_connect_def straight
  by (intro covers covered_call_conns covered_acquire_deferring)

lemma covered_poll: "running (snd (poll_service L c d b)) = running b \<and> cleanups (snd (poll_service L c d b)) = cleanups b"
proof (induction L c d b rule: poll_service.induct)
  case (1 L c d b)
  obtain ok took w where s: "PlaneStatus L c (lib b) = ((ok, took), w)" by (metis prod.exhaust)
  obtain late w' where o: "Oversleep L w = (late, w')" by fastforce
  let ?b = "b\<lparr>lib := w', clock := clock b + took + poll_pause + late\<rparr>"
  have "clock b < d \<Longrightarrow> \<not> ok \<Longrightarrow> running (snd (poll_service L c d ?b)) = running ?b \<and> cleanups (snd (poll_service L c d ?b)) = cleanups ?b"
    using "1.IH" [OF _ s [symmetric] refl _ o [symmetric]] by simp
  then show ?case using s o by (simp add: poll_service.simps [of L c d b])
qed

text \<open>The loop gives up only when the deadline has passed.\<close>

lemma poll_gives_up: "poll_service L c d b = (False, b') \<Longrightarrow> d \<le> clock b'"
proof (induction L c d b arbitrary: b' rule: poll_service.induct)
  case (1 L c d b)
  obtain ok took w where s: "PlaneStatus L c (lib b) = ((ok, took), w)" by (metis prod.exhaust)
  obtain late w' where o: "Oversleep L w = (late, w')" by fastforce
  show ?case
    using "1.prems" "1.IH" [OF _ s [symmetric] refl _ o [symmetric]] s o
    by (cases "clock b < d"; cases ok) (simp_all add: poll_service.simps [of L c d b])
qed

lemma covered_wait: "leaves (keeps_covered X) (waitForService L c)"
  unfolding waitForService_def
  by (intro covers) (simp add: leaves_def call_def keeps_covered_def covered_def covered_poll split_beta)

lemma covered_keys:
  "leaves (keeps_covered X) (mustSeed L' kp)" "leaves (keeps_covered X) (mustPub L' kp)"
  "leaves (keeps_covered X) (seed_of L' kp)" "leaves (keeps_covered X) (pub_of L' kp)"
  "leaves (keeps_covered X) (encode L' what cl kp)"
  unfolding mustSeed_def mustPub_def seed_of_def pub_of_def encode_def by (intro covers)+

lemma covered_ceremony:
  "leaves (keeps_covered X) (newKeyset segment L')" "leaves (keeps_covered X) (issuerCreds L' k)"
  "leaves (keeps_covered X) (issueUser L' kp name perms)" "leaves (keeps_covered X) (writeServerConfig P L' k)"
  unfolding newKeyset_def issuerCreds_def issueUser_def writeServerConfig_def
  by (intro covers covered_keys covered_temp_dir covered_write_secret)+

lemma covered_steps:
  "leaves (keeps_covered X) (start_stub L aud)" "leaves (keeps_covered X) (startServer L path)"
  "leaves (keeps_covered X) (mustImport L adm name seed acct)" "leaves (keeps_covered X) (mintSentinel L adm)"
  unfolding start_stub_def startServer_def mustImport_def mintSentinel_def
  by (intro covers covered_acquire_Cleanup covered_write_secret)+

lemma covered_Start: "leaves (keeps_covered X) (Start P segment L ttl)"
  unfolding Start_def Let_def
  by (intro covers covered_steps covered_ceremony covered_test_conn covered_wait covered_provision
      covered_acquire_Cleanup)

text \<open>Running all cleanups stops what they name.\<close>

lemma fold_release: "running (fold release rs b) \<subseteq> running b - set rs"
proof (induction rs arbitrary: b)
  case (Cons r rs)
  have "running (release r b) \<subseteq> running b - {r}" by (auto simp: release_def split: resource.splits)
  then show ?case using Cons [of "release r b"] by auto
qed simp

lemma covered_finish: "covered {} p \<Longrightarrow> running (finish (world p)) = {}"
  using fold_release [of "cleanups (world p)" "world p"] by (auto simp: covered_def finish_def)

section \<open>The cleanups of a rig that came up\<close>

definition bstate :: "'w bench process \<Rightarrow> resource set \<times> resource list \<times> nat" where
  "bstate p = (running (world p), cleanups (world p), conns (world p))"

definition same_bench :: "'w bench process \<Rightarrow> 'w bench process \<Rightarrow> bool" where
  "same_bench p q \<longleftrightarrow> bstate q = bstate p"

text \<open>Once the test has a temporary directory, another one registers nothing.\<close>

definition steady :: "'w bench process \<Rightarrow> 'w bench process \<Rightarrow> bool" where
  "steady p q \<longleftrightarrow> (TempFiles \<in> running (world p) \<longrightarrow> bstate q = bstate p)"

interpretation still: frame same_bench
  by unfold_locales (auto simp: same_bench_def)

interpretation settling: frame steady
  by unfold_locales (auto simp: steady_def bstate_def)

lemma same_bench_basic:
  "leaves same_bench (lib_call f)" "leaves same_bench (Fatalf s)" "leaves same_bench panic"
  "leaves same_bench (write_file path c m)"
  by (simp_all add: leaves_def lib_call_def call_def Fatalf_def panic_def cmd_simps same_bench_def bstate_def
      split: prod.splits)

lemma same_bench_or_fatal: "leaves same_bench (or_fatal what r)"
  unfolding or_fatal_def by (intro still.leaves_all same_bench_basic)

lemmas stills = still.leaves_all same_bench_basic same_bench_or_fatal

lemma same_bench_steady: "leaves same_bench m \<Longrightarrow> leaves steady m"
  by (simp add: leaves_def same_bench_def steady_def)

lemma still_keys:
  "leaves same_bench (mustSeed L' kp)" "leaves same_bench (mustPub L' kp)" "leaves same_bench (seed_of L' kp)"
  "leaves same_bench (pub_of L' kp)" "leaves same_bench (encode L' what cl kp)"
  unfolding mustSeed_def mustPub_def seed_of_def pub_of_def encode_def by (intro stills)+

lemma still_steps:
  "leaves same_bench (newKeyset segment L')" "leaves same_bench (mustImport L adm name seed acct)"
  unfolding newKeyset_def mustImport_def by (intro stills still_keys)+

lemma still_wait: "leaves same_bench (waitForService L c)"
proof -
  have "conns (snd (poll_service L c d b)) = conns b" for d b
  proof (induction L c d b rule: poll_service.induct)
    case (1 L c d b)
    obtain ok took w where s: "PlaneStatus L c (lib b) = ((ok, took), w)" by (metis prod.exhaust)
    obtain late w' where o: "Oversleep L w = (late, w')" by fastforce
    let ?b = "b\<lparr>lib := w', clock := clock b + took + poll_pause + late\<rparr>"
    have "clock b < d \<Longrightarrow> \<not> ok \<Longrightarrow> conns (snd (poll_service L c d ?b)) = conns ?b"
      using "1.IH" [OF _ s [symmetric] refl _ o [symmetric]] by simp
    then show ?case using s o by (simp add: poll_service.simps [of L c d b])
  qed
  then show ?thesis unfolding waitForService_def
    by (intro stills) (simp add: leaves_def call_def same_bench_def bstate_def covered_poll split_beta)
qed

lemma steady_temp_dir: "leaves steady (temp_dir L)"
proof -
  have "leaves steady (call (\<lambda>b. ((), if TempFiles \<in> running b then b
      else b\<lparr>running := insert TempFiles (running b), cleanups := TempFiles # cleanups b\<rparr>)))"
    by (auto simp: leaves_def call_def steady_def bstate_def)
  then show ?thesis
    unfolding temp_dir_def by (intro settling.leaves_andThen settling.leaves_ret; (assumption | intro same_bench_steady stills)?)
qed

lemma steady_write_secret: "leaves steady (write_secret L what name c)"
  unfolding write_secret_def by (intro settling.leaves_all steady_temp_dir same_bench_steady stills)

lemma steady_steps:
  "leaves steady (issuerCreds L' k)" "leaves steady (issueUser L' kp name perms)" "leaves steady (mintSentinel L adm)"
  unfolding issuerCreds_def issueUser_def mintSentinel_def
  by (intro settling.leaves_all steady_write_secret same_bench_steady stills still_keys)+

lemma same_benchD: "leaves same_bench m \<Longrightarrow> m p = (r, q) \<Longrightarrow> bstate q = bstate p"
  using leavesD [of same_bench] by (simp add: same_bench_def)

lemma steadyD: "leaves steady m \<Longrightarrow> m p = (r, q) \<Longrightarrow> TempFiles \<in> fst (bstate p) \<Longrightarrow> bstate q = bstate p"
  using leavesD [of steady m p r q] by (simp add: steady_def bstate_def)

text \<open>What the steps that acquire something do when they succeed.\<close>

lemma lib_call_Ok:
  "lib_call f p = (Ok a, q) \<longleftrightarrow> (\<exists>w. f (lib (world p)) = (a, w) \<and> q = p\<lparr>world := (world p)\<lparr>lib := w\<rparr>\<rparr>)"
  by (auto simp: lib_call_def call_Ok split: prod.splits)

lemma or_fatal_Ok: "or_fatal what r p = (Ok a, q) \<longleftrightarrow> r = Inr a \<and> q = p"
  by (auto simp: or_fatal_def Fatalf_def cmd_simps split: sum.splits)

lemma Fatalf_Ok [simp]: "Fatalf s p \<noteq> (Ok a, q)"
  by (simp add: Fatalf_def cmd_simps)

lemmas steps_Ok = andThen_Ok lib_call_Ok or_fatal_Ok ret_Ok call_Ok

lemma start_stub_Ok:
  "start_stub L aud p = (Ok s, q) \<Longrightarrow>
   bstate q = (insert StubServer (running (world p)), StubServer # cleanups (world p), conns (world p))"
  by (auto simp: start_stub_def steps_Ok acquire_def Cleanup_def bstate_def)

lemma startServer_Ok:
  "startServer L path p = (Ok u, q) \<Longrightarrow>
   bstate q = (insert NatsServer (running (world p)), NatsServer # cleanups (world p), conns (world p))"
  by (auto simp: startServer_def steps_Ok acquire_def Cleanup_def bstate_def split: if_splits)

lemma test_conn_Ok:
  "test_conn L what url creds p = (Ok c, q) \<Longrightarrow> c = conns (world p) \<and>
   bstate q = (insert (Conn c) (running (world p)), Conn c # cleanups (world p), Suc (conns (world p)))"
  by (auto simp: test_conn_def nats_connect_def steps_Ok acquire_def Cleanup_def bstate_def)

lemma writeServerConfig_Ok:
  assumes "writeServerConfig P L k p = (Ok path, q)" "TempFiles \<notin> running (world p)"
  shows "bstate q = (insert TempFiles (running (world p)), TempFiles # cleanups (world p), conns (world p))"
proof -
  obtain d r where d: "temp_dir L p = (Ok d, r)" "write_secret L ''write config'' ''server.conf'' (server_config P k d) r = (Ok path, q)"
    using assms(1) by (auto simp: writeServerConfig_def andThen_Ok)
  have "bstate r = (insert TempFiles (running (world p)), TempFiles # cleanups (world p), conns (world p))"
    using d(1) assms(2) by (auto simp: temp_dir_def steps_Ok bstate_def)
  then show ?thesis using steadyD [OF steady_write_secret d(2)] by simp
qed

lemma deferring_Ok:
  "deferring r m p = (Ok a, q) \<longleftrightarrow> (\<exists>q'. m p = (Ok a, q') \<and> q = q'\<lparr>world := release r (world q')\<rparr>)"
  by (auto simp: deferring_def split: prod.splits)

lemma provisionRealm_Ok:
  "provisionRealm L url creds p = (Ok u, q) \<Longrightarrow> cleanups (world q) = cleanups (world p)"
  by (auto simp: provisionRealm_def nats_connect_def deferring_Ok release_def steps_Ok acquire_def)

lemma Start_cleanups:
  assumes "running (world p) = {}" "cleanups (world p) = []" "conns (world p) = 0"
    and "Start P segment L ttl p = (Ok rg, q)"
  shows "cleanups (world q) = [Conn 2, Plane, Plane, Conn 1, Conn 0, NatsServer, TempFiles, StubServer]"
proof -
  let ?L = "lab.truncate L"
  obtain s p1 k p2 path p3 p4 sc p5 ac p6 rd p7 ic p8 url p9 c0 p10 c1 p11 p12 p13 p14 p15 p16 c2 p17 p18 p19 p20 sent p21 p22 u1 u2 u3 u4 u5 u6 u7 u8 u9 u10
    where st: "start_stub L ''https://node.test/resource'' p = (Ok s, p1)" "newKeyset segment ?L p1 = (Ok k, p2)"
      "writeServerConfig P ?L k p2 = (Ok path, p3)" "startServer L path p3 = (Ok u1, p4)"
    and users: "issueUser ?L (acmeKP k) ''service'' None p4 = (Ok sc, p5)"
      "issueUser ?L (acmeKP k) ''ops'' (Some (admin_permissions segment (acmePub k))) p5 = (Ok ac, p6)"
      "issueUser ?L (acmeKP k) ''reader'' None p6 = (Ok rd, p7)" "issuerCreds ?L k p7 = (Ok ic, p8)"
      "lib_call (ClientURL L) p8 = (Ok url, p9)"
    and plane: "test_conn L ''service connect'' url sc p9 = (Ok c0, p10)" "test_conn L ''issuer connect'' url ic p10 = (Ok c1, p11)"
      "Cleanup Plane p11 = (Ok u2, p12)" "lib_call (RunPlane L (rig_plane k s ttl c0 c1)) p12 = (Ok u3, p13)"
      "acquire Plane p13 = (Ok u4, p14)" "Cleanup Plane p14 = (Ok u5, p15)" "waitForService L c0 p15 = (Ok u6, p16)"
      "test_conn L ''admin connect'' url ac p16 = (Ok c2, p17)"
    and admin: "mustImport L (c2, acmePub k, ''ops'') ''acme'' (acmeSKSeed k) (acmePub k) p17 = (Ok u7, p18)"
      "mustImport L (c2, acmePub k, ''ops'') ''auth/issuer'' (authSKSeed k) (authPub k) p18 = (Ok u8, p19)"
      "mustImport L (c2, acmePub k, ''ops'') ''member-alt'' (authSKSeed k) (authPub k) p19 = (Ok u9, p20)"
      "mintSentinel L (c2, acmePub k, ''ops'') p20 = (Ok sent, p21)" "provisionRealm L url rd p21 = (Ok u10, p22)" "q = p22"
    using assms(4) unfolding Start_def Let_def andThen_Ok ret_Ok by (elim exE conjE) (rule that; assumption)
  have b2: "bstate p2 = ({StubServer}, [StubServer], 0)"
    using start_stub_Ok [OF st(1)] same_benchD [OF still_steps(1) st(2)] assms(1-3) by simp
  then have b4: "bstate p4 = ({NatsServer, TempFiles, StubServer}, [NatsServer, TempFiles, StubServer], 0)"
    using writeServerConfig_Ok [OF st(3)] startServer_Ok [OF st(4)] by (simp add: bstate_def)
  have t: "TempFiles \<in> fst (bstate p4)" by (simp add: b4)
  have "bstate p8 = bstate p4"
    using t steadyD [OF steady_steps(2) users(1)] steadyD [OF steady_steps(2) users(2)]
      steadyD [OF steady_steps(2) users(3)] steadyD [OF steady_steps(1) users(4)] by simp
  then have b9: "bstate p9 = bstate p4" using same_benchD [OF same_bench_basic(1) users(5)] by simp
  have b11: "bstate p11 = ({Conn 1, Conn 0, NatsServer, TempFiles, StubServer}, [Conn 1, Conn 0, NatsServer, TempFiles, StubServer], 2)"
    using test_conn_Ok [OF plane(1)] test_conn_Ok [OF plane(2)] b9 b4 by (simp add: bstate_def)
  then have b15: "bstate p15 = (insert Plane (fst (bstate p11)), Plane # Plane # fst (snd (bstate p11)), 2)"
    using plane(3,5,6) same_benchD [OF same_bench_basic(1) plane(4)]
    by (auto simp: Cleanup_def acquire_def call_Ok bstate_def)
  have b17: "TempFiles \<in> fst (bstate p17)"
    "fst (snd (bstate p17)) = [Conn 2, Plane, Plane, Conn 1, Conn 0, NatsServer, TempFiles, StubServer]"
    using test_conn_Ok [OF plane(8)] same_benchD [OF still_wait plane(7)] b15 b11 by (simp_all add: bstate_def)
  have "bstate p20 = bstate p17"
    using same_benchD [OF still_steps(2) admin(1)] same_benchD [OF still_steps(2) admin(2)]
      same_benchD [OF still_steps(2) admin(3)] by simp
  then show ?thesis
    using steadyD [OF steady_steps(3) admin(4)] provisionRealm_Ok [OF admin(5)] admin(6) b17 by (simp add: bstate_def)
qed


section \<open>The keys fit\<close>

text \<open>What the packages \<open>jwt\<close> and \<open>nkeys\<close> document: a token says what was encoded and names its signer.\<close>

definition issues :: "('k, 'w) lab \<Rightarrow> (string \<Rightarrow> (jwt_claims \<times> string) option) \<Rightarrow> bool" where
  "issues L V \<longleftrightarrow>
     (\<forall>c k w t w' pub. Encode L c (Some k) w = (Inr t, w') \<longrightarrow> PublicKey L k = Inr pub \<longrightarrow> V t = Some (c, pub))"

text \<open>A seed with the public key it belongs to.\<close>

definition seed_for :: "('k, 'w) lab \<Rightarrow> string \<Rightarrow> string \<Rightarrow> bool" where
  "seed_for L seed pub \<longleftrightarrow> (\<exists>k. Seed L k = Inr seed \<and> PublicKey L k = Inr pub)"

lemma mustPub_Ok: "mustPub L kp p = (Ok s, q) \<longleftrightarrow> (\<exists>k. kp = Some k \<and> PublicKey L k = Inr s) \<and> q = p"
  by (auto simp: mustPub_def panic_def ret_def split: option.splits sum.splits)

lemma mustSeed_Ok: "mustSeed L kp p = (Ok s, q) \<longleftrightarrow> (\<exists>k. kp = Some k \<and> Seed L k = Inr s) \<and> q = p"
  by (auto simp: mustSeed_def panic_def ret_def split: option.splits sum.splits)

lemma encode_Ok:
  assumes "issues L V" "PublicKey L k = Inr pub" "encode L what c (Some k) p = (Ok t, q)"
  shows "V t = Some (c, pub)"
  using assms unfolding issues_def encode_def steps_Ok by blast

text \<open>What the ceremony makes, with every token read back.\<close>

lemma newKeyset_Ok:
  assumes V: "issues L V" and run: "newKeyset segment L p = (Ok k, q)"
  shows "\<exists>op authSKPub acmeSKPub calloutPub authKey.
    V (opJWT k) = Some (OperatorClaims \<lparr>o_subject = op, o_name = ''node-rig-operator''\<rparr>, op) \<and>
    V (authJWT k) = Some (AccountClaims (auth_claims (authPub k) authSKPub (issuerUserPub k) (acmePub k) calloutPub), op) \<and>
    V (acmeJWT k) = Some (AccountClaims (acme_claims segment (acmePub k) acmeSKPub), op) \<and>
    seed_for L (authSKSeed k) authSKPub \<and> seed_for L (acmeSKSeed k) acmeSKPub \<and> seed_for L (calloutSeed k) calloutPub \<and>
    authKP k = Some authKey \<and> PublicKey L authKey = Inr (authPub k)"
  using run unfolding newKeyset_def andThen_Ok ret_Ok mustPub_Ok mustSeed_Ok
proof (elim exE conjE, goal_cases)
  case 1
  then show ?case
    using encode_Ok [OF V] by (auto simp: seed_for_def NewOperatorClaims_def)
qed

lemma issuerCreds_Ok:
  assumes V: "issues L V" and pub: "authKP k = Some a" "PublicKey L a = Inr (authPub k)"
    and run: "issuerCreds L k p = (Ok path, q)"
  shows "\<exists>tok seed creds. V tok = Some (UserClaims (NewUserClaims (issuerUserPub k)), authPub k) \<and>
    FormatUserConfig L tok seed = Inr creds \<and> files q = files p @ [(path, creds, 384)]"
proof -
  have files: "files r = files p'" if "leaves (\<lambda>p q. files q = files p) m" "m p' = (x, r)" for m p' x r
    using leavesD [OF that] by simp
  have t: "leaves (\<lambda>p q. files q = files p) (temp_dir L)"
    by (auto simp: leaves_def temp_dir_def andThen_def lib_call_def call_def or_fatal_def Fatalf_def cmd_simps
        split: prod.splits sum.splits)
  obtain tok p1 seed p2 creds p3 dir p4
    where st: "encode L ''issuer user jwt'' (UserClaims (NewUserClaims (issuerUserPub k))) (Some a) p = (Ok tok, p1)"
      "seed_of L (issuerUserKP k) p1 = (Ok seed, p2)" "FormatUserConfig L tok seed = Inr creds" "temp_dir L p2 = (Ok dir, p3)"
      "files q = files p3 @ [(path, creds, 384)]"
    using run unfolding issuerCreds_def write_secret_def pub(1)
    by (auto simp: steps_Ok cmd_runs(6))
  have "files p1 = files p" using st(1) by (auto simp: encode_def steps_Ok)
  moreover have "files p2 = files p1" using st(2) by (auto simp: seed_of_def panic_def ret_def split: option.splits)
  moreover have "files p3 = files p2" by (rule files [OF t st(4)])
  ultimately show ?thesis using encode_Ok [OF V pub(2) st(1)] st(3,5) by auto
qed


section \<open>A deployment that comes up\<close>

text \<open>
  Keys are numbers, in the order of their creation, with letters for public keys; the world counts
  them. Every token that the ceremony asks for has a name of its own, and no other is issued. The
  whole deployment does not look at tokens.
\<close>

abbreviation ex_name :: "nat \<Rightarrow> string" where
  "ex_name k \<equiv> [''ABCDEFGHIJKLM'' ! k]"

definition ex_operator :: jwt_claims where
  "ex_operator = OperatorClaims \<lparr>o_subject = ''A'', o_name = ''node-rig-operator''\<rparr>"

definition ex_token :: "jwt_claims \<Rightarrow> nat option \<Rightarrow> string + string" where
  "ex_token c kp =
     (case c of
        OperatorClaims _ \<Rightarrow> if c = ex_operator \<and> kp = Some 0 then Inr ''op'' else Inl ''x''
      | AccountClaims a \<Rightarrow>
          if a = system_claims ''B'' \<and> kp = Some 0 then Inr ''sys''
          else if a = auth_claims ''C'' ''F'' ''J'' ''D'' ''G'' \<and> kp = Some 0 then Inr ''auth''
          else if a = acme_claims ''identity'' ''D'' ''E'' \<and> kp = Some 0 then Inr ''acme'' else Inl ''x''
      | UserClaims u \<Rightarrow> if u = NewUserClaims ''J'' \<and> kp = Some 2 then Inr ''issuer'' else Inl ''x'')"

definition ex_lab :: "(nat, nat) lab" where
  "ex_lab =
     \<lparr>CreateKey = (\<lambda>_ w. (Some w, Suc w)), PublicKey = (\<lambda>k. Inr (ex_name k)), Seed = (\<lambda>k. Inr (''S'' @ ex_name k)),
      Encode = (\<lambda>c kp w. (ex_token c kp, w)), FormatUserConfig = (\<lambda>t s. Inr (t @ ''/'' @ s)),
      TempDir = (\<lambda>w. (Inr ''/tmp'', w)), WriteFile = (\<lambda>_ _ _ w. (Inr (), w))\<rparr>"

definition ex_site :: "(nat, nat, nat) site" where
  "ex_site = lab.extend (ex_lab\<lparr>Encode := (\<lambda>c kp w. (Inr ''token'', w))\<rparr>)
     \<lparr>GenerateKey = (\<lambda>w. (Inr 7, w)), HTTPTestURL = (\<lambda>w. (''http://as'', w)),
      ProcessConfigFile = (\<lambda>_ w. (Inr (), w)), NewServer = (\<lambda>w. (Inr (), w)), StartServer = (\<lambda>w. ((), w)),
      ReadyForConnections = (\<lambda>w. (True, w)), ClientURL = (\<lambda>w. (''nats://n'', w)), Connect = (\<lambda>_ _ w. (Inr (), w)),
      RunPlane = (\<lambda>_ w. ((), w)), PlaneStatus = (\<lambda>_ w. ((True, 1000), w)), Oversleep = (\<lambda>w. (0, w)),
      ImportKey = (\<lambda>_ _ _ _ w. (Inr (), w)), MintSentinel = (\<lambda>_ w. (Inr ''creds'', w)),
      CreateToken = (\<lambda>_ _ _ _ w. (Inr (''sit_1'', ''d''), w)), RevokeToken = (\<lambda>_ _ w. (Inr (), w)),
      NewRealmClient = (\<lambda>_ _ w. (Inr (), w)), Provision = (\<lambda>_ w. (Inr (), w)), PersonaKey = (\<lambda>_ _ w. (Inr ''K'', w))\<rparr>"

definition ex_bench :: "nat bench process" where
  "ex_bench = \<lparr>world = \<lparr>lib = 0, running = {}, cleanups = [], conns = 0, clock = 0\<rparr>, printed = [], files = []\<rparr>"

lemma ex_keyset: "\<exists>k q. newKeyset ''identity'' ex_lab ex_bench = (Ok k, q) \<and> issuerUserPub k = ''J'' \<and> issuerUserKP k = Some 9 \<and>
   authKP k = Some 2 \<and> acmePub k = ''D'' \<and> acmeJWT k = ''acme'' \<and> (\<exists>path q'. issuerCreds ex_lab k q = (Ok path, q'))"
  by (simp add: newKeyset_def andThen_def lib_call_def call_def mustPub_def mustSeed_def encode_def or_fatal_def ret_def
      ex_lab_def ex_bench_def ex_token_def ex_operator_def NewOperatorClaims_def issuerCreds_def seed_of_def
      write_secret_def temp_dir_def write_file_def auth_claims_def acme_claims_def system_claims_def NewAccountClaims_def)

definition ex_read :: "string \<Rightarrow> (jwt_claims \<times> string) option" where
  "ex_read t =
     (if t = ''op'' then Some (ex_operator, ''A'')
      else if t = ''sys'' then Some (AccountClaims (system_claims ''B''), ''A'')
      else if t = ''auth'' then Some (AccountClaims (auth_claims ''C'' ''F'' ''J'' ''D'' ''G''), ''A'')
      else if t = ''acme'' then Some (AccountClaims (acme_claims ''identity'' ''D'' ''E''), ''A'')
      else if t = ''issuer'' then Some (UserClaims (NewUserClaims ''J''), ''C'') else None)"

lemma ex_issues: "issues ex_lab ex_read"
proof -
  have "ex_token c (Some k) = Inr t \<Longrightarrow> ex_read t = Some (c, ex_name k)" for c k t
    by (cases c) (auto simp: ex_token_def ex_read_def split: if_splits)
  then show ?thesis by (simp add: issues_def ex_lab_def)
qed


lemma step_runs:
  "lib_call f p = (Ok (fst (f (lib (world p)))), p\<lparr>world := (world p)\<lparr>lib := snd (f (lib (world p)))\<rparr>\<rparr>)"
  "or_fatal what (Inr a) p = (Ok a, p)"
  "acquire r p = (Ok (), p\<lparr>world := (world p)\<lparr>running := insert r (running (world p))\<rparr>\<rparr>)"
  "Cleanup r p = (Ok (), p\<lparr>world := (world p)\<lparr>cleanups := r # cleanups (world p)\<rparr>\<rparr>)"
  by (simp_all add: lib_call_def call_def or_fatal_def ret_def acquire_def Cleanup_def split_beta)

lemma ex_start: "\<exists>rg q. Start (\<lambda>_. True) ''identity'' ex_site 60 ex_bench = (Ok rg, q)"
  by (simp add: Start_def start_stub_def startServer_def writeServerConfig_def issueUser_def test_conn_def nats_connect_def
      waitForService_def poll_service.simps poll_limit_def mustImport_def mintSentinel_def provisionRealm_def deferring_def
      release_def pub_of_def Let_def newKeyset_def cmd_simps step_runs mustPub_def mustSeed_def encode_def
      ex_site_def lab.defs ex_lab_def ex_bench_def issuerCreds_def seed_of_def write_secret_def temp_dir_def call_def)


end
