(* ===== verification/Spec2Isabelle.thy ===== *)
theory Spec2Isabelle
  imports Node Cli ByonProps Probe AuthProps Broker Limits RigProps
begin

text \<open>
  The remote MCP server \<open>soulstream-mcp\<close>: a credential-free HTTP door into one realm. A caller's
  bearer token is passed on to the admission edge of the realm (NATS auth callout); who the caller
  is comes back from the realm, and every admitted principal has a pooled entry with its own
  connection and MCP server. The development models the package \<open>node\<close>, its three commands and the
  test deployment with its authorization server, and proves what makes them correct: above all that
  no bearer is ever served as, or gets at the state of, a principal it was not admitted as.

  \<^bold>\<open>The Go library.\<close> \<open>Prelude\<close> has the result of a Go call (a value, an error, a panic), the locales
  \<open>codec\<close> (encoders with their decoders) and \<open>invariant_system\<close> (steps that keep an invariant), and
  two lemma collections. \<open>GoStrings\<close> models what the code uses of strings, strconv and UTF-8,
  \<open>GoBase64\<close> base64url, \<open>GoJson\<close> the JSON parser and the decoding into structs, \<open>GoFmt\<close> quoting and JSON
  encoding, \<open>GoHttp\<close> headers and response writers, \<open>GoFlag\<close> the flag package,
  \<open>GoPath\<close> joined paths, and \<open>GoMain\<close> commands: sequences of effects on a world, the printed lines and
  the written files, which end with a value, an exit status or a panic. Its locale \<open>frame\<close> gives for each relation between the states before
  and after a step that whole commands respect it. A Go string is a list of bytes (\<open>string\<close>).

  \<^bold>\<open>The node.\<close> \<open>Config\<close> is \<open>config.go\<close>: the settings and their validation. \<open>Edge\<close> is the admission edge,
  a record of the answers of NATS, the identity plane and the realm. \<open>Principal\<close> is \<open>principal.go\<close>:
  the principal read from the server's user information. \<open>Hint\<close>, \<open>Pool\<close> and \<open>Resolve\<close> are \<open>pool.go\<close>:
  bearer and routing hint; the entries and the locked helpers, connect and probe; and \<open>resolve\<close> with
  what it calls. \<open>PoolConc\<close> is the same code as threads whose critical sections interleave, with
  connections that drop, sessions that are minted, and \<open>Close\<close>. \<open>OAuth\<close> is \<open>oauth.go\<close>, \<open>Node\<close> is \<open>node.go\<close>.

  \<^bold>\<open>The commands and the rig.\<close> \<open>Cli\<close> is \<open>cmd/soulstream-mcp/main.go\<close>, \<open>ByonSetup\<close> is
  \<open>cmd/byon-setup/main.go\<close>, \<open>Probe\<close> is \<open>cmd/probe/main.go\<close>. \<open>Scope\<close> holds the permissions of a
  represented user, \<open>scopeTemplate\<close> of \<open>rigtest/rig.go\<close> and \<open>userScope\<close> of \<open>byon-setup\<close>.
  \<open>AuthServer\<close> is the authorization server of \<open>rigtest/asstub.go\<close> and \<open>rigtest/flow.go\<close>, \<open>Keyset\<close> the key
  ceremony of \<open>rigtest/keyset.go\<close>, and \<open>Rig\<close> the rest of \<open>rigtest/rig.go\<close> with \<open>rigtest/keyring.go\<close>: a test is
  a command whose world holds what it has running and the cleanups that it registered.

  \<^bold>\<open>How the parts meet.\<close> \<open>ServeHTTP\<close> reaches the pool through \<open>resolve\<close>, \<open>serverFor\<close> and \<open>bindSession\<close> only;
  the locale \<open>admission_pool\<close> states what it relies on, and its interpretation in \<open>Node\<close> is the pool.
  The command starts what \<open>New\<close> returns. The scope that \<open>byon-setup\<close> and the rig provision is
  what \<open>Principal\<close> parses (\<open>Scope\<close>, \<open>RigProps\<close>), and the tokens of the authorization server are what
  \<open>Hint\<close> routes by (\<open>AuthProps\<close>).

  \<^bold>\<open>What is shown.\<close> Of the pool under all interleavings (\<open>PoolInv\<close>, \<open>PoolConcInv\<close>, \<open>PoolSafety\<close>,
  \<open>PoolProps\<close>, \<open>Phases\<close>): the admission rule FR-005, that builds run once, that requests end, that the
  store is well typed and entries only move forward; \<open>Broker\<close> shows that it refines an abstract
  broker of principals, admissions and sessions. Of requests one after the other (\<open>PoolSeq\<close>,
  \<open>PoolQuiet\<close>, \<open>SeqProps\<close>): what \<open>resolve\<close> does on each branch, refusals included, that no connection
  leaks, and that \<open>resolve\<close> as a function is the lone run of the thread. \<open>Node\<close> composes these to the
  response that a client sees. \<open>Limits\<close> shows behaviours that the comments of the code exclude.
  \<open>ByonProps\<close>, \<open>Probe\<close>, \<open>Cli\<close>, \<open>Scope\<close>, \<open>AuthProps\<close> and \<open>RigProps\<close> hold the properties of the rest. \<open>Example\<close> is a
  concrete deployment on which the theorems about the pool are instantiated.

  \<^bold>\<open>Bounds.\<close> The JSON parser recurses on fuel, twice the length of the input and one; a lemma in
  \<open>GoJson\<close> shows that more fuel changes nothing, so the fuel never decides a parse. Its nesting
  limit of 10000 is Go's. That requests end is shown by a rank of at most 12 over the program points
  of \<open>resolve\<close>. The polling loop of the rig ends because every pause moves the clock. Counters for
  entries, connections and attempts are unbounded: they name objects that Go allocates.
  Times are integers.

  \<^bold>\<open>Assumptions.\<close> What is not in the repository is a parameter: the answers of NATS, identity plane
  and realm (record \<open>edge\<close>; every answer depends on the number of the attempt), the MCP handler of
  the SDK (what it does to its response writer), the Synadia Cloud API and the file system, the
  tables of printable and folding code points, SHA-256, RSA, key pairs, JWT encoding and
  the parsing of URLs. The theorems about the pool assume \<open>sane_edge\<close>: a bearer is always resolved to
  the same principal (it may be refused at any time), account keys hold no colon, and no grant has the malformed shape on which
  \<open>principalFromAllows\<close> panics; \<open>Limits\<close> shows what happens without the last. A thread takes its
  steps where the code takes or drops the lock, dials, or touches an entry without the lock.

  \<^bold>\<open>Not modelled.\<close> Reconnects inside the NATS client, beyond the token that it would present; time-outs
  and contexts; the HTTP server loop, which is a parameter of \<open>main\<close>; the mux of the authorization
  server; the identity plane, the NATS server and the realm client that the rig embeds; \<open>doc.go\<close>.
\<close>

end
